(* ===== verification/Prelude.thy ===== *)
theory Prelude
  imports Main "HOL-Library.Code_Target_Numeral" "HOL-Library.Word" "HOL-Library.Sublist" "HOL-Library.Char_ord"
    "HOL-Library.List_Lexorder"
begin

text \<open>
  What the components share: the C++ standard library as far as the sources use it
  (\<open>std::string\<close> as a list of bytes, \<open>std::map\<close> with string keys as a list sorted by
  key, \<open>std::to_string\<close>, the \<open>ctype\<close> predicates in the C locale), the outcome of a
  call with effects, and the generic lemmas the component proofs rest on.

  A \<open>std::string\<close> is a byte string; \<open>char\<close> of HOL is an 8-bit character, so
  \<open>string\<close> is exactly its value. \<open>int64_t\<close> values are integers with explicit
  range lemmas: signed overflow is undefined in C++, so a model that wraps would be wrong.
\<close>

named_theorems effects \<open>unfolding of programs with effects\<close>
named_theorems bytes \<open>facts on byte strings and characters\<close>


section \<open>Outcomes and programs with effects\<close>

text \<open>
  A call returns, lets an exception through (\<open>std::random_device\<close> without entropy, a
  consumer's callback that throws), or never comes back (a loop that does not end).
\<close>

datatype 'a outcome = Returns 'a | Throws | Hangs

type_synonym ('s, 'a) prog = "'s \<Rightarrow> 'a outcome \<times> 's"

definition ret :: "'a \<Rightarrow> ('s, 'a) prog" where
  "ret x s = (Returns x, s)"

definition bindp :: "('s, 'a) prog \<Rightarrow> ('a \<Rightarrow> ('s, 'b) prog) \<Rightarrow> ('s, 'b) prog" where
  "bindp m f s = (case m s of
     (Returns x, s') \<Rightarrow> f x s'
   | (Throws, s') \<Rightarrow> (Throws, s')
   | (Hangs, s') \<Rightarrow> (Hangs, s'))"

lemma map_outcome_Returns: "map_outcome f m = Returns y \<longleftrightarrow> (\<exists>x. m = Returns x \<and> y = f x)"
  by (cases m) auto

text \<open>A pure computation that may not end (\<open>None\<close>), run as part of a program.\<close>

definition liftp :: "'a option \<Rightarrow> ('s, 'a) prog" where
  "liftp x s = (case x of None \<Rightarrow> (Hangs, s) | Some y \<Rightarrow> (Returns y, s))"

lemma ret_simp [simp, effects]: "ret x s = (Returns x, s)"
  by (simp add: ret_def)

lemma bindp_ret [simp]: "bindp (ret x) f = f x"
  by (rule ext) (simp add: bindp_def)

lemma bindp_Returns [simp]: "m s = (Returns x, s') \<Longrightarrow> bindp m f s = f x s'"
  by (simp add: bindp_def)

lemma bindp_ReturnsE:
  assumes "bindp m f s = (Returns y, s'')"
  obtains x s' where "m s = (Returns x, s')" and "f x s' = (Returns y, s'')"
  using assms by (auto simp: bindp_def split: prod.splits outcome.splits)

lemma liftp_Returns [simp]: "liftp x s = (Returns y, s') \<longleftrightarrow> x = Some y \<and> s' = s"
  by (auto simp: liftp_def split: option.splits)

lemma liftp_Some [simp, effects]: "liftp (Some x) = ret x"
  by (rule ext) (simp add: liftp_def)


text \<open>A sequence of calls on a component's state: their answers in order.\<close>

fun run_calls :: "('c \<Rightarrow> 's \<Rightarrow> 'r \<times> 's) \<Rightarrow> 'c list \<Rightarrow> 's \<Rightarrow> 'r list" where
  "run_calls call [] st = []"
| "run_calls call (c # cs) st = (case call c st of (r, st') \<Rightarrow> r # run_calls call cs st')"


section \<open>Characters, in the C locale\<close>

definition code_of :: "char \<Rightarrow> nat" where
  "code_of c = of_char c"

definition isdigit :: "char \<Rightarrow> bool" where
  "isdigit c \<longleftrightarrow> 48 \<le> code_of c \<and> code_of c \<le> 57"

definition isupper :: "char \<Rightarrow> bool" where
  "isupper c \<longleftrightarrow> 65 \<le> code_of c \<and> code_of c \<le> 90"

definition islower :: "char \<Rightarrow> bool" where
  "islower c \<longleftrightarrow> 97 \<le> code_of c \<and> code_of c \<le> 122"

definition isalnum :: "char \<Rightarrow> bool" where
  "isalnum c \<longleftrightarrow> isdigit c \<or> isupper c \<or> islower c"

definition isxdigit :: "char \<Rightarrow> bool" where
  "isxdigit c \<longleftrightarrow> isdigit c \<or> (65 \<le> code_of c \<and> code_of c \<le> 70)
     \<or> (97 \<le> code_of c \<and> code_of c \<le> 102)"

definition isspace :: "char \<Rightarrow> bool" where
  "isspace c \<longleftrightarrow> code_of c = 32 \<or> (9 \<le> code_of c \<and> code_of c \<le> 13)"

definition tolower :: "char \<Rightarrow> char" where
  "tolower c = (if isupper c then char_of (code_of c + 32) else c)"

lemma code_of_less [simp]: "code_of c < 256"
  by (simp add: code_of_def)

lemma code_of_nibbles [simp]: "code_of c div 16 < 16" "code_of c mod 16 < 16"
  using less_mult_imp_div_less [of "code_of c" 16 16] by simp_all

lemma code_of_inject [simp]: "code_of c = code_of d \<longleftrightarrow> c = d"
  by (simp add: code_of_def)

lemma char_of_code_of [simp]: "char_of (code_of c) = c"
  by (simp add: code_of_def)

lemma code_of_char_of [simp]: "n < 256 \<Longrightarrow> code_of (char_of n) = n"
  by (simp add: code_of_def)

lemma code_of_char_of_mod: "code_of (char_of n) = n mod 256"
  by (simp add: code_of_def)


section \<open>Searching a string\<close>

text \<open>
  \<open>find_at p s\<close> is \<open>s.find(p)\<close> and \<open>find_from p s n\<close> is \<open>s.find(p, n)\<close>: the index of the
  first occurrence at or after \<open>n\<close>, or \<open>std::string::npos\<close> (here \<open>None\<close>).
  \<open>find_last c s\<close> is \<open>s.rfind(c)\<close>.
\<close>

fun find_at :: "'a list \<Rightarrow> 'a list \<Rightarrow> nat option" where
  "find_at p [] = (if p = [] then Some 0 else None)"
| "find_at p (c # s) = (if prefix p (c # s) then Some 0 else map_option Suc (find_at p s))"

definition find_from :: "'a list \<Rightarrow> 'a list \<Rightarrow> nat \<Rightarrow> nat option" where
  "find_from p s n =
     (if n \<le> length s then map_option (\<lambda>i. n + i) (find_at p (drop n s)) else None)"

fun find_last :: "'a \<Rightarrow> 'a list \<Rightarrow> nat option" where
  "find_last c [] = None"
| "find_last c (d # s) = (case find_last c s of
     Some i \<Rightarrow> Some (Suc i)
   | None \<Rightarrow> if c = d then Some 0 else None)"

lemma find_at_Some:
  "find_at p s = Some i \<longleftrightarrow>
     i \<le> length s \<and> prefix p (drop i s) \<and> (\<forall>j<i. \<not> prefix p (drop j s))"
proof (induction s arbitrary: i)
  case Nil
  then show ?case by auto
next
  case (Cons c s)
  show ?case
  proof (cases "prefix p (c # s)")
    case True
    then show ?thesis by (auto intro: gr0I)
  next
    case False
    then show ?thesis
      by (cases i) (auto simp: Cons.IH less_Suc_eq_0_disj)
  qed
qed

lemma find_at_None [bytes]: "find_at p s = None \<longleftrightarrow> \<not> sublist p s"
  by (induction s) (auto simp: sublist_Cons_right)

lemma find_at_split:
  assumes "find_at p s = Some i"
  shows "s = take i s @ p @ drop (i + length p) s" and "i + length p \<le> length s"
proof -
  from assms have i: "i \<le> length s" and "prefix p (drop i s)"
    by (auto simp: find_at_Some)
  then obtain r where r: "drop i s = p @ r" by (auto elim: prefixE)
  then have "drop (i + length p) s = r"
    by (metis add.commute append_eq_conv_conj drop_drop)
  with r show "s = take i s @ p @ drop (i + length p) s"
    by (metis append_take_drop_id)
  from r i show "i + length p \<le> length s"
    by (metis add_le_cancel_left drop_append append_take_drop_id le_add1 length_append
        length_take min.absorb2 add.assoc)
qed

lemma find_at_first:
  "find_at p s = Some i \<Longrightarrow> prefix p (drop j s) \<Longrightarrow> j \<le> length s \<Longrightarrow> i \<le> j"
  by (metis find_at_Some not_le)

lemma find_from_0 [simp]: "find_from p s 0 = find_at p s"
  by (cases "find_at p s") (auto simp: find_from_def)

lemma find_from_None:
  "n \<le> length s \<Longrightarrow> find_from p s n = None \<longleftrightarrow> \<not> sublist p (drop n s)"
  by (simp add: find_from_def find_at_None)

lemma find_from_Some:
  assumes "find_from p s n = Some i"
  shows "n \<le> i" and "find_at p (drop n s) = Some (i - n)" and "i + length p \<le> length s"
proof -
  from assms obtain m where m: "find_at p (drop n s) = Some m" and i: "i = n + m"
    and n: "n \<le> length s"
    by (auto simp: find_from_def split: if_splits)
  then show "n \<le> i" and "find_at p (drop n s) = Some (i - n)" by simp_all
  from find_at_split(2) [OF m] n i show "i + length p \<le> length s" by simp
qed

lemma find_last_None [bytes]: "find_last c s = None \<longleftrightarrow> c \<notin> set s"
  by (induction s) (auto split: option.splits)

lemma find_last_Some:
  "find_last c s = Some i \<Longrightarrow>
     i < length s \<and> s ! i = c \<and> c \<notin> set (drop (Suc i) s)"
proof (induction s arbitrary: i)
  case (Cons d s)
  then show ?case
    by (cases "find_last c s") (auto simp: find_last_None split: if_splits)
qed simp

lemma find_at_single_append:
  "c \<notin> set s \<Longrightarrow> find_at [c] (s @ c # t) = Some (length s)"
  by (induction s) auto

lemma find_at_single_None: "c \<notin> set s \<Longrightarrow> find_at [c] s = None"
  by (induction s) auto

lemma find_at_single [bytes]: "find_at [c] s = None \<longleftrightarrow> c \<notin> set s"
  by (induction s) auto

lemma find_last_append: "c \<notin> set t \<Longrightarrow> find_last c (s @ c # t) = Some (length s)"
  by (induction s) (auto simp: find_last_None [symmetric])


text \<open>A separator that neither prefix holds splits two equal strings at the same place.\<close>

lemma separator_inject:
  "x \<notin> set as \<Longrightarrow> x \<notin> set bs \<Longrightarrow> as @ x # cs = bs @ x # ds \<longleftrightarrow> as = bs \<and> cs = ds"
proof (induction as arbitrary: bs)
  case Nil
  then show ?case by (cases bs) auto
next
  case (Cons a as)
  then show ?case by (cases bs) auto
qed


section \<open>Decimal numbers\<close>

text \<open>\<open>std::to_string\<close>, and the value of a digit string as \<open>std::atoi\<close> reads it.\<close>

fun dec :: "nat \<Rightarrow> string" where
  "dec n = (if n < 10 then [char_of (48 + n)] else dec (n div 10) @ [char_of (48 + n mod 10)])"

declare dec.simps [simp del]

definition to_string :: "int \<Rightarrow> string" where
  "to_string i = (if i < 0 then ''-'' @ dec (nat (- i)) else dec (nat i))"

definition dec_value :: "string \<Rightarrow> nat" where
  "dec_value s = foldl (\<lambda>v c. v * 10 + (code_of c - 48)) 0 s"

lemma dec_value_Nil [simp]: "dec_value [] = 0"
  by (simp add: dec_value_def)

lemma dec_value_snoc [simp]: "dec_value (s @ [c]) = dec_value s * 10 + (code_of c - 48)"
  by (simp add: dec_value_def)

lemma dec_value_dec [simp]: "dec_value (dec n) = n"
proof (induction n rule: dec.induct)
  case (1 n)
  show ?case
  proof (cases "n < 10")
    case True
    then show ?thesis by (simp add: dec.simps [of n] dec_value_def)
  next
    case False
    with "1.IH" show ?thesis by (simp add: dec.simps [of n])
  qed
qed

lemma dec_inject [simp]: "dec m = dec n \<longleftrightarrow> m = n"
  by (metis dec_value_dec)

lemma dec_digits: "c \<in> set (dec n) \<Longrightarrow> isdigit c"
proof (induction n rule: dec.induct)
  case (1 n)
  show ?case
  proof (cases "n < 10")
    case True
    with "1.prems" show ?thesis by (simp add: dec.simps [of n] isdigit_def)
  next
    case False
    with 1 show ?thesis by (auto simp: dec.simps [of n] isdigit_def)
  qed
qed

lemma dec_nonempty [simp]: "dec n \<noteq> []"
  by (simp add: dec.simps [of n])

lemma length_dec_le: "n < 10 ^ Suc k \<Longrightarrow> length (dec n) \<le> Suc k"
proof (induction k arbitrary: n)
  case 0
  then show ?case by (simp add: dec.simps)
next
  case (Suc k)
  then have "n div 10 < 10 ^ Suc k" by (simp add: less_mult_imp_div_less mult.commute)
  then have "length (dec (n div 10)) \<le> Suc k" by (rule Suc.IH)
  then show ?case by (simp add: dec.simps [of n])
qed


section \<open>\<open>std::map<std::string, std::string>\<close>\<close>

text \<open>
  An association list sorted by key: a \<open>std::map\<close> iterates in the order of its keys, and
  the form encoder sends the parameters in that order. \<open>map_put\<close> is \<open>m[k] = v\<close>,
  \<open>map_emplace\<close> is \<open>m.emplace(k, v)\<close> (nothing when the key is there), \<open>map_of\<close> is the
  lookup. \<open>smap\<close> builds a map from an initializer list, where the first entry of a key wins.
\<close>

type_synonym smap = "(string \<times> string) list"

fun map_put :: "'k::linorder \<Rightarrow> 'v \<Rightarrow> ('k \<times> 'v) list \<Rightarrow> ('k \<times> 'v) list" where
  "map_put k v [] = [(k, v)]"
| "map_put k v ((k', v') # m) =
     (if k = k' then (k, v) # m
      else if k < k' then (k, v) # (k', v') # m
      else (k', v') # map_put k v m)"

definition map_emplace :: "'k::linorder \<Rightarrow> 'v \<Rightarrow> ('k \<times> 'v) list \<Rightarrow> ('k \<times> 'v) list" where
  "map_emplace k v m = (case map_of m k of None \<Rightarrow> map_put k v m | Some _ \<Rightarrow> m)"

definition emplace_all :: "('k::linorder \<times> 'v) list \<Rightarrow> ('k \<times> 'v) list \<Rightarrow> ('k \<times> 'v) list" where
  "emplace_all extra m = fold (\<lambda>(k, v). map_emplace k v) extra m"

definition smap :: "('k::linorder \<times> 'v) list \<Rightarrow> ('k \<times> 'v) list" where
  "smap kvs = emplace_all kvs []"

definition sorted_map :: "('k::linorder \<times> 'v) list \<Rightarrow> bool" where
  "sorted_map m \<longleftrightarrow> sorted_wrt (<) (map fst m)"

lemma set_map_put: "fst ` set (map_put k v m) = insert k (fst ` set m)"
  by (induction k v m rule: map_put.induct) auto

lemma sorted_map_put [simp]: "sorted_map m \<Longrightarrow> sorted_map (map_put k v m)"
  unfolding sorted_map_def
proof (induction k v m rule: map_put.induct)
  case (2 k v k' v' m)
  have "\<forall>x \<in> set (map_put k v m). fst x \<in> insert k (fst ` set m)"
    using set_map_put [of k v m] by (metis image_eqI)
  with 2 show ?case by (auto; fastforce)
qed simp

lemma map_of_put [simp]: "map_of (map_put k v m) = (map_of m)(k \<mapsto> v)"
  by (induction k v m rule: map_put.induct) (auto simp: fun_eq_iff)

lemma map_of_emplace:
  "map_of (map_emplace k v m) = (if map_of m k = None then (map_of m)(k \<mapsto> v) else map_of m)"
  by (auto simp: map_emplace_def split: option.splits)

lemma sorted_map_emplace [simp]: "sorted_map m \<Longrightarrow> sorted_map (map_emplace k v m)"
  by (auto simp: map_emplace_def split: option.splits)

lemma map_emplace_keeps:
  "map_of m k = Some v \<Longrightarrow> map_of (map_emplace k' v' m) k = Some v"
  by (auto simp: map_of_emplace)

lemma emplace_all_keeps: "map_of m k = Some v \<Longrightarrow> map_of (emplace_all extra m) k = Some v"
  unfolding emplace_all_def
  by (induction extra arbitrary: m) (auto intro: map_emplace_keeps)

lemma emplace_all_new:
  "map_of m k = None \<Longrightarrow> map_of (emplace_all extra m) k = map_of extra k"
  unfolding emplace_all_def
proof (induction extra arbitrary: m)
  case (Cons e extra)
  obtain k' v' where e: "e = (k', v')" by (cases e)
  show ?case
  proof (cases "k' = k")
    case True
    with Cons.prems e have "map_of (map_emplace k' v' m) k = Some v'"
      by (simp add: map_of_emplace)
    with True e emplace_all_keeps [of "map_emplace k' v' m" k v' extra] show ?thesis
      by (simp add: emplace_all_def)
  next
    case False
    with Cons.prems have "map_of (map_emplace k' v' m) k = None"
      by (simp add: map_of_emplace)
    with Cons.IH False e show ?thesis by simp
  qed
qed simp

lemma sorted_emplace_all [simp]: "sorted_map m \<Longrightarrow> sorted_map (emplace_all extra m)"
  unfolding emplace_all_def by (induction extra arbitrary: m) auto

lemma sorted_smap [simp]: "sorted_map (smap kvs)"
  by (simp add: smap_def sorted_map_def [of "[]"])

lemma map_of_smap [simp]: "map_of (smap kvs) = map_of kvs"
  by (rule ext) (simp add: smap_def emplace_all_new)

lemma sorted_map_distinct: "sorted_map m \<Longrightarrow> distinct (map fst m)"
  by (simp add: sorted_map_def strict_sorted_iff)


section \<open>Trailing characters\<close>

text \<open>\<open>while (!s.empty() && s.back() == c) s.pop_back()\<close>\<close>

definition strip_back :: "'a \<Rightarrow> 'a list \<Rightarrow> 'a list" where
  "strip_back c s = rev (dropWhile (\<lambda>d. d = c) (rev s))"

lemma strip_back_end: "strip_back c s \<noteq> [] \<Longrightarrow> last (strip_back c s) \<noteq> c"
  by (metis (mono_tags, lifting) hd_dropWhile last_rev rev_is_Nil_conv strip_back_def)

lemma strip_back_id: "s = [] \<or> last s \<noteq> c \<Longrightarrow> strip_back c s = s"
  by (cases s rule: rev_cases) (auto simp: strip_back_def)

lemma strip_back_prefix: "\<exists>n. s = strip_back c s @ replicate n c"
proof -
  have "takeWhile (\<lambda>d. d = c) (rev s) = replicate (length (takeWhile (\<lambda>d. d = c) (rev s))) c"
      by (rule replicate_length_same [symmetric]) (auto dest: set_takeWhileD)
  then show ?thesis
    by (metis rev_append rev_replicate rev_rev_ident strip_back_def takeWhile_dropWhile_id)
qed

end
