(* ===== verification/Redaction.thy ===== *)
theory Redaction
  imports Prelude
begin

text \<open>
  Cutting presented credentials out of text that leaves the module
  (\<open>oidc/src/oidc_core.cpp\<close>: \<open>Printable\<close>, \<open>HideIn\<close>, \<open>Redact\<close>). Both \<open>HideIn\<close> and \<open>Redact\<close>
  run the same replacement loop, which re-scans from the start of the marker it has just
  written; so the loop is a partial function whose result \<open>None\<close> means that it never ends.
  The theory says exactly when it ends, and when it ends what the text still holds.
\<close>

definition marker :: string where
  "marker = ''<redacted>''"

text \<open>\<open>for (at = error.find(p); at != npos; at = error.find(p, at)) error.replace(at, p.size(), "<redacted>")\<close>\<close>

partial_function (option) redact_loop :: "string \<Rightarrow> string \<Rightarrow> nat option \<Rightarrow> string option" where
  "redact_loop error presented at = (case at of
     None \<Rightarrow> Some error
   | Some i \<Rightarrow>
       (let error' = take i error @ marker @ drop (i + length presented) error
        in redact_loop error' presented (find_from presented error' i)))"

declare redact_loop.simps [code]

definition Redact :: "string \<Rightarrow> string \<Rightarrow> string option" where
  "Redact error presented =
     (if length presented < 8 then Some error
      else redact_loop error presented (find_at presented error))"

fun HideIn :: "string \<Rightarrow> string list \<Rightarrow> string option" where
  "HideIn body [] = Some body"
| "HideIn body (secret # hide) =
     (if length secret < 8 then HideIn body hide
      else Option.bind (redact_loop body secret (find_at secret body)) (\<lambda>b. HideIn b hide))"

definition Printable :: "string \<Rightarrow> string" where
  "Printable text =
     map (\<lambda>c. if code_of c < 0x20 \<or> code_of c = 0x7f then CHR ''?'' else c) (take 512 text)"

text \<open>Successive calls of \<open>Redact\<close> on one text.\<close>

fun redact_seq :: "string \<Rightarrow> string list \<Rightarrow> string option" where
  "redact_seq error [] = Some error"
| "redact_seq error (p # ps) = Option.bind (Redact error p) (\<lambda>e. redact_seq e ps)"

text \<open>
  What the guarantees below ask of a secret: long enough to be one, free of the two angle
  brackets of the marker, and not the word inside it. Every token of the protocol
  (base64url, JWT, UUID, hex) is such a string.
\<close>

definition secret_like :: "string \<Rightarrow> bool" where
  "secret_like p \<longleftrightarrow> 8 \<le> length p \<and> CHR ''<'' \<notin> set p \<and> CHR ''>'' \<notin> set p \<and> p \<noteq> ''redacted''"


section \<open>Strings around the marker\<close>

lemma prefix_split_Cons: "prefix q (a @ c # b) \<Longrightarrow> c \<notin> set q \<Longrightarrow> prefix q a"
proof (induction a arbitrary: q)
  case Nil
  then show ?case by (cases q) auto
next
  case (Cons x a)
  then show ?case by (cases q) auto
qed

lemma sublist_split_Cons:
  "sublist q (a @ c # b) \<Longrightarrow> c \<notin> set q \<Longrightarrow> sublist q a \<or> sublist q b"
proof (induction a)
  case Nil
  then show ?case by (auto simp: sublist_Cons_right dest: prefix_split_Cons [of q "[]", simplified])
next
  case (Cons x a)
  then show ?case
    using prefix_split_Cons [of q "x # a" c b] by (auto simp: sublist_Cons_right)
qed

lemma sublist_drop: "sublist q (drop n s) \<Longrightarrow> sublist q s"
  by (meson sublist_drop sublist_order.order_trans)

lemma sublist_take: "sublist q (take n s) \<Longrightarrow> sublist q s"
  by (meson sublist_take sublist_order.order_trans)

lemma marker_split: "marker = CHR ''<'' # ''redacted'' @ [CHR ''>'']"
  by (simp add: marker_def)

lemma length_marker [simp]: "length marker = 10"
  by (simp add: marker_def)

lemma secret_like_not_in_redacted:
  assumes "secret_like q"
  shows "\<not> sublist q ''redacted''"
proof
  assume sub: "sublist q ''redacted''"
  then have "length q \<le> 8" using sublist_length_le by fastforce
  with assms have "length q = length ''redacted''" by (simp add: secret_like_def)
  with sub have "q = ''redacted''"
    by (metis subseq_same_length sublist_imp_subseq)
  with assms show False by (simp add: secret_like_def)
qed

text \<open>No occurrence of a secret uses a character of a marker.\<close>

lemma secret_around_marker:
  assumes "secret_like q" and "sublist q (a @ marker @ b)"
  shows "sublist q a \<or> sublist q b"
proof -
  from assms(1) have q: "CHR ''<'' \<notin> set q" "CHR ''>'' \<notin> set q"
    by (auto simp: secret_like_def)
  from assms(2) have "sublist q (a @ CHR ''<'' # (''redacted'' @ CHR ''>'' # b))"
    by (simp add: marker_def)
  from sublist_split_Cons [OF this q(1)] consider
      "sublist q a" | "sublist q (''redacted'' @ CHR ''>'' # b)" by blast
  then show ?thesis
  proof cases
    case 2
    from sublist_split_Cons [OF this q(2)] secret_like_not_in_redacted [OF assms(1)]
    show ?thesis by blast
  qed simp
qed

lemma secret_not_in_marker: "secret_like q \<Longrightarrow> \<not> sublist q marker"
  using secret_around_marker [of q "[]" "[]"] by (auto simp: secret_like_def)


section \<open>The loop: when it ends, and what it leaves\<close>

text \<open>
  A text that cannot be searched without end: a presented value that is itself a part of the
  marker is found again in the marker just written.
\<close>

lemma next_match_beyond_marker:
  assumes "\<not> sublist p marker" and "find_at p (marker @ r) = Some d"
  shows "10 < d + length p"
proof (rule ccontr)
  assume "\<not> 10 < d + length p"
  then have le: "d + length p \<le> length marker" by simp
  from assms(2) have "take (length p) (drop d (marker @ r)) = p"
    by (metis append_eq_conv_conj find_at_Some prefixE)
  with le have "p = take (length p) (drop d marker)" by simp
  then have "sublist p marker"
    by (metis sublist_drop sublist_take sublist_order.order_refl)
  with assms(1) show False ..
qed

text \<open>What one turn of the loop does to the text behind the match.\<close>

lemma drop_replaced:
  "i + k \<le> length e \<Longrightarrow> drop i (take i e @ m @ drop (i + k) e) = m @ drop (i + k) e"
  by simp

lemma redact_step_measure:
  assumes "\<not> sublist p marker" and "i + length p \<le> length e"
    and "find_from p (take i e @ marker @ drop (i + length p) e) i = Some j"
  shows "length (take i e @ marker @ drop (i + length p) e) - (j + length p)
       < length e - (i + length p)"
proof -
  let ?r = "drop (i + length p) e"
  let ?e = "take i e @ marker @ ?r"
  from assms(3) obtain d where d: "find_at p (drop i ?e) = Some d" and j: "j = i + d"
    by (auto simp: find_from_def split: if_splits)
  from d have d: "find_at p (marker @ ?r) = Some d"
    by (simp only: drop_replaced [OF assms(2)])
  then have "10 < d + length p" by (rule next_match_beyond_marker [OF assms(1)])
  moreover from find_at_split(2) [OF d] have "d + length p \<le> 10 + length ?r" by simp
  ultimately show ?thesis using assms(2) j by auto
qed

lemma redact_loop_returns:
  assumes "\<not> sublist p marker"
  shows "n \<le> length e \<Longrightarrow> \<exists>e'. redact_loop e p (find_from p e n) = Some e'"
proof (induction "case find_from p e n of None \<Rightarrow> 0 | Some i \<Rightarrow> Suc (length e - (i + length p))"
    arbitrary: e n rule: less_induct)
  case less
  show ?case
  proof (cases "find_from p e n")
    case None
    then show ?thesis by (simp add: redact_loop.simps)
  next
    case (Some i)
    let ?e = "take i e @ marker @ drop (i + length p) e"
    from Some have len: "i + length p \<le> length e" by (rule find_from_Some)
    have "\<exists>e'. redact_loop ?e p (find_from p ?e i) = Some e'"
    proof (rule less.hyps)
      show "(case find_from p ?e i of None \<Rightarrow> 0 | Some j \<Rightarrow> Suc (length ?e - (j + length p)))
          < (case find_from p e n of None \<Rightarrow> 0 | Some i \<Rightarrow> Suc (length e - (i + length p)))"
        using redact_step_measure [OF assms len] by (simp only: Some option.simps split: option.splits) auto
      show "i \<le> length ?e" using len by auto
    qed
    then show ?thesis by (simp add: redact_loop.simps [of e p "Some i"] Let_def Some)
  qed
qed

text \<open>Induction over the turns of a loop that ends.\<close>

lemma redact_loop_induct [consumes 1, case_names Done Turn]:
  assumes ret: "redact_loop e p at = Some r"
    and fin: "\<And>e. P e None e"
    and turn: "\<And>e i r e'. e' = take i e @ marker @ drop (i + length p) e \<Longrightarrow>
      P e' (find_from p e' i) r \<Longrightarrow> P e (Some i) r"
  shows "P e at r"
proof -
  have "p' = p \<longrightarrow> P e at r" if "redact_loop e p' at = Some r" for e p' at r
  proof (rule redact_loop.raw_induct [OF _ that, of "\<lambda>e p' at r. p' = p \<longrightarrow> P e at r"])
    fix f e p' at r
    assume IH: "\<And>e p' at r. f e p' at = Some r \<Longrightarrow> p' = p \<longrightarrow> P e at r"
      and eq: "(case at of None \<Rightarrow> Some e
        | Some i \<Rightarrow> let error' = take i e @ marker @ drop (i + length p') e
            in f error' p' (find_from p' error' i)) = Some r"
    then show "p' = p \<longrightarrow> P e at r"
      by (cases at) (auto simp: Let_def intro: fin turn)
  qed
  with ret show ?thesis by blast
qed

text \<open>A part of the marker that occurs in the text is found again and again.\<close>

lemma redact_loop_hangs:
  assumes "redact_loop e p at = Some r" and "sublist p marker"
  shows "at = Some i \<Longrightarrow> length e < i"
  using assms(1)
proof (induction arbitrary: i rule: redact_loop_induct)
  case (Turn e k r e')
  show ?case
  proof (rule ccontr)
    assume "\<not> length e < i"
    with Turn.prems have le: "k \<le> length e" by simp
    with Turn.hyps have drop: "drop k e' = marker @ drop (k + length p) e"
      and len: "k \<le> length e'" by auto
    from assms(2) have "sublist p (drop k e')"
      unfolding drop by (meson sublist_append_rightI sublist_order.order_trans)
    then obtain d where d: "find_at p (drop k e') = Some d"
      using find_at_None by blast
    with len have "find_from p e' k = Some (k + d)" by (simp add: find_from_def)
    then have "length e' < k + d" by (rule Turn.IH)
    with find_at_split(2) [OF d] len show False by simp
  qed
qed simp

lemma redact_loop_hangs_iff:
  assumes "p \<noteq> []"
  shows "redact_loop e p (find_at p e) = None \<longleftrightarrow> sublist p e \<and> sublist p marker"
proof
  assume none: "redact_loop e p (find_at p e) = None"
  then obtain i where "find_at p e = Some i"
    by (cases "find_at p e") (auto simp: redact_loop.simps)
  moreover from none have "sublist p marker"
    using redact_loop_returns [of p 0 e] by auto
  ultimately show "sublist p e \<and> sublist p marker" using find_at_None [of p e] by auto
next
  assume sub: "sublist p e \<and> sublist p marker"
  then obtain i where i: "find_at p e = Some i" using find_at_None by blast
  show "redact_loop e p (find_at p e) = None"
  proof (rule ccontr)
    assume "redact_loop e p (find_at p e) \<noteq> None"
    then obtain r where "redact_loop e p (find_at p e) = Some r" by blast
    from redact_loop_hangs [OF this] sub i have "length e < i" by blast
    with find_at_split(2) [OF i] show False by simp
  qed
qed

text \<open>
  Whatever the loop has behind it never holds a secret without the angle brackets: an
  occurrence that starts before the next match would lie in the text kept in front, or
  cover the \<open><\<close> of a marker.
\<close>

lemma sublist_prefix_drop: "sublist p e \<longleftrightarrow> (\<exists>j\<le>length e. prefix p (drop j e))"
proof
  assume "sublist p e"
  then obtain i where "find_at p e = Some i" using find_at_None by blast
  then show "\<exists>j\<le>length e. prefix p (drop j e)" by (auto simp: find_at_Some)
qed (auto intro: sublist_drop dest: prefix_imp_sublist)

lemma sublist_from:
  assumes "sublist p e" and "\<forall>j<n. \<not> prefix p (drop j e)"
  shows "sublist p (drop n e)"
proof -
  from assms(1) obtain j where j: "j \<le> length e" "prefix p (drop j e)"
    by (auto simp: sublist_prefix_drop)
  with assms(2) have "n \<le> j" by (meson not_le)
  with j have "j - n \<le> length (drop n e)" and "prefix p (drop (j - n) (drop n e))" by auto
  then show ?thesis by (auto simp: sublist_prefix_drop)
qed

lemma redact_loop_removes:
  assumes "redact_loop e p at = Some r" and lt: "CHR ''<'' \<notin> set p"
  shows "at = find_from p e n \<Longrightarrow> n \<le> length e \<Longrightarrow> \<forall>j<n. \<not> prefix p (drop j e) \<Longrightarrow>
    \<not> sublist p r"
  using assms(1)
proof (induction arbitrary: n rule: redact_loop_induct)
  case (Done e)
  then have "\<not> sublist p (drop n e)" by (metis find_from_None)
  with Done.prems(3) show ?case using sublist_from by blast
next
  case (Turn e i r e')
  note at = find_from_Some [OF Turn.prems(1) [symmetric]]
  from at(3) have len: "i + length p \<le> length e" .
  have kept: "\<not> prefix p (drop j e)" if "j < i" for j
  proof (cases "j < n")
    case False
    from at(2) have "\<forall>k<i - n. \<not> prefix p (drop k (drop n e))" by (simp add: find_at_Some)
    moreover have "j - n < i - n" using that False by simp
    ultimately have "\<not> prefix p (drop (j - n) (drop n e))" by blast
    with False show ?thesis by (simp add: add.commute)
  qed (use Turn.prems(3) in blast)
  show ?case
  proof (rule Turn.IH [of i])
    show "i \<le> length e'" using Turn.hyps len by simp
    show "\<forall>j<i. \<not> prefix p (drop j e')"
    proof (intro allI impI notI)
      fix j assume j: "j < i" and pre: "prefix p (drop j e')"
      from j len Turn.hyps have "drop j e' =
          drop j (take i e) @ CHR ''<'' # (''redacted>'' @ drop (i + length p) e)"
        by (simp add: marker_def)
      with pre lt have "prefix p (drop j (take i e))" by (metis prefix_split_Cons)
      then have "prefix p (drop j e)" by (metis prefix_order.trans drop_take take_is_prefix)
      with kept [OF j] show False ..
    qed
  qed simp
qed

text \<open>Nor does the loop bring another secret back.\<close>

lemma redact_loop_keeps_out:
  assumes "redact_loop e p at = Some r" and "secret_like q"
  shows "\<not> sublist q e \<Longrightarrow> \<not> sublist q r"
  using assms(1)
proof (induction rule: redact_loop_induct)
  case (Turn e i r e')
  then show ?case
    using secret_around_marker [OF assms(2)] by (metis sublist_drop sublist_take)
qed simp


section \<open>\<open>Redact\<close>, \<open>HideIn\<close> and sequences of them\<close>

lemma Redact_removes:
  "Redact e p = Some r \<Longrightarrow> secret_like p \<Longrightarrow> \<not> sublist p r"
  using redact_loop_removes [of e p "find_from p e 0" r 0]
  by (auto simp: Redact_def secret_like_def)

lemma Redact_keeps_out:
  "Redact e p = Some r \<Longrightarrow> secret_like q \<Longrightarrow> \<not> sublist q e \<Longrightarrow> \<not> sublist q r"
  using redact_loop_keeps_out by (auto simp: Redact_def split: if_splits)

lemma Redact_returns: "secret_like p \<or> length p < 8 \<Longrightarrow> \<exists>r. Redact e p = Some r"
  using redact_loop_returns [of p 0 e] secret_not_in_marker [of p] by (auto simp: Redact_def)


locale redaction =
  fixes hide :: "string \<Rightarrow> string list \<Rightarrow> string option"
  assumes removes: "hide e ps = Some r \<Longrightarrow> p \<in> set ps \<Longrightarrow> secret_like p \<Longrightarrow> \<not> sublist p r"
    and keeps_out: "hide e ps = Some r \<Longrightarrow> secret_like q \<Longrightarrow> \<not> sublist q e \<Longrightarrow> \<not> sublist q r"
    and returns: "\<forall>p \<in> set ps. secret_like p \<or> length p < 8 \<Longrightarrow> \<exists>r. hide e ps = Some r"
begin

text \<open>Whatever a later stage does with the text, an earlier stage's secrets stay out.\<close>

lemma staged:
  assumes "hide e ps = Some m" and "hide m qs = Some r" and "p \<in> set (ps @ qs)"
    and "secret_like p"
  shows "\<not> sublist p r"
  using assms removes keeps_out by (metis Un_iff set_append)

lemma hidden_or_absent:
  assumes "hide e ps = Some r" and "secret_like p" and "p \<in> set ps \<or> \<not> sublist p e"
  shows "\<not> sublist p r"
  using assms removes keeps_out by blast

end

lemma redact_seq_keeps_out:
  "redact_seq e ps = Some r \<Longrightarrow> secret_like q \<Longrightarrow> \<not> sublist q e \<Longrightarrow> \<not> sublist q r"
proof (induction e ps rule: redact_seq.induct)
  case (2 e p ps)
  then obtain m where "Redact e p = Some m" and "redact_seq m ps = Some r"
    by (auto simp: bind_eq_Some_conv)
  with 2 show ?case by (metis Redact_keeps_out)
qed simp

lemma redact_seq_removes:
  "redact_seq e ps = Some r \<Longrightarrow> p \<in> set ps \<Longrightarrow> secret_like p \<Longrightarrow> \<not> sublist p r"
proof (induction e ps rule: redact_seq.induct)
  case (2 e p' ps)
  then obtain m where "Redact e p' = Some m" and "redact_seq m ps = Some r"
    by (auto simp: bind_eq_Some_conv)
  with 2 show ?case by (metis Redact_removes redact_seq_keeps_out set_ConsD)
qed simp

lemma redact_seq_returns:
  "\<forall>p \<in> set ps. secret_like p \<or> length p < 8 \<Longrightarrow> \<exists>r. redact_seq e ps = Some r"
proof (induction e ps rule: redact_seq.induct)
  case (2 e p ps)
  then obtain m where m: "Redact e p = Some m" using Redact_returns by (metis list.set_intros(1))
  with 2 have "\<exists>r. redact_seq m ps = Some r" by simp
  with m show ?case by simp
qed simp

text \<open>\<open>HideIn\<close> is the same sequence, written with the loop inline.\<close>

lemma HideIn_redact_seq: "HideIn body ps = redact_seq body ps"
  by (induction body ps rule: redact_seq.induct) (auto simp: Redact_def split: Option.bind_splits)

interpretation rseq: redaction redact_seq
  by unfold_locales
    (fact redact_seq_removes redact_seq_keeps_out redact_seq_returns)+

interpretation hidein: redaction HideIn
  unfolding HideIn_redact_seq [abs_def]
  by (rule rseq.redaction_axioms)

lemma Redact_single: "Redact e p = redact_seq e [p]"
  by (cases "Redact e p") simp_all

lemma length_Printable: "length (Printable text) \<le> 512"
  by (simp add: Printable_def)

lemma Printable_Nil_iff [simp]: "Printable text = [] \<longleftrightarrow> text = []"
  by (auto simp: Printable_def)


section \<open>Properties\<close>

text \<open>C11: The replacement loop of \<open>Redact\<close> ends unless the presented value (of eight bytes or more)
  occurs in the text and is itself a part of \<open><redacted>\<close>; in exactly that case it never ends,
  because the search resumes at the start of the marker it has just written.\<close>

theorem Redact_ends:
  "Redact error presented = None \<longleftrightarrow>
     8 \<le> length presented \<and> sublist presented error \<and> sublist presented marker"
proof (cases "length presented < 8")
  case False
  then have "presented \<noteq> []" by auto
  with False redact_loop_hangs_iff [OF this, of error] show ?thesis by (auto simp: Redact_def)
qed (simp add: Redact_def)

text \<open>C10: When every credential handed to \<open>HideIn\<close> is either too short to be one or
  \<open>secret_like\<close>, the scrubbing ends and none of the \<open>secret_like\<close> ones occurs in the body that
  is left, not even where replacing one credential joins the text around another.\<close>

theorem HideIn_hides:
  assumes "\<forall>p \<in> set hide. secret_like p \<or> length p < 8"
  shows "\<exists>r. HideIn body hide = Some r \<and> (\<forall>p \<in> set hide. secret_like p \<longrightarrow> \<not> sublist p r)"
  using hidein.returns [OF assms, of body] hidein.removes by blast

theorem HideIn_hides_witness:
  "\<exists>r. HideIn ''bad token abcd-1234 at 7'' [''abcd-1234'', ''no''] = Some r \<and>
     \<not> sublist ''abcd-1234'' r"
  using HideIn_hides [of "[''abcd-1234'', ''no'']" "''bad token abcd-1234 at 7''"]
  by (auto simp: secret_like_def)

text \<open>
  Without \<open>secret_like\<close> the guarantee is lost: the search resumes at the marker, so an
  occurrence that ends in the marker's first character stays.
\<close>

lemma Redact_leftover:
  "Redact ''abcdefgabcdefg<'' ''abcdefg<'' = Some ''abcdefg<redacted>'' \<and>
     sublist ''abcdefg<'' ''abcdefg<redacted>''"
proof -
  have first: "find_at ''abcdefg<'' ''abcdefgabcdefg<'' = Some 7"
    and next_match: "find_from ''abcdefg<'' ''abcdefg<redacted>'' 7 = None"
    and replaced: "take 7 ''abcdefgabcdefg<'' @ marker @ drop (7 + length ''abcdefg<'') ''abcdefgabcdefg<''
      = ''abcdefg<redacted>''" by code_simp+
  have "Redact ''abcdefgabcdefg<'' ''abcdefg<'' =
      redact_loop ''abcdefgabcdefg<'' ''abcdefg<'' (Some 7)"
    unfolding Redact_def first by simp
  also have "\<dots> = redact_loop ''abcdefg<redacted>'' ''abcdefg<'' None"
    by (subst redact_loop.simps) (simp only: option.case Let_def replaced next_match)
  also have "\<dots> = Some ''abcdefg<redacted>''" by (simp add: redact_loop.simps)
  finally show ?thesis by simp
qed

end
