(* ===== verification/Url.thy ===== *)
theory Url
  imports Prelude
begin

text \<open>
  URLs and form encoding (\<open>oidc/src/oidc_core.cpp\<close>: \<open>ParseUrl\<close>, \<open>UrlEncode\<close>,
  \<open>FormEncode\<close>, \<open>Ipv4Literal\<close>, \<open>LocalEndpoint\<close>, and the form scanner inside
  \<open>HideRequest\<close>). Shown here: what an accepted URL looks like and that a well-formed one is
  read back part by part, that a platform endpoint accepted as local names a loopback or
  link-local host literally, and that the form scanner inverts the form encoder.
\<close>

section \<open>\<open>ParseUrl\<close>\<close>

record UrlParts =
  url_https :: bool
  url_host :: string
  url_port :: int
  url_path :: string
  url_error :: string

definition UrlParts0 :: UrlParts where
  "UrlParts0 = \<lparr>url_https = False, url_host = [], url_port = 0, url_path = [], url_error = []\<rparr>"

abbreviation "colon \<equiv> CHR '':''"
abbreviation "slash \<equiv> CHR ''/''"

text \<open>The authority: the host, and the text of the port behind it. \<open>[v6]:port\<close> is split behind
  the bracket, everything else at the last colon.\<close>

definition split_authority :: "string \<Rightarrow> string \<Rightarrow> UrlParts \<Rightarrow> UrlParts \<times> string" where
  "split_authority url authority out =
     (if authority \<noteq> [] \<and> hd authority = CHR ''['' then
        (case find_at '']'' authority of
           None \<Rightarrow> (out\<lparr>url_error := ''malformed URL authority: '' @ url\<rparr>, [])
         | Some bracket \<Rightarrow>
             (let out = out\<lparr>url_host := take (bracket - 1) (drop 1 authority)\<rparr> in
              if bracket + 1 < length authority then
                (if authority ! (bracket + 1) \<noteq> colon
                 then (out\<lparr>url_error := ''malformed URL authority: '' @ url\<rparr>, [])
                 else (out, drop (bracket + 2) authority))
              else (out, [])))
      else
        (case find_last colon authority of
           Some i \<Rightarrow> (out\<lparr>url_host := take i authority\<rparr>, drop (i + 1) authority)
         | None \<Rightarrow> (out\<lparr>url_host := authority\<rparr>, [])))"

text \<open>The port: the scheme's default for no text, else digits only and a port-sized value.\<close>

definition set_port :: "string \<Rightarrow> string \<Rightarrow> UrlParts \<Rightarrow> UrlParts" where
  "set_port url port_text out =
     (if port_text = [] then out\<lparr>url_port := (if url_https out then 443 else 80)\<rparr>
      else if \<not> list_all isdigit port_text
      then out\<lparr>url_error := ''malformed port in URL: '' @ url\<rparr>
      else
        (let v = (if length port_text \<le> 5 then int (dec_value port_text) else 0) in
         if v \<le> 0 \<or> v > 65535 then out\<lparr>url_error := ''malformed port in URL: '' @ url\<rparr>
         else out\<lparr>url_port := v\<rparr>))"

definition ParseUrl :: "string \<Rightarrow> UrlParts" where
  "ParseUrl url =
     (if \<not> prefix ''https://'' url \<and> \<not> prefix ''http://'' url
      then UrlParts0\<lparr>url_error := ''unsupported URL (http:// or https:// expected): '' @ url\<rparr>
      else
        (let https = prefix ''https://'' url;
             rest = drop (if https then 8 else 7) url;
             authority = (case find_at [slash] rest of None \<Rightarrow> rest | Some i \<Rightarrow> take i rest);
             path = (case find_at [slash] rest of None \<Rightarrow> [slash] | Some i \<Rightarrow> drop i rest);
             (out, port_text) = split_authority url authority
               (UrlParts0\<lparr>url_https := https, url_path := path\<rparr>)
         in if url_error out \<noteq> [] then out
            else
              (let out = set_port url port_text out in
               if url_error out \<noteq> [] then out
               else if url_host out = [] then out\<lparr>url_error := ''malformed URL authority: '' @ url\<rparr>
               else out)))"


section \<open>Encoding\<close>

definition hexdigits :: string where
  "hexdigits = ''0123456789ABCDEF''"

definition UrlEncode :: "string \<Rightarrow> string" where
  "UrlEncode s = concat (map (\<lambda>c.
     if isalnum c \<or> c = CHR ''-'' \<or> c = CHR ''_'' \<or> c = CHR ''.'' \<or> c = CHR ''~'' then [c]
     else [CHR ''%'', hexdigits ! (code_of c div 16), hexdigits ! (code_of c mod 16)]) s)"

definition FormEncode :: "smap \<Rightarrow> string" where
  "FormEncode params = foldl (\<lambda>body (k, v).
     (if body \<noteq> [] then body @ ''&'' else body) @ UrlEncode k @ ''='' @ UrlEncode v) [] params"

text \<open>
  The scanner of \<open>HideRequest\<close>: the pairs between the ampersands, the encoded value behind the
  first \<open>=\<close> of a pair, and that value decoded. (\<open>std::stoi\<close> of two hexadecimal digits.)
\<close>

function form_pairs :: "string \<Rightarrow> string list" where
  "form_pairs body = (case find_at ''&'' body of
     None \<Rightarrow> [body]
   | Some e \<Rightarrow> take e body # form_pairs (drop (e + 1) body))"
  by pat_completeness auto
termination
  by (relation "measure length") (auto dest: find_at_split(2))

declare form_pairs.simps [simp del]

definition hex_value :: "char \<Rightarrow> nat" where
  "hex_value c = (if isdigit c then code_of c - 48
     else if isupper c then code_of c - 55 else code_of c - 87)"

fun form_decode :: "string \<Rightarrow> string" where
  "form_decode (c # h # l # s) =
     (if c = CHR ''%'' \<and> isxdigit h \<and> isxdigit l
      then char_of (16 * hex_value h + hex_value l) # form_decode s
      else (if c = CHR ''+'' then CHR '' '' else c) # form_decode (h # l # s))"
| "form_decode (c # s) = (if c = CHR ''+'' then CHR '' '' else c) # form_decode s"
| "form_decode [] = []"

text \<open>The values of a form body as the scanner sees them: for each pair with a \<open>=\<close>, the encoded
  value and the decoded one.\<close>

definition form_values :: "string \<Rightarrow> (string \<times> string) list" where
  "form_values body = concat (map (\<lambda>pair. case find_at ''='' pair of
     None \<Rightarrow> []
   | Some equals \<Rightarrow> (let encoded = drop (equals + 1) pair in [(encoded, form_decode encoded)]))
   (form_pairs body))"


section \<open>Local endpoints\<close>

text \<open>\<open>Ipv4Literal\<close>: \<open>k\<close> octets are still to come; an octet is one to three digits of value at
  most 255, and a dot separates two of them.\<close>

fun ipv4_octets :: "nat \<Rightarrow> string \<Rightarrow> nat list option" where
  "ipv4_octets 0 s = (if s = [] then Some [] else None)"
| "ipv4_octets (Suc k) s =
     (let digits = takeWhile isdigit (take 3 s); v = dec_value digits; s' = drop (length digits) s
      in if digits = [] \<or> v > 255 then None
         else if k = 0 then map_option (Cons v) (ipv4_octets 0 s')
         else (case s' of
             [] \<Rightarrow> None
           | c # s'' \<Rightarrow> if c \<noteq> CHR ''.'' then None else map_option (Cons v) (ipv4_octets k s'')))"

definition Ipv4Literal :: "string \<Rightarrow> nat list option" where
  "Ipv4Literal host = ipv4_octets 4 host"

definition LocalEndpoint :: "string \<Rightarrow> bool" where
  "LocalEndpoint url = (case find_at ''://'' url of
     None \<Rightarrow> False
   | Some scheme \<Rightarrow>
       (let authority = (case find_from [slash] url (scheme + 3) of
                None \<Rightarrow> drop (scheme + 3) url
              | Some e \<Rightarrow> take (e - scheme - 3) (drop (scheme + 3) url))
        in if CHR ''@'' \<in> set authority then False
           else
             (let parts = ParseUrl url in
              if url_error parts \<noteq> [] then False
              else if url_host parts = ''localhost'' \<or> url_host parts = ''::1'' then True
              else (case Ipv4Literal (url_host parts) of
                  None \<Rightarrow> False
                | Some octets \<Rightarrow> octets ! 0 = 127 \<or> (octets ! 0 = 169 \<and> octets ! 1 = 254)))))"


section \<open>The form encoder and its scanner\<close>

definition form_field :: "string \<times> string \<Rightarrow> string" where
  "form_field kv = UrlEncode (fst kv) @ ''='' @ UrlEncode (snd kv)"

lemma hexdigit_facts:
  assumes "n < 16"
  shows "isxdigit (hexdigits ! n)" and "hex_value (hexdigits ! n) = n"
    and "hexdigits ! n \<notin> {CHR ''&'', CHR ''='', CHR ''%'', CHR ''+''}"
proof -
  have "\<forall>n \<in> set [0..<16]. isxdigit (hexdigits ! n) \<and> hex_value (hexdigits ! n) = n \<and>
      hexdigits ! n \<notin> {CHR ''&'', CHR ''='', CHR ''%'', CHR ''+''}"
    by code_simp
  with assms show "isxdigit (hexdigits ! n)" and "hex_value (hexdigits ! n) = n"
    and "hexdigits ! n \<notin> {CHR ''&'', CHR ''='', CHR ''%'', CHR ''+''}"
    by auto
qed

lemma UrlEncode_Nil [simp]: "UrlEncode [] = []"
  by (simp add: UrlEncode_def)

lemma UrlEncode_Cons: "UrlEncode (c # s) = UrlEncode [c] @ UrlEncode s"
  by (simp add: UrlEncode_def)

lemma unreserved_plain:
  assumes "isalnum c \<or> c = CHR ''-'' \<or> c = CHR ''_'' \<or> c = CHR ''.'' \<or> c = CHR ''~''"
  shows "c \<notin> {CHR ''&'', CHR ''='', CHR ''%'', CHR ''+''}"
  using assms by (auto simp: isalnum_def isdigit_def isupper_def islower_def code_of_def)

lemma form_decode_plain:
  "c \<noteq> CHR ''%'' \<Longrightarrow> c \<noteq> CHR ''+'' \<Longrightarrow> form_decode (c # s) = c # form_decode s"
  by (cases s; cases "tl s") auto

lemma form_decode_UrlEncode [simp]: "form_decode (UrlEncode s) = s"
proof (induction s)
  case (Cons c s)
  note hex = hexdigit_facts [OF code_of_nibbles(1) [of c]] hexdigit_facts [OF code_of_nibbles(2) [of c]]
  have "form_decode (UrlEncode [c] @ t) = c # form_decode t" for t
    using unreserved_plain [of c] hex by (auto simp: UrlEncode_def form_decode_plain)
  with Cons.IH show ?case by (simp add: UrlEncode_Cons [of c s])
qed simp

lemma UrlEncode_chars: "c \<in> set (UrlEncode s) \<Longrightarrow> c \<noteq> CHR ''&'' \<and> c \<noteq> CHR ''=''"
proof (induction s)
  case (Cons d s)
  note hex = hexdigit_facts(3) [OF code_of_nibbles(1) [of d]]
    hexdigit_facts(3) [OF code_of_nibbles(2) [of d]]
  from Cons.prems consider "c \<in> set (UrlEncode [d])" | "c \<in> set (UrlEncode s)"
    by (auto simp: UrlEncode_Cons [of d s])
  then show ?case
    using Cons.IH hex unreserved_plain [of d]
    by cases (auto simp: UrlEncode_def split: if_splits)
qed simp

lemma UrlEncode_inject [simp]: "UrlEncode s = UrlEncode t \<longleftrightarrow> s = t"
  by (metis form_decode_UrlEncode)

lemma FormEncode_snoc:
  "FormEncode (ps @ [kv]) =
     (if FormEncode ps \<noteq> [] then FormEncode ps @ ''&'' else FormEncode ps) @ form_field kv"
  by (cases kv) (simp add: FormEncode_def form_field_def)

lemma FormEncode_Nil [simp]: "FormEncode [] = []"
  by (simp add: FormEncode_def)

lemma FormEncode_single [simp]: "FormEncode [kv] = form_field kv"
  using FormEncode_snoc [of "[]" kv] by simp

lemma FormEncode_Nil_iff [simp]: "FormEncode ps = [] \<longleftrightarrow> ps = []"
  by (cases ps rule: rev_cases) (auto simp: FormEncode_snoc form_field_def)

lemma form_pairs_single: "CHR ''&'' \<notin> set s \<Longrightarrow> form_pairs s = [s]"
  by (simp add: form_pairs.simps [of s] find_at_single_None)

lemma form_pairs_snoc:
  "CHR ''&'' \<notin> set f \<Longrightarrow> form_pairs (s @ CHR ''&'' # f) = form_pairs s @ [f]"
proof (induction s rule: form_pairs.induct)
  case (1 s)
  show ?case
  proof (cases "find_at ''&'' s")
    case None
    then have "CHR ''&'' \<notin> set s"
      by (metis find_at_None in_set_conv_decomp sublist_appendI append_Cons append_Nil)
    with "1.prems" show ?thesis
      by (simp add: form_pairs.simps [of "s @ _"] find_at_single_append form_pairs_single)
  next
    case (Some e)
    note split = find_at_split [OF Some]
    have first: "CHR ''&'' \<notin> set (take e s)"
    proof
      assume "CHR ''&'' \<in> set (take e s)"
      then obtain j where "j < e" "s ! j = CHR ''&''" "j < length s"
        by (metis in_set_conv_nth length_take min_less_iff_conj nth_take)
      with Some show False
        by (metis find_at_Some Cons_nth_drop_Suc prefixI append_Cons append_Nil)
    qed
    have s: "s = take e s @ CHR ''&'' # drop (e + 1) s" using split(1) by simp
    have "find_at ''&'' (s @ CHR ''&'' # f) = Some (length (take e s))"
      using find_at_single_append [OF first, of "drop (e + 1) s @ CHR ''&'' # f"] s
      by (metis append.assoc append_Cons)
    moreover have "length (take e s) = e" and "e + 1 \<le> length s" using split(2) by auto
    ultimately show ?thesis
      using "1.IH" [OF Some] "1.prems" Some
      by (simp add: form_pairs.simps [of "s @ _"] form_pairs.simps [of s])
  qed
qed

lemma form_field_no_amp: "CHR ''&'' \<notin> set (form_field kv)"
  using UrlEncode_chars by (fastforce simp: form_field_def)

lemma form_pairs_FormEncode: "ps \<noteq> [] \<Longrightarrow> form_pairs (FormEncode ps) = map form_field ps"
proof (induction ps rule: rev_induct)
  case (snoc kv ps)
  then show ?case
    by (cases "ps = []")
      (auto simp: FormEncode_snoc form_pairs_snoc form_pairs_single form_field_no_amp)
qed simp

lemma form_field_value:
  "(case find_at ''='' (form_field kv) of
      None \<Rightarrow> []
    | Some equals \<Rightarrow> (let encoded = drop (equals + 1) (form_field kv) in
        [(encoded, form_decode encoded)])) = [(UrlEncode (snd kv), snd kv)]"
proof -
  have "CHR ''='' \<notin> set (UrlEncode (fst kv))" using UrlEncode_chars by blast
  then have "find_at ''='' (form_field kv) = Some (length (UrlEncode (fst kv)))"
    by (simp add: form_field_def find_at_single_append)
  then show ?thesis by (simp add: form_field_def Let_def)
qed

lemma form_values_FormEncode_eq:
  "form_values (FormEncode ps) = map (\<lambda>(k, v). (UrlEncode v, v)) ps"
proof (cases "ps = []")
  case True
  then show ?thesis by (simp add: form_values_def form_pairs.simps)
next
  case False
  have "form_values (FormEncode ps) =
      concat (map (\<lambda>kv. [(UrlEncode (snd kv), snd kv)]) ps)"
    unfolding form_values_def form_pairs_FormEncode [OF False] map_map comp_def
      form_field_value ..
  also have "\<dots> = map (\<lambda>(k, v). (UrlEncode v, v)) ps"
    by (induction ps) auto
  finally show ?thesis .
qed


section \<open>What \<open>ParseUrl\<close> accepts, and what it reads\<close>

lemma find_at_char_None: "find_at [c] s = None \<longleftrightarrow> c \<notin> set s"
  by (induction s) auto

lemma find_at_char_Some:
  assumes "find_at [c] s = Some i"
  shows "s = take i s @ c # drop (i + 1) s" and "c \<notin> set (take i s)" and "i < length s"
proof -
  show "s = take i s @ c # drop (i + 1) s" and "i < length s"
    using find_at_split [OF assms] by auto
  show "c \<notin> set (take i s)"
  proof
    assume "c \<in> set (take i s)"
    then obtain j where "j < i" "j < length s" "s ! j = c"
      by (auto simp: in_set_conv_nth)
    with assms show False by (metis find_at_Some Cons_nth_drop_Suc prefix_code(2) Cons_prefix_Cons Nil_prefix)
  qed
qed

text \<open>The shape of an accepted authority.\<close>

definition authority_shape :: "string \<Rightarrow> string \<Rightarrow> string \<Rightarrow> bool" where
  "authority_shape authority host port_text \<longleftrightarrow>
     (authority = host \<and> port_text = [] \<or> authority = host @ colon # port_text
      \<or> authority = CHR ''['' # host @ '']'' \<and> port_text = []
      \<or> authority = CHR ''['' # host @ '']:'' @ port_text)"

lemma split_authority_shape:
  assumes "split_authority url authority out = (out', port_text)" and "url_error out' = []"
  shows "\<exists>host. out' = out\<lparr>url_host := host\<rparr> \<and> authority_shape authority host port_text"
proof (cases "authority \<noteq> [] \<and> hd authority = CHR ''[''")
  case False
  show ?thesis
  proof (cases "find_last colon authority")
    case None
    with False assms(1) show ?thesis
      by (intro exI [of _ authority]) (auto simp: split_authority_def authority_shape_def)
  next
    case (Some i)
    from find_last_Some [OF Some] have "authority = take i authority @ colon # drop (i + 1) authority"
      by (metis Suc_eq_plus1 id_take_nth_drop)
    with Some False assms(1) show ?thesis
      by (intro exI [of _ "take i authority"]) (auto simp: split_authority_def authority_shape_def)
  qed
next
  case True
  then obtain a where a: "authority = CHR ''['' # a" by (cases authority) auto
  with assms obtain b where b: "find_at '']'' authority = Some b"
    by (auto simp: split_authority_def split: option.splits)
  with a have "0 < b" by (cases b) auto
  with a find_at_char_Some [OF b] have a': "a = take (b - 1) a @ CHR '']'' # drop b a"
    by (cases b) auto
  let ?host = "take (b - 1) a"
  show ?thesis
  proof (cases "b + 1 < length authority")
    case less: True
    with assms True a b have "authority ! (b + 1) = colon" and "out' = out\<lparr>url_host := ?host\<rparr>"
      and "port_text = drop (b + 2) authority"
      by (auto simp: split_authority_def Let_def split: if_splits)
    moreover from this less have "drop b a = colon # port_text"
      using a \<open>0 < b\<close> by (auto simp: Cons_nth_drop_Suc [symmetric])
    ultimately show ?thesis using a a' by (intro exI [of _ ?host]) (auto simp: authority_shape_def)
  next
    case False
    with assms True a b have "out' = out\<lparr>url_host := ?host\<rparr>" and "port_text = []"
      by (auto simp: split_authority_def Let_def split: if_splits)
    moreover from False a have "drop b a = []" by simp
    ultimately show ?thesis using a a' by (intro exI [of _ ?host]) (auto simp: authority_shape_def)
  qed
qed

definition port_shape :: "bool \<Rightarrow> string \<Rightarrow> int \<Rightarrow> bool" where
  "port_shape https port_text port \<longleftrightarrow>
     (if port_text = [] then port = (if https then 443 else 80)
      else list_all isdigit port_text \<and> length port_text \<le> 5 \<and> port = int (dec_value port_text))"

lemma set_port_shape:
  assumes "url_error (set_port url port_text out) = []" and "url_error out = []"
  shows "\<exists>port. set_port url port_text out = out\<lparr>url_port := port\<rparr> \<and>
    port_shape (url_https out) port_text port \<and> 1 \<le> port \<and> port \<le> 65535"
  using assms by (auto simp: set_port_def port_shape_def Let_def split: if_splits)


definition scheme_text :: "bool \<Rightarrow> string" where
  "scheme_text https = (if https then ''https://'' else ''http://'')"

definition url_shape :: "string \<Rightarrow> UrlParts \<Rightarrow> bool" where
  "url_shape url parts \<longleftrightarrow> (\<exists>authority tail port_text.
     url = scheme_text (url_https parts) @ authority @ tail
     \<and> slash \<notin> set authority
     \<and> (tail = [] \<and> url_path parts = [slash] \<or> tail \<noteq> [] \<and> hd tail = slash \<and> url_path parts = tail)
     \<and> authority_shape authority (url_host parts) port_text
     \<and> port_shape (url_https parts) port_text (url_port parts))"

text \<open>Where an authority ends.\<close>

lemma authority_of_rest:
  assumes "authority = (case find_at [slash] rest of None \<Rightarrow> rest | Some i \<Rightarrow> take i rest)"
    and "path = (case find_at [slash] rest of None \<Rightarrow> [slash] | Some i \<Rightarrow> drop i rest)"
  obtains tail where "rest = authority @ tail" and "slash \<notin> set authority"
    and "tail = [] \<and> path = [slash] \<or> tail \<noteq> [] \<and> hd tail = slash \<and> path = tail"
proof (cases "find_at [slash] rest")
  case None
  with assms that [of "[]"] show ?thesis by (simp add: find_at_char_None)
next
  case (Some i)
  note at = find_at_char_Some [OF Some]
  from at(1,3) have "drop i rest = slash # drop (i + 1) rest"
    by (metis Suc_eq_plus1 append_eq_append_conv append_take_drop_id)
  with assms Some at that [of "drop i rest"] show ?thesis by simp
qed

lemma ParseUrl_accepts:
  assumes "url_error (ParseUrl url) = []"
  shows "url_shape url (ParseUrl url) \<and> url_host (ParseUrl url) \<noteq> []
    \<and> 1 \<le> url_port (ParseUrl url) \<and> url_port (ParseUrl url) \<le> 65535"
proof -
  define https where "https = prefix ''https://'' url"
  define rest where "rest = drop (if https then 8 else 7) url"
  define authority where
    "authority = (case find_at [slash] rest of None \<Rightarrow> rest | Some i \<Rightarrow> take i rest)"
  define path where
    "path = (case find_at [slash] rest of None \<Rightarrow> [slash] | Some i \<Rightarrow> drop i rest)"
  let ?out = "UrlParts0\<lparr>url_https := https, url_path := path\<rparr>"
  obtain out port_text where sa: "split_authority url authority ?out = (out, port_text)"
    by (metis surj_pair)
  note defs = ParseUrl_def https_def [symmetric] rest_def [symmetric] authority_def [symmetric]
    path_def [symmetric] sa Let_def prod.case
  from assms have scheme: "prefix ''https://'' url \<or> prefix ''http://'' url"
    by (rule_tac ccontr) (simp add: ParseUrl_def)
  with assms have e1: "url_error out = []" and e2: "url_error (set_port url port_text out) = []"
    and e3: "url_host (set_port url port_text out) \<noteq> []"
    unfolding defs by (auto split: if_splits)
  from scheme e1 e2 e3 have pu: "ParseUrl url = set_port url port_text out"
    unfolding defs by auto
  obtain host where out: "out = ?out\<lparr>url_host := host\<rparr>"
    and shape: "authority_shape authority host port_text"
    using split_authority_shape [OF sa e1] by blast
  obtain port where port: "set_port url port_text out = out\<lparr>url_port := port\<rparr>"
      "port_shape (url_https out) port_text port" "1 \<le> port" "port \<le> 65535"
    using set_port_shape [OF e2 e1] by blast
  have url: "url = scheme_text https @ rest"
    using scheme by (auto simp: scheme_text_def rest_def https_def prefix_def)
  obtain tail where "rest = authority @ tail" "slash \<notin> set authority"
      "tail = [] \<and> path = [slash] \<or> tail \<noteq> [] \<and> hd tail = slash \<and> path = tail"
    using authority_of_rest [OF authority_def path_def] by blast
  with url out port shape have "url_shape url (out\<lparr>url_port := port\<rparr>)"
    unfolding url_shape_def by (intro exI [of _ authority] exI [of _ tail] exI [of _ port_text]) auto
  with pu port e3 show ?thesis by simp
qed


text \<open>A URL written from its parts, with the port spelled out, is read back as those parts.\<close>

definition url_text :: "bool \<Rightarrow> bool \<Rightarrow> string \<Rightarrow> nat \<Rightarrow> string \<Rightarrow> string" where
  "url_text https bracketed host port path =
     scheme_text https @ (if bracketed then CHR ''['' # host @ '']'' else host)
       @ colon # dec port @ path"

lemma split_authority_plain:
  assumes "host \<noteq> []" and "hd host \<noteq> CHR ''[''" and "colon \<notin> set port_text"
  shows "split_authority url (host @ colon # port_text) out = (out\<lparr>url_host := host\<rparr>, port_text)"
proof -
  from assms(1,2) have "hd (host @ colon # port_text) \<noteq> CHR ''[''" by simp
  then show ?thesis by (simp add: split_authority_def find_last_append [OF assms(3)])
qed

lemma split_authority_bracketed:
  assumes "CHR '']'' \<notin> set host"
  shows "split_authority url (CHR ''['' # host @ CHR '']'' # colon # port_text) out =
    (out\<lparr>url_host := host\<rparr>, port_text)"
proof -
  have "find_at '']'' ((CHR ''['' # host) @ CHR '']'' # colon # port_text) = Some (Suc (length host))"
    using assms by (subst find_at_single_append) auto
  then show ?thesis by (simp add: split_authority_def nth_append)
qed

lemma set_port_dec:
  assumes "1 \<le> port" and "port \<le> 65535"
  shows "set_port url (dec port) out = out\<lparr>url_port := int port\<rparr>"
proof -
  have "list_all isdigit (dec port)" by (simp add: list_all_iff dec_digits)
  moreover have "length (dec port) \<le> Suc 4" by (rule length_dec_le) (use assms in simp)
  ultimately show ?thesis using assms by (simp add: set_port_def)
qed

lemma dec_no_colon: "colon \<notin> set (dec n)" and dec_no_slash: "slash \<notin> set (dec n)"
  using dec_digits [of colon n] dec_digits [of slash n] by (auto simp: isdigit_def code_of_def)

lemma ParseUrl_url_text:
  assumes "host \<noteq> []" and "slash \<notin> set host" and "path \<noteq> []" and "hd path = slash"
    and "1 \<le> port" and "port \<le> 65535"
    and "if bracketed then CHR '']'' \<notin> set host else hd host \<noteq> CHR ''[''"
  shows "ParseUrl (url_text https bracketed host port path) =
    \<lparr>url_https = https, url_host = host, url_port = int port, url_path = path, url_error = []\<rparr>"
proof -
  define url where "url = url_text https bracketed host port path"
  define a where "a = (if bracketed then CHR ''['' # host @ '']'' else host) @ colon # dec port"
  obtain p where p: "path = slash # p" using assms(3,4) by (cases path) auto
  have "slash \<notin> set a" using assms(2) dec_no_slash by (auto simp: a_def)
  from find_at_single_append [OF this, of p]
  have at: "find_at [slash] (a @ path) = Some (length a)" by (simp add: p)
  have https: "prefix ''https://'' url \<longleftrightarrow> https" "https \<or> prefix ''http://'' url"
    and rest: "drop (if https then 8 else 7) url = a @ path"
    by (auto simp: url_def a_def url_text_def scheme_text_def)
  have sa: "split_authority url a out = (out\<lparr>url_host := host\<rparr>, dec port)" for out
    using assms(1,7) dec_no_colon [of port]
      split_authority_plain [of host "dec port"] split_authority_bracketed [of host]
    by (cases bracketed) (auto simp: a_def)
  have "ParseUrl url =
    \<lparr>url_https = https, url_host = host, url_port = int port, url_path = path, url_error = []\<rparr>"
    using https(2) assms(1)
    unfolding ParseUrl_def https(1) rest at Let_def option.case
    by (auto simp: sa set_port_dec [OF assms(5,6)] UrlParts0_def)
  then show ?thesis by (simp only: url_def)
qed


section \<open>Dotted quads and local endpoints\<close>

definition octet_text :: "string \<Rightarrow> nat \<Rightarrow> bool" where
  "octet_text t v \<longleftrightarrow>
     t \<noteq> [] \<and> length t \<le> 3 \<and> list_all isdigit t \<and> dec_value t = v \<and> v \<le> 255"

fun dotted :: "string list \<Rightarrow> string" where
  "dotted [] = []"
| "dotted [t] = t"
| "dotted (t # ts) = t @ ''.'' @ dotted ts"

lemma octet_read:
  assumes "octet_text t v" and "s = [] \<or> \<not> isdigit (hd s)"
  shows "takeWhile isdigit (take 3 (t @ s)) = t"
proof -
  let ?u = "take (3 - length t) s"
  have "?u = [] \<or> \<not> isdigit (hd ?u)"
    using assms(2) by (cases "3 - length t"; cases s) auto
  then have "takeWhile isdigit (t @ ?u) = t"
    using assms(1) by (cases ?u) (auto simp: octet_text_def list_all_iff takeWhile_append)
  with assms(1) show ?thesis by (simp add: octet_text_def)
qed

lemma octet_taken:
  assumes "takeWhile isdigit (take 3 s) = t" and "t \<noteq> []" and "dec_value t \<le> 255"
  shows "octet_text t (dec_value t)" and "s = t @ drop (length t) s"
proof -
  have "length t \<le> 3" using assms(1) by (metis length_take length_takeWhile_le min.bounded_iff)
  moreover have "list_all isdigit t" using assms(1) by (auto simp: list_all_iff dest: set_takeWhileD)
  ultimately show "octet_text t (dec_value t)" using assms by (simp add: octet_text_def)
  have "take 3 s = t @ drop (length t) (take 3 s)"
    using assms(1) by (metis append_eq_conv_conj takeWhile_dropWhile_id)
  then have "take (length t) s = t"
    by (metis \<open>length t \<le> 3\<close> append_eq_conv_conj min.absorb2 take_take min.commute)
  then show "s = t @ drop (length t) s" by (metis append_take_drop_id)
qed

lemma dot_no_digit [simp]: "\<not> isdigit (CHR ''.'')"
  by (simp add: isdigit_def code_of_def)

lemma ipv4_octets_sound:
  "ipv4_octets k s = Some vs \<Longrightarrow> \<exists>ts. length ts = k \<and> list_all2 octet_text ts vs \<and> s = dotted ts"
proof (induction k arbitrary: s vs)
  case 0
  then show ?case by (auto split: if_splits)
next
  case (Suc k)
  define t where "t = takeWhile isdigit (take 3 s)"
  from Suc.prems have t: "t \<noteq> []" "dec_value t \<le> 255"
    by (auto simp: t_def Let_def split: if_splits)
  note taken = octet_taken [OF t_def [symmetric] t]
  show ?case
  proof (cases k)
    case 0
    with Suc.prems t have "drop (length t) s = []" and "vs = [dec_value t]"
      by (auto simp: Let_def t_def [symmetric] split: if_splits)
    with taken 0 show ?thesis by (intro exI [of _ "[t]"]) auto
  next
    case (Suc j)
    with Suc.prems t obtain s' vs' where s': "drop (length t) s = CHR ''.'' # s'"
      and vs: "vs = dec_value t # vs'" "ipv4_octets k s' = Some vs'"
      by (auto simp: Let_def t_def [symmetric] split: if_splits list.splits)
    from Suc.IH [OF vs(2)] obtain ts where "length ts = k" "list_all2 octet_text ts vs'" "s' = dotted ts"
      by blast
    with Suc vs taken s' show ?thesis
      by (intro exI [of _ "t # ts"]) (cases ts; auto)
  qed
qed

lemma ipv4_octets_complete:
  "list_all2 octet_text ts vs \<Longrightarrow> ts \<noteq> [] \<Longrightarrow> ipv4_octets (length ts) (dotted ts) = Some vs"
proof (induction ts vs rule: list_all2_induct)
  case (Cons t ts v vs)
  show ?case
  proof (cases ts)
    case Nil
    with Cons show ?thesis
      by (auto simp: octet_text_def Let_def list_all_iff takeWhile_eq_all_conv [THEN iffD2])
  next
    case (Cons t' ts')
    with octet_read [OF Cons.hyps(1), of "CHR ''.'' # dotted ts"] Cons.hyps(1) Cons.IH
    show ?thesis by (auto simp: octet_text_def)
  qed
qed simp

lemma Ipv4Literal_iff:
  "Ipv4Literal host = Some vs \<longleftrightarrow>
     (\<exists>ts. length ts = 4 \<and> list_all2 octet_text ts vs \<and> host = dotted ts)"
proof
  assume "\<exists>ts. length ts = 4 \<and> list_all2 octet_text ts vs \<and> host = dotted ts"
  then obtain ts where ts: "length ts = 4" "list_all2 octet_text ts vs" "host = dotted ts" by blast
  then have "ts \<noteq> []" by auto
  from ipv4_octets_complete [OF ts(2) this] ts show "Ipv4Literal host = Some vs"
    by (simp add: Ipv4Literal_def)
qed (simp add: Ipv4Literal_def ipv4_octets_sound)

text \<open>A host written as a loopback or link-local literal.\<close>

definition local_host :: "string \<Rightarrow> bool" where
  "local_host host \<longleftrightarrow> host = ''localhost'' \<or> host = ''::1'' \<or>
     (\<exists>ts a b c d. length ts = 4 \<and> list_all2 octet_text ts [a, b, c, d] \<and> host = dotted ts \<and>
        (a = 127 \<or> a = 169 \<and> b = 254))"

lemma LocalEndpoint_host:
  assumes "LocalEndpoint url"
  shows "url_error (ParseUrl url) = [] \<and> local_host (url_host (ParseUrl url))"
proof -
  from assms have ok: "url_error (ParseUrl url) = []"
    by (auto simp: LocalEndpoint_def Let_def split: option.splits if_splits)
  from assms consider "url_host (ParseUrl url) = ''localhost'' \<or> url_host (ParseUrl url) = ''::1''"
    | vs where "Ipv4Literal (url_host (ParseUrl url)) = Some vs"
        "vs ! 0 = 127 \<or> (vs ! 0 = 169 \<and> vs ! 1 = 254)"
    by (auto simp: LocalEndpoint_def Let_def split: option.splits if_splits)
  then have "local_host (url_host (ParseUrl url))"
  proof cases
    case (2 vs)
    then obtain ts where ts: "length ts = 4" "list_all2 octet_text ts vs"
        "url_host (ParseUrl url) = dotted ts" by (auto simp: Ipv4Literal_iff)
    then have "length vs = Suc (Suc (Suc (Suc 0)))" by (simp add: list_all2_lengthD [symmetric])
    then obtain a b c d where vs: "vs = [a, b, c, d]" by (auto simp: length_Suc_conv)
    with 2(2) have "a = 127 \<or> a = 169 \<and> b = 254" by auto
    with ts vs show ?thesis unfolding local_host_def by blast
  qed (auto simp: local_host_def)
  with ok show ?thesis ..
qed


section \<open>Properties\<close>

text \<open>A URL that \<open>ParseUrl\<close> accepts is a scheme, an authority without a slash and a path (an
  absent path reads as \<open>/\<close>); the host is not empty, the port is the scheme's default or
  the decimal number in the text, at most five digits, and always lies in 1..65535.\<close>

theorem ParseUrl_sound:
  assumes "url_error (ParseUrl url) = []"
  shows "url_shape url (ParseUrl url) \<and> url_host (ParseUrl url) \<noteq> []
    \<and> 1 \<le> url_port (ParseUrl url) \<and> url_port (ParseUrl url) \<le> 65535"
  using assms by (rule ParseUrl_accepts)

theorem ParseUrl_sound_witness:
  "url_shape ''https://idp:8443/token'' (ParseUrl ''https://idp:8443/token'')"
proof -
  have "url_error (ParseUrl ''https://idp:8443/token'') = []" by code_simp
  then show ?thesis by (rule ParseUrl_sound [THEN conjunct1])
qed

text \<open>C34: A well-formed URL with an explicit port, bracketed IPv6 literals included, is read back
  part by part: scheme, host, port and path are the ones it was written from.\<close>

theorem ParseUrl_roundtrip:
  assumes "host \<noteq> []" and "slash \<notin> set host" and "path \<noteq> []" and "hd path = slash"
    and "1 \<le> port" and "port \<le> 65535"
    and "if bracketed then CHR '']'' \<notin> set host else hd host \<noteq> CHR ''[''"
  shows "ParseUrl (url_text https bracketed host port path) =
    \<lparr>url_https = https, url_host = host, url_port = int port, url_path = path, url_error = []\<rparr>"
  using assms by (rule ParseUrl_url_text)

theorem ParseUrl_roundtrip_witness:
  "ParseUrl (url_text True True ''::1'' 8443 ''/t'') =
    \<lparr>url_https = True, url_host = ''::1'', url_port = 8443, url_path = ''/t'', url_error = []\<rparr>"
  using ParseUrl_roundtrip [of "''::1''" "''/t''" 8443 True True] by simp

text \<open>C38: \<open>LocalEndpoint\<close>, the check that keeps a platform's identity secret on the machine,
  accepts a URL only when \<open>ParseUrl\<close> accepts it and its host is literally \<open>localhost\<close>, \<open>::1\<close>,
  or a dotted quad of decimal octets in 127.0.0.0/8 or 169.254.0.0/16.\<close>

theorem LocalEndpoint_literal:
  assumes "LocalEndpoint url"
  shows "url_error (ParseUrl url) = [] \<and> local_host (url_host (ParseUrl url))"
  using assms by (rule LocalEndpoint_host)

theorem LocalEndpoint_literal_witness:
  "local_host (url_host (ParseUrl ''http://169.254.169.254/metadata''))"
proof -
  have "LocalEndpoint ''http://169.254.169.254/metadata''" by code_simp
  then show ?thesis by (rule LocalEndpoint_literal [THEN conjunct2])
qed

text \<open>Reading the values back out of an encoded form gives the parameters' values in order,
  each with the exact text it is written with in the body, whatever bytes names and values hold.\<close>

theorem form_roundtrip:
  "form_values (FormEncode params) = map (\<lambda>(k, v). (UrlEncode v, v)) params"
  by (rule form_values_FormEncode_eq)

end
