(* ===== verification/Json.thy ===== *)
theory Json
  imports Prelude
begin

text \<open>
  The \<open>Json\<close> helper of \<open>oidc/src/oidc_core.cpp\<close> over one response body. The JSON library
  (yyjson, from the consumer's tree) is a parameter: what the helper calls of it, over the
  library's own types of documents and values. \<open>yy_str\<close> is the content of a string value; the
  helper turns it into a \<open>std::string\<close> through \<open>const char *\<close>, which ends at the first NUL.
\<close>

record ('d, 'v) yyjson =
  yy_read :: "string \<Rightarrow> 'd option"
  yy_get :: "'d \<Rightarrow> string \<Rightarrow> 'v option"
  yy_is_str :: "'v \<Rightarrow> bool"
  yy_is_num :: "'v \<Rightarrow> bool"
  yy_is_arr :: "'v \<Rightarrow> bool"
  yy_str :: "'v \<Rightarrow> string"
  yy_sint :: "'v \<Rightarrow> int"
  yy_items :: "'v \<Rightarrow> 'v list"

definition c_string :: "string \<Rightarrow> string" where
  "c_string s = takeWhile (\<lambda>c. c \<noteq> CHR 0x00) s"

definition json_value :: "('d, 'v) yyjson \<Rightarrow> string \<Rightarrow> string \<Rightarrow> 'v option" where
  "json_value yy body key = (case yy_read yy body of None \<Rightarrow> None | Some doc \<Rightarrow> yy_get yy doc key)"

definition json_Str :: "('d, 'v) yyjson \<Rightarrow> string \<Rightarrow> string \<Rightarrow> string" where
  "json_Str yy body key = (case json_value yy body key of
     None \<Rightarrow> []
   | Some v \<Rightarrow> if \<not> yy_is_str yy v then [] else c_string (yy_str yy v))"

definition json_Int :: "('d, 'v) yyjson \<Rightarrow> string \<Rightarrow> string \<Rightarrow> int" where
  "json_Int yy body key = (case json_value yy body key of
     None \<Rightarrow> 0
   | Some v \<Rightarrow> if \<not> yy_is_num yy v then 0 else yy_sint yy v)"

definition json_ArrayHas :: "('d, 'v) yyjson \<Rightarrow> string \<Rightarrow> string \<Rightarrow> string \<Rightarrow> bool" where
  "json_ArrayHas yy body key wanted = (case json_value yy body key of
     None \<Rightarrow> False
   | Some v \<Rightarrow> yy_is_arr yy v \<and>
       list_ex (\<lambda>item. yy_is_str yy item \<and> c_string (yy_str yy item) = wanted) (yy_items yy v))"

lemma c_string_no_nul [simp]: "CHR 0x00 \<notin> set (c_string s)"
  by (auto simp: c_string_def dest: set_takeWhileD)

lemma json_Str_no_nul: "CHR 0x00 \<notin> set (json_Str yy body key)"
  by (simp add: json_Str_def split: option.splits)

text \<open>
  A small JSON library for the witnesses: a document is a list of \<open>(key, value)\<close> and its text is
  looked up in a table of known bodies.
\<close>

datatype jval = JStr string | JNum int | JArr "jval list"

definition table_yyjson ::
    "(string \<times> (string \<times> jval) list) list \<Rightarrow> ((string \<times> jval) list, jval) yyjson" where
  "table_yyjson table = \<lparr>
     yy_read = map_of table,
     yy_get = map_of,
     yy_is_str = (\<lambda>v. case v of JStr _ \<Rightarrow> True | _ \<Rightarrow> False),
     yy_is_num = (\<lambda>v. case v of JNum _ \<Rightarrow> True | _ \<Rightarrow> False),
     yy_is_arr = (\<lambda>v. case v of JArr _ \<Rightarrow> True | _ \<Rightarrow> False),
     yy_str = (\<lambda>v. case v of JStr s \<Rightarrow> s | _ \<Rightarrow> []),
     yy_sint = (\<lambda>v. case v of JNum n \<Rightarrow> n | _ \<Rightarrow> 0),
     yy_items = (\<lambda>v. case v of JArr vs \<Rightarrow> vs | _ \<Rightarrow> [])\<rparr>"

lemmas json_accessors =
  json_Str_def json_Int_def json_ArrayHas_def json_value_def table_yyjson_def c_string_def

end
