(* ===== verification/Transport.thy ===== *)
theory Transport
  imports Redaction Url Json
begin

text \<open>
  The module's HTTP layer (\<open>oidc/src/oidc_core.cpp\<close>, \<open>oidc/include/oidc_core.hpp\<close>): the result
  of an exchange, the process's and the thread's settings (a consumer's transport, a CA
  bundle) with their scopes, the built-in client, \<open>HttpSend\<close> and the scrubbing of a
  consumer's error text.

  The state is what the module keeps (\<open>process\<close>), with the rest of the world in
  \<open>outside\<close>. What the module calls and does not implement is the environment \<open>env\<close>: the consumer's
  transports (of an abstract type of handles; running one may do anything to the state, call
  back into the module included), the httplib client, the file system, OpenSSL's PEM
  reader, the clock, the random device, the process environment and the sleep.
\<close>

section \<open>Data\<close>

record HttpResult =
  hr_status :: int
  hr_body :: string
  hr_error :: string

definition HttpResult0 :: HttpResult where
  "HttpResult0 = \<lparr>hr_status = 0, hr_body = [], hr_error = []\<rparr>"

definition HttpResult_Ok :: "HttpResult \<Rightarrow> bool" where
  "HttpResult_Ok r \<longleftrightarrow> hr_error r = [] \<and> hr_status r \<ge> 200 \<and> hr_status r < 300"

record request =
  rq_method :: string
  rq_url :: string
  rq_headers :: smap
  rq_body :: string
  rq_content_type :: string
  rq_timeout :: int

record ('t, 'w) process =
  default_transport :: "'t option"
  scoped_transport :: "'t option option"
  in_transport :: bool
  default_ca_bundle :: string
  scoped_ca_bundle :: "string option"
  outside :: 'w

text \<open>What the httplib client is set up with before \<open>send\<close>.\<close>

record client_request =
  cr_https :: bool
  cr_host :: string
  cr_port :: int
  cr_timeout :: int
  cr_verify :: bool
  cr_anchors :: string
  cr_system_ca :: bool
  cr_method :: string
  cr_path :: string
  cr_headers :: "(string \<times> string) list"
  cr_body :: string

datatype build = NoBuiltin | Plain | Tls

record ('t, 'w) env =
  build :: build
  run_transport :: "'t \<Rightarrow> request \<Rightarrow> (('t, 'w) process, HttpResult) prog"
  http_client :: "client_request \<Rightarrow> ('w, string + int \<times> string) prog"
  stat_file :: "'w \<Rightarrow> string \<Rightarrow> (bool \<times> int) option"
  open_file :: "'w \<Rightarrow> string \<Rightarrow> string option"
  pem_infos :: "string \<Rightarrow> string option option list option"
  clock :: "'w \<Rightarrow> int"
  random_device :: "('w, 32 word) prog"
  getenv :: "'w \<Rightarrow> string \<Rightarrow> string option"
  sleep_second :: "'w \<Rightarrow> 'w"

text \<open>A program of the outside world, run in the process.\<close>

definition outp :: "('w, 'a) prog \<Rightarrow> (('t, 'w) process, 'a) prog" where
  "outp m s = (case m (outside s) of (r, w) \<Rightarrow> (r, s\<lparr>outside := w\<rparr>))"

definition NowSeconds :: "('t, 'w) env \<Rightarrow> (('t, 'w) process, int) prog" where
  "NowSeconds env s = (Returns (clock env (outside s)), s)"


section \<open>The CA bundle\<close>

definition CurrentCaBundle :: "('t, 'w) process \<Rightarrow> string" where
  "CurrentCaBundle s = (case scoped_ca_bundle s of Some path \<Rightarrow> path | None \<Rightarrow> default_ca_bundle s)"

definition ReadRegularFile :: "('t, 'w) env \<Rightarrow> 'w \<Rightarrow> string \<Rightarrow> nat \<Rightarrow> string option" where
  "ReadRegularFile env w path limit = (case stat_file env w (c_string path) of
     None \<Rightarrow> None
   | Some (regular, st_size) \<Rightarrow>
       if \<not> regular then None
       else (case open_file env w (c_string path) of
           None \<Rightarrow> None
         | Some bytes \<Rightarrow>
             if st_size < 0 \<or> st_size > int limit then None
             else
               (let content = take (nat st_size) bytes; next_char = drop (nat st_size) bytes
                in if length content = nat st_size \<and> next_char = [] then Some content else None)))"

text \<open>
  \<open>pem_infos\<close> is the list of PEM blocks OpenSSL parsed (\<open>None\<close> when a block does not parse): for
  each one \<open>None\<close> when it is no certificate, else the certificate written as PEM again, or
  \<open>Some None\<close> when writing it failed. The result is the pair of what \<open>ReadCaBundle\<close> returns and
  what it leaves in \<open>error\<close>.
\<close>

definition ReadCaBundle :: "('t, 'w) env \<Rightarrow> 'w \<Rightarrow> string \<Rightarrow> string \<Rightarrow> string \<times> string" where
  "ReadCaBundle env w path error =
     (case ReadRegularFile env w path (16 * 1024 * 1024) of
        None \<Rightarrow> ([], ''the CA bundle '' @ path @ '' cannot be read (a regular file of at most 16 MiB)'')
      | Some raw \<Rightarrow>
          (let infos = pem_infos env raw;
               certificates = (case infos of None \<Rightarrow> [] | Some is \<Rightarrow> List.map_filter (\<lambda>i. i) is);
               written = list_all (\<lambda>c. c \<noteq> None) certificates
           in if infos = None \<or> length certificates = 0 \<or> \<not> written
              then ([], ''the CA bundle '' @ path @ '' holds no PEM certificate, or one that does not parse'')
              else (concat (map the certificates), error)))"


section \<open>The built-in client\<close>

definition client_for :: "UrlParts \<Rightarrow> int \<Rightarrow> client_request" where
  "client_for url timeout_seconds = \<lparr>cr_https = url_https url, cr_host = url_host url,
     cr_port = url_port url, cr_timeout = timeout_seconds, cr_verify = False, cr_anchors = [],
     cr_system_ca = False, cr_method = [], cr_path = [], cr_headers = [], cr_body = []\<rparr>"

definition client_answer :: "string \<Rightarrow> string + int \<times> string \<Rightarrow> HttpResult" where
  "client_answer failed res = (case res of
     Inl why \<Rightarrow> HttpResult0\<lparr>hr_error := failed @ why\<rparr>
   | Inr (status, body) \<Rightarrow> HttpResult0\<lparr>hr_status := status, hr_body := body\<rparr>)"

definition Run :: "('t, 'w) env \<Rightarrow> UrlParts \<Rightarrow> int \<Rightarrow> (client_request \<Rightarrow> client_request) \<Rightarrow>
    (('t, 'w) process, HttpResult) prog" where
  "Run env url timeout_seconds request s =
     (if url_error url \<noteq> [] then ret (HttpResult0\<lparr>hr_error := url_error url\<rparr>) s
      else if url_https url then
        (if build env \<noteq> Tls
         then ret (HttpResult0\<lparr>hr_error := ''https needs a TLS-enabled build (DUCKDB_EXT_COMMON_OIDC_TLS) - this build can reach http:// issuers only''\<rparr>) s
         else
           (let client = (client_for url timeout_seconds)\<lparr>cr_verify := True\<rparr>;
                bundle = CurrentCaBundle s
            in if bundle \<noteq> [] then
                 (case ReadCaBundle env (outside s) bundle [] of (pem, error) \<Rightarrow>
                    if pem = [] then ret (HttpResult0\<lparr>hr_error := error\<rparr>) s
                    else bindp (outp (http_client env
                             (request (client\<lparr>cr_anchors := pem, cr_system_ca := True\<rparr>))))
                           (\<lambda>res. ret (client_answer ''https request failed: '' res)) s)
               else bindp (outp (http_client env (request client)))
                      (\<lambda>res. ret (client_answer ''https request failed: '' res)) s))
      else bindp (outp (http_client env (request (client_for url timeout_seconds))))
             (\<lambda>res. ret (client_answer ''http request failed: '' res)) s)"

definition fill_request :: "request \<Rightarrow> UrlParts \<Rightarrow> client_request \<Rightarrow> client_request" where
  "fill_request rq parts client =
     (let request = client\<lparr>cr_method := rq_method rq, cr_path := url_path parts,
            cr_headers := rq_headers rq\<rparr>
      in if rq_body rq \<noteq> [] \<or> rq_content_type rq \<noteq> []
         then request\<lparr>cr_body := rq_body rq, cr_headers := rq_headers rq @
           [(''Content-Type'', if rq_content_type rq = [] then ''application/octet-stream''
                               else rq_content_type rq)]\<rparr>
         else request)"

definition BuiltInSend :: "('t, 'w) env \<Rightarrow> request \<Rightarrow> (('t, 'w) process, HttpResult) prog" where
  "BuiltInSend env rq =
     (if build env = NoBuiltin
      then ret (HttpResult0\<lparr>hr_error := ''this build has no built-in HTTP client (no sockets) - set a transport (SetDefaultTransport)''\<rparr>)
      else (let parts = ParseUrl (rq_url rq)
            in Run env parts (rq_timeout rq) (fill_request rq parts)))"


section \<open>\<open>HideRequest\<close>\<close>

fun hide_headers :: "string \<Rightarrow> smap \<Rightarrow> string option" where
  "hide_headers error [] = Some error"
| "hide_headers error ((name, value) # headers) =
     (if map tolower name = ''authorization'' then
        Option.bind (Redact error value) (\<lambda>error.
          Option.bind (case find_at '' '' value of
              Some space \<Rightarrow> Redact error (drop (space + 1) value)
            | None \<Rightarrow> Some error) (\<lambda>error.
          hide_headers error headers))
      else hide_headers error headers)"

fun hide_values :: "string \<Rightarrow> (string \<times> string) list \<Rightarrow> string option" where
  "hide_values error [] = Some error"
| "hide_values error ((encoded, decoded) # values) =
     Option.bind (Redact error encoded) (\<lambda>error.
       Option.bind (Redact error decoded) (\<lambda>error. hide_values error values))"

definition HideRequest :: "string \<Rightarrow> smap \<Rightarrow> string \<Rightarrow> string \<Rightarrow> string option" where
  "HideRequest error headers body content_type =
     Option.bind (hide_headers error headers) (\<lambda>error.
       if content_type = ''application/x-www-form-urlencoded''
       then hide_values error (form_values body)
       else Redact error body)"


section \<open>Transports and their scopes\<close>

definition CurrentTransport :: "('t, 'w) process \<Rightarrow> 't option" where
  "CurrentTransport s = (case scoped_transport s of
     Some transport \<Rightarrow> transport
   | None \<Rightarrow> default_transport s)"

definition SetDefaultTransport :: "'t option \<Rightarrow> ('t, 'w) process \<Rightarrow> ('t, 'w) process" where
  "SetDefaultTransport transport s = s\<lparr>default_transport := transport\<rparr>"

text \<open>A scope object is what it remembers: the previous setting.\<close>

definition TransportScope :: "'t option \<Rightarrow> ('t, 'w) process \<Rightarrow> 't option option \<times> ('t, 'w) process" where
  "TransportScope transport s = (scoped_transport s, s\<lparr>scoped_transport := Some transport\<rparr>)"

definition TransportScope_end :: "'t option option \<Rightarrow> ('t, 'w) process \<Rightarrow> ('t, 'w) process" where
  "TransportScope_end previous s = s\<lparr>scoped_transport := previous\<rparr>"

definition SetDefaultCaBundle :: "string \<Rightarrow> ('t, 'w) process \<Rightarrow> ('t, 'w) process" where
  "SetDefaultCaBundle path s = s\<lparr>default_ca_bundle := path\<rparr>"

definition CaBundleScope :: "string \<Rightarrow> ('t, 'w) process \<Rightarrow> string option \<times> ('t, 'w) process" where
  "CaBundleScope path s = (scoped_ca_bundle s, s\<lparr>scoped_ca_bundle := Some path\<rparr>)"

definition CaBundleScope_end :: "string option \<Rightarrow> ('t, 'w) process \<Rightarrow> ('t, 'w) process" where
  "CaBundleScope_end previous s = s\<lparr>scoped_ca_bundle := previous\<rparr>"


section \<open>\<open>HttpSend\<close>\<close>

definition HttpSend :: "('t, 'w) env \<Rightarrow> request \<Rightarrow> (('t, 'w) process, HttpResult) prog" where
  "HttpSend env rq s =
     (case (if in_transport s then None else CurrentTransport s) of
        None \<Rightarrow> BuiltInSend env rq s
      | Some transport \<Rightarrow>
          (let parts = ParseUrl (rq_url rq)
           in if url_error parts \<noteq> [] then ret (HttpResult0\<lparr>hr_error := url_error parts\<rparr>) s
              else (case run_transport env transport rq (s\<lparr>in_transport := True\<rparr>) of
                  (Returns out, s') \<Rightarrow>
                    (case HideRequest (hr_error out) (rq_headers rq) (rq_body rq) (rq_content_type rq) of
                       None \<Rightarrow> (Hangs, s')
                     | Some error \<Rightarrow> (Returns (out\<lparr>hr_error := error\<rparr>), s'\<lparr>in_transport := False\<rparr>))
                | (Throws, s') \<Rightarrow> (Throws, s'\<lparr>in_transport := False\<rparr>)
                | (Hangs, s') \<Rightarrow> (Hangs, s'))))"

definition HttpGet :: "('t, 'w) env \<Rightarrow> string \<Rightarrow> int \<Rightarrow> (('t, 'w) process, HttpResult) prog" where
  "HttpGet env url timeout_seconds = HttpSend env \<lparr>rq_method = ''GET'', rq_url = url, rq_headers = [],
     rq_body = [], rq_content_type = [], rq_timeout = timeout_seconds\<rparr>"

definition form_request :: "string \<Rightarrow> smap \<Rightarrow> int \<Rightarrow> request" where
  "form_request url params timeout_seconds = \<lparr>rq_method = ''POST'', rq_url = url, rq_headers = [],
     rq_body = FormEncode params, rq_content_type = ''application/x-www-form-urlencoded'',
     rq_timeout = timeout_seconds\<rparr>"

text \<open>The callers in the module leave the timeout at its default of 30 seconds.\<close>

definition HttpPostForm :: "('t, 'w) env \<Rightarrow> string \<Rightarrow> smap \<Rightarrow> (('t, 'w) process, HttpResult) prog" where
  "HttpPostForm env url params = HttpSend env (form_request url params 30)"


section \<open>Nested scopes\<close>

text \<open>
  What a thread does with a scoped setting: open a scope for a block of further actions, or set
  the process's default. A block runs with the functions of one setting.
\<close>

datatype 'v block = Scope 'v "'v block list" | Default 'v

fun run_block :: "('v \<Rightarrow> 's \<Rightarrow> 'p \<times> 's) \<Rightarrow> ('p \<Rightarrow> 's \<Rightarrow> 's) \<Rightarrow> ('v \<Rightarrow> 's \<Rightarrow> 's) \<Rightarrow> 'v block \<Rightarrow> 's \<Rightarrow> 's" where
  "run_block enter leave dflt (Default v) s = dflt v s"
| "run_block enter leave dflt (Scope v blocks) s =
     (let (previous, s') = enter v s
      in leave previous (fold (run_block enter leave dflt) blocks s'))"

fun block_defaults :: "'v block \<Rightarrow> 'v list" where
  "block_defaults (Default v) = [v]"
| "block_defaults (Scope v blocks) = concat (map block_defaults blocks)"

locale scoped_setting =
  fixes enter :: "'v \<Rightarrow> 's \<Rightarrow> 'p \<times> 's"
    and leave :: "'p \<Rightarrow> 's \<Rightarrow> 's"
    and dflt :: "'v \<Rightarrow> 's \<Rightarrow> 's"
    and current :: "'s \<Rightarrow> 'v"
  assumes current_enter: "current (snd (enter v s)) = v"
    and current_inside: "current (dflt d (snd (enter v s))) = v"
    and leave_enter: "leave (fst (enter v s)) (snd (enter v s)) = s"
    and default_enter: "dflt d (snd (enter v s)) = snd (enter v (dflt d s))"
    and fst_enter: "fst (enter v (dflt d s)) = fst (enter v s)"
begin

lemma defaults_enter:
  "fold dflt ds (snd (enter v s)) = snd (enter v (fold dflt ds s))"
  by (induction ds arbitrary: s) (simp_all add: default_enter)

lemma defaults_fst: "fst (enter v (fold dflt ds s)) = fst (enter v s)"
  by (induction ds arbitrary: s) (simp_all add: fst_enter)

lemma run_block_defaults:
  "run_block enter leave dflt b s = fold dflt (block_defaults b) s"
proof (induction b arbitrary: s)
  case (Scope v blocks)
  have blocks: "fold (run_block enter leave dflt) blocks t =
      fold dflt (concat (map block_defaults blocks)) t" for t
    using Scope.IH by (induction blocks arbitrary: t) simp_all
  have "run_block enter leave dflt (Scope v blocks) s =
      leave (fst (enter v s)) (fold dflt (block_defaults (Scope v blocks)) (snd (enter v s)))"
    by (simp add: case_prod_unfold Let_def blocks)
  also have "\<dots> = fold dflt (block_defaults (Scope v blocks)) s"
    unfolding defaults_enter by (metis defaults_fst leave_enter)
  finally show ?case .
qed simp

lemma current_in_scope:
  "current (fold (run_block enter leave dflt) blocks (snd (enter v s))) = v"
proof -
  have "fold (run_block enter leave dflt) blocks t =
      fold dflt (concat (map block_defaults blocks)) t" for t
    by (induction blocks arbitrary: t) (simp_all add: run_block_defaults)
  then show ?thesis by (simp add: defaults_enter current_enter)
qed

end

interpretation tscope: scoped_setting TransportScope TransportScope_end SetDefaultTransport
    CurrentTransport
  by unfold_locales
    (simp_all add: TransportScope_def TransportScope_end_def SetDefaultTransport_def
      CurrentTransport_def)

interpretation cscope: scoped_setting CaBundleScope CaBundleScope_end SetDefaultCaBundle
    CurrentCaBundle
  by unfold_locales
    (simp_all add: CaBundleScope_def CaBundleScope_end_def SetDefaultCaBundle_def
      CurrentCaBundle_def)


section \<open>What an error text may still hold\<close>

definition authorization_values :: "smap \<Rightarrow> string list" where
  "authorization_values headers = concat (map (\<lambda>(name, value).
     if map tolower name = ''authorization''
     then value # (case find_at '' '' value of Some space \<Rightarrow> [drop (space + 1) value] | None \<Rightarrow> [])
     else []) headers)"

definition request_secrets :: "smap \<Rightarrow> string \<Rightarrow> string \<Rightarrow> string list" where
  "request_secrets headers body content_type =
     authorization_values headers @
     (if content_type = ''application/x-www-form-urlencoded''
      then concat (map (\<lambda>(encoded, decoded). [encoded, decoded]) (form_values body))
      else [body])"

lemma redact_seq_append:
  "redact_seq e (ps @ qs) = Option.bind (redact_seq e ps) (\<lambda>e. redact_seq e qs)"
  by (induction e ps rule: redact_seq.induct) (auto split: Option.bind_splits)

lemma hide_headers_seq: "hide_headers e headers = redact_seq e (authorization_values headers)"
  by (induction e headers rule: hide_headers.induct)
    (auto simp: authorization_values_def redact_seq_append split: option.splits Option.bind_splits)

lemma hide_values_seq:
  "hide_values e vals = redact_seq e (concat (map (\<lambda>(encoded, decoded). [encoded, decoded]) vals))"
  by (induction e vals rule: hide_values.induct) (auto split: Option.bind_splits)

lemma HideRequest_seq:
  "HideRequest e headers body content_type = redact_seq e (request_secrets headers body content_type)"
  by (auto simp: HideRequest_def request_secrets_def redact_seq_append hide_headers_seq
      hide_values_seq split: Option.bind_splits)

text \<open>A form's parameters, as \<open>HttpPostForm\<close> sends them.\<close>

lemma form_secrets:
  "request_secrets [] (FormEncode params) ''application/x-www-form-urlencoded'' =
     concat (map (\<lambda>(k, v). [UrlEncode v, v]) params)"
  by (simp add: request_secrets_def authorization_values_def form_values_FormEncode_eq o_def
      case_prod_unfold)

lemma HttpSend_transport:
  assumes "\<not> in_transport s" and "CurrentTransport s = Some t" and "url_error (ParseUrl (rq_url rq)) = []"
    and "HttpSend env rq s = (Returns out, s')"
  obtains raw s1 where "run_transport env t rq (s\<lparr>in_transport := True\<rparr>) = (Returns raw, s1)"
    and "HideRequest (hr_error raw) (rq_headers rq) (rq_body rq) (rq_content_type rq) = Some (hr_error out)"
    and "out = raw\<lparr>hr_error := hr_error out\<rparr>" and "s' = s1\<lparr>in_transport := False\<rparr>"
  using assms by (auto simp: HttpSend_def Let_def split: prod.splits outcome.splits option.splits)

lemma HttpSend_hides:
  assumes "\<not> in_transport s" and "CurrentTransport s = Some t"
    and "url_error (ParseUrl (rq_url rq)) = []" and "HttpSend env rq s = (Returns out, s')"
    and "p \<in> set (request_secrets (rq_headers rq) (rq_body rq) (rq_content_type rq))" and "secret_like p"
  shows "\<not> sublist p (hr_error out)"
  using assms(1-4)
proof (rule HttpSend_transport)
  fix raw s1
  assume "HideRequest (hr_error raw) (rq_headers rq) (rq_body rq) (rq_content_type rq) =
      Some (hr_error out)"
  from rseq.removes [OF this [unfolded HideRequest_seq] assms(5,6)] show ?thesis .
qed

lemma snd_outp_ret [simp]:
  "snd (bindp (outp m) (\<lambda>x. ret (f x)) s) = s\<lparr>outside := snd (m (outside s))\<rparr>"
  by (auto simp: bindp_def outp_def split: prod.split outcome.split)

lemma Run_outside: "\<exists>w. snd (Run env url timeout request s) = s\<lparr>outside := w\<rparr>"
proof -
  have "\<exists>w. s = s\<lparr>outside := w\<rparr>" by (rule exI [of _ "outside s"]) simp
  then show ?thesis by (auto simp: Run_def Let_def split: prod.split)
qed

lemma BuiltInSend_outside:
  assumes "BuiltInSend env rq s = (r, s')"
  shows "\<exists>w. s' = s\<lparr>outside := w\<rparr>"
proof (cases "build env = NoBuiltin")
  case True
  with assms have "s' = s\<lparr>outside := outside s\<rparr>" by (simp add: BuiltInSend_def)
  then show ?thesis ..
next
  case False
  with assms have "s' = snd (BuiltInSend env rq s)" by simp
  then show ?thesis using False by (simp add: BuiltInSend_def Let_def Run_outside)
qed


text \<open>An environment for the witnesses: a plain client that answers 200, a clock that stands at
  1000, no entropy, no files and an empty process environment; its transports are functions of
  the request.\<close>

definition quiet_env :: "build \<Rightarrow> (request \<Rightarrow> HttpResult, unit) env" where
  "quiet_env b = \<lparr>build = b,
     run_transport = (\<lambda>t rq. ret (t rq)),
     http_client = (\<lambda>c. ret (Inr (200, ''ok''))),
     stat_file = (\<lambda>w path. None),
     open_file = (\<lambda>w path. None),
     pem_infos = (\<lambda>raw. None),
     clock = (\<lambda>w. 1000),
     random_device = (\<lambda>w. (Throws, w)),
     getenv = (\<lambda>w name. None),
     sleep_second = (\<lambda>w. w)\<rparr>"

definition start_process :: "'t option \<Rightarrow> 'w \<Rightarrow> ('t, 'w) process" where
  "start_process t w = \<lparr>default_transport = t, scoped_transport = None, in_transport = False,
     default_ca_bundle = [], scoped_ca_bundle = None, outside = w\<rparr>"


section \<open>Properties\<close>

text \<open>A thread's \<open>TransportScope\<close>s nest: after any nesting of scopes and changes of the process's
  default, the state is the one the changes of the default alone give, and at every point inside
  a scope, whatever nested scopes have come and gone and whatever the default is now, the
  transport in force is that scope's own (an empty one included).\<close>

theorem TransportScope_nests:
  "run_block TransportScope TransportScope_end SetDefaultTransport b s =
     fold SetDefaultTransport (block_defaults b) s
   \<and> CurrentTransport (fold (run_block TransportScope TransportScope_end SetDefaultTransport) blocks
       (snd (TransportScope v s))) = v"
  by (simp only: tscope.run_block_defaults tscope.current_in_scope simp_thms)

text \<open>The same holds of \<open>CaBundleScope\<close>: a nested scope never leaves its bundle behind, and an
  inner scope with the empty path means the system's roots alone whatever the default is.\<close>

theorem CaBundleScope_nests:
  "run_block CaBundleScope CaBundleScope_end SetDefaultCaBundle b s =
     fold SetDefaultCaBundle (block_defaults b) s
   \<and> CurrentCaBundle (fold (run_block CaBundleScope CaBundleScope_end SetDefaultCaBundle) blocks
       (snd (CaBundleScope v s))) = v"
  by (simp only: cscope.run_block_defaults cscope.current_in_scope simp_thms)



text \<open>C4: When a consumer's transport carries a request with a well-formed URL, the error text that
  comes back holds no \<open>secret_like\<close> part of what was sent: not an \<open>Authorization\<close> header's value
  (in any spelling of the name) nor its token, not a form value in its encoded or its decoded
  form, not the body of any other request.\<close>

theorem HttpSend_hides_request:
  assumes "\<not> in_transport s" and "CurrentTransport s = Some t"
    and "url_error (ParseUrl (rq_url rq)) = []" and "HttpSend env rq s = (Returns out, s')"
    and "p \<in> set (request_secrets (rq_headers rq) (rq_body rq) (rq_content_type rq))" and "secret_like p"
  shows "\<not> sublist p (hr_error out)"
  using assms by (rule HttpSend_hides)

theorem HttpSend_hides_request_witness:
  "\<not> sublist ''tok.en-123456''
     (case HttpSend (quiet_env Plain)
        \<lparr>rq_method = ''GET'', rq_url = ''https://idp/'', rq_headers = [(''AUTHORIZATION'', ''Bearer tok.en-123456'')],
         rq_body = [], rq_content_type = [], rq_timeout = 5\<rparr>
        (start_process (Some (\<lambda>rq. HttpResult0\<lparr>hr_error := ''sent Bearer tok.en-123456''\<rparr>)) ()) of
      (Returns out, s') \<Rightarrow> hr_error out | _ \<Rightarrow> [])"
proof -
  let ?rq = "\<lparr>rq_method = ''GET'', rq_url = ''https://idp/'',
    rq_headers = [(''AUTHORIZATION'', ''Bearer tok.en-123456'')], rq_body = [],
    rq_content_type = [], rq_timeout = 5\<rparr>"
  let ?s = "start_process (Some (\<lambda>rq. HttpResult0\<lparr>hr_error := ''sent Bearer tok.en-123456''\<rparr>)) ()"
  have url: "url_error (ParseUrl (rq_url ?rq)) = []" by code_simp
  have secrets: "''tok.en-123456'' \<in> set (request_secrets (rq_headers ?rq) (rq_body ?rq) (rq_content_type ?rq))"
    by code_simp
  have "secret_like ''tok.en-123456''" by (simp add: secret_like_def)
  note * = HttpSend_hides_request [OF _ _ url _ secrets this, of ?s]
  show ?thesis
    using * by (auto simp: start_process_def CurrentTransport_def split: prod.splits outcome.splits)
qed

text \<open>In particular a form POST never leaks a parameter through the error text of a transport:
  for every parameter, neither the value nor its percent-encoded form is in the error.\<close>

theorem HttpPostForm_hides_values:
  assumes "\<not> in_transport s" and "CurrentTransport s = Some t"
    and "url_error (ParseUrl url) = []" and "HttpPostForm env url params s = (Returns out, s')"
    and "(k, v) \<in> set params"
  shows "(secret_like v \<longrightarrow> \<not> sublist v (hr_error out)) \<and>
    (secret_like (UrlEncode v) \<longrightarrow> \<not> sublist (UrlEncode v) (hr_error out))"
proof -
  let ?rq = "form_request url params 30"
  have url: "url_error (ParseUrl (rq_url ?rq)) = []" using assms(3) by (simp add: form_request_def)
  note hidden = HttpSend_hides [OF assms(1,2) url assms(4) [unfolded HttpPostForm_def]]
  have "request_secrets (rq_headers ?rq) (rq_body ?rq) (rq_content_type ?rq) =
      concat (map (\<lambda>(k, v). [UrlEncode v, v]) params)"
    unfolding form_secrets [symmetric] by (simp add: form_request_def)
  with assms(5) have "v \<in> set (request_secrets (rq_headers ?rq) (rq_body ?rq) (rq_content_type ?rq))"
    and "UrlEncode v \<in> set (request_secrets (rq_headers ?rq) (rq_body ?rq) (rq_content_type ?rq))"
    by force+
  with hidden show ?thesis by blast
qed

theorem HttpPostForm_hides_values_witness:
  "\<not> sublist ''p&ss word/1''
     (case HttpPostForm (quiet_env Plain) ''https://idp/t'' [(''password'', ''p&ss word/1'')]
        (start_process (Some (\<lambda>rq. HttpResult0\<lparr>hr_error := rq_body rq\<rparr>)) ()) of
      (Returns out, s') \<Rightarrow> hr_error out | _ \<Rightarrow> [])"
proof -
  let ?s = "start_process (Some (\<lambda>rq. HttpResult0\<lparr>hr_error := rq_body rq\<rparr>)) ()"
  have url: "url_error (ParseUrl ''https://idp/t'') = []" by code_simp
  have "secret_like ''p&ss word/1''" by (simp add: secret_like_def)
  with HttpPostForm_hides_values [OF _ _ url, of ?s _ "quiet_env Plain"
      "[(''password'', ''p&ss word/1'')]"]
  show ?thesis by (auto simp: start_process_def CurrentTransport_def split: prod.splits outcome.splits)
qed



end
