(* ===== verification/Discovery.thy ===== *)
theory Discovery
  imports Transport
begin

text \<open>
  Endpoint discovery (RFC 8414; \<open>oidc/src/oidc_core.cpp\<close>: \<open>Discover\<close>,
  \<open>ParseDiscoveryDocument\<close>): which documents are accepted for an issuer, and that a document
  accepted for an https issuer names no cleartext endpoint.
\<close>

record Endpoints =
  ep_issuer :: string
  token_endpoint :: string
  device_authorization_endpoint :: string
  authorization_endpoint :: string
  revocation_endpoint :: string
  pkce_s256 :: bool
  ep_error :: string

definition Endpoints0 :: Endpoints where
  "Endpoints0 = \<lparr>ep_issuer = [], token_endpoint = [], device_authorization_endpoint = [],
     authorization_endpoint = [], revocation_endpoint = [], pkce_s256 = False, ep_error = []\<rparr>"

definition Endpoints_Ok :: "Endpoints \<Rightarrow> bool" where
  "Endpoints_Ok ep \<longleftrightarrow> ep_error ep = [] \<and> token_endpoint ep \<noteq> []"

definition quoted :: "string \<Rightarrow> string" where
  "quoted s = CHR 0x22 # s @ [CHR 0x22]"

definition endpoint_list :: "Endpoints \<Rightarrow> string list" where
  "endpoint_list ep = [token_endpoint ep, device_authorization_endpoint ep,
     authorization_endpoint ep, revocation_endpoint ep]"

text \<open>The first endpoint that is given and not https.\<close>

definition cleartext_endpoint :: "Endpoints \<Rightarrow> string option" where
  "cleartext_endpoint ep = find (\<lambda>e. e \<noteq> [] \<and> \<not> prefix ''https://'' e) (endpoint_list ep)"

definition ParseDiscoveryDocument :: "('d, 'v) yyjson \<Rightarrow> string \<Rightarrow> HttpResult \<Rightarrow> Endpoints" where
  "ParseDiscoveryDocument yy issuer response =
     (let out = Endpoints0\<lparr>ep_issuer := issuer\<rparr>
      in if \<not> HttpResult_Ok response
         then out\<lparr>ep_error := (if hr_error response = []
                then ''discovery answered HTTP '' @ to_string (hr_status response)
                else hr_error response)\<rparr>
         else
           (let body = hr_body response;
                advertised = strip_back (CHR ''/'') (json_Str yy body ''issuer'')
            in if advertised \<noteq> issuer
               then out\<lparr>ep_error := ''discovery issuer mismatch: asked '' @ quoted issuer
                      @ '', document says '' @ quoted advertised\<rparr>
               else
                 (let out = out\<lparr>token_endpoint := json_Str yy body ''token_endpoint'',
                        device_authorization_endpoint := json_Str yy body ''device_authorization_endpoint'',
                        authorization_endpoint := json_Str yy body ''authorization_endpoint'',
                        revocation_endpoint := json_Str yy body ''revocation_endpoint'',
                        pkce_s256 := json_ArrayHas yy body ''code_challenge_methods_supported'' ''S256''\<rparr>
                  in if token_endpoint out = []
                     then out\<lparr>ep_error := ''discovery document carries no token_endpoint''\<rparr>
                     else if prefix ''https://'' issuer
                     then (case cleartext_endpoint out of
                         Some endpoint \<Rightarrow> out\<lparr>ep_error :=
                           ''discovery names a cleartext endpoint for an https issuer - refused: '' @ endpoint\<rparr>
                       | None \<Rightarrow> out)
                     else out)))"

definition discovery_path :: string where
  "discovery_path = ''/.well-known/openid-configuration''"

definition Discover :: "('t, 'w) env \<Rightarrow> ('d, 'v) yyjson \<Rightarrow> string \<Rightarrow> int \<Rightarrow>
    (('t, 'w) process, Endpoints) prog" where
  "Discover env yy issuer_url timeout_seconds =
     (let issuer = strip_back (CHR ''/'') issuer_url
      in bindp (HttpGet env (issuer @ discovery_path) timeout_seconds)
           (\<lambda>response. ret (ParseDiscoveryDocument yy issuer response)))"


section \<open>Accepted documents\<close>

lemma cleartext_endpoint_None:
  "cleartext_endpoint ep = None \<longleftrightarrow>
     (\<forall>e \<in> set (endpoint_list ep). e = [] \<or> prefix ''https://'' e)"
  by (auto simp: cleartext_endpoint_def find_None_iff)

lemma ParseDiscoveryDocument_issuer: "ep_issuer (ParseDiscoveryDocument yy issuer r) = issuer"
  by (simp add: ParseDiscoveryDocument_def Let_def split: option.split)

lemma ParseDiscoveryDocument_Ok:
  "Endpoints_Ok (ParseDiscoveryDocument yy issuer r) \<longleftrightarrow>
     HttpResult_Ok r
     \<and> strip_back (CHR ''/'') (json_Str yy (hr_body r) ''issuer'') = issuer
     \<and> json_Str yy (hr_body r) ''token_endpoint'' \<noteq> []
     \<and> (prefix ''https://'' issuer \<longrightarrow>
          (\<forall>key \<in> {''token_endpoint'', ''device_authorization_endpoint'', ''authorization_endpoint'',
              ''revocation_endpoint''}.
            json_Str yy (hr_body r) key = [] \<or> prefix ''https://'' (json_Str yy (hr_body r) key)))"
  (is "?ok \<longleftrightarrow> ?spec")
proof -
  define d where "d = \<lparr>ep_issuer = issuer, token_endpoint = json_Str yy (hr_body r) ''token_endpoint'',
    device_authorization_endpoint = json_Str yy (hr_body r) ''device_authorization_endpoint'',
    authorization_endpoint = json_Str yy (hr_body r) ''authorization_endpoint'',
    revocation_endpoint = json_Str yy (hr_body r) ''revocation_endpoint'',
    pkce_s256 = json_ArrayHas yy (hr_body r) ''code_challenge_methods_supported'' ''S256'', ep_error = []\<rparr>"
  have "?ok \<longleftrightarrow> HttpResult_Ok r
     \<and> strip_back (CHR ''/'') (json_Str yy (hr_body r) ''issuer'') = issuer
     \<and> token_endpoint d \<noteq> [] \<and> (prefix ''https://'' issuer \<longrightarrow> cleartext_endpoint d = None)"
    by (auto simp: ParseDiscoveryDocument_def Let_def Endpoints_Ok_def Endpoints0_def d_def
        HttpResult_Ok_def split: option.splits)
  also have "\<dots> \<longleftrightarrow> ?spec"
    by (simp only: cleartext_endpoint_None) (auto simp: endpoint_list_def d_def)
  finally show ?thesis .
qed

lemma HttpResult_error_nonempty: "\<not> HttpResult_Ok r \<Longrightarrow> hr_error r = [] \<Longrightarrow> hr_status r < 200 \<or> 300 \<le> hr_status r"
  by (auto simp: HttpResult_Ok_def)

text \<open>A refusal always says so.\<close>

lemma ParseDiscoveryDocument_refusal:
  assumes "\<not> Endpoints_Ok (ParseDiscoveryDocument yy issuer r)"
  shows "ep_error (ParseDiscoveryDocument yy issuer r) \<noteq> []"
proof (cases "HttpResult_Ok r")
  case False
  then show ?thesis by (simp add: ParseDiscoveryDocument_def)
next
  case True
  show ?thesis
  proof (cases "ep_error (ParseDiscoveryDocument yy issuer r)")
    case Nil
    with True have "token_endpoint (ParseDiscoveryDocument yy issuer r) \<noteq> []"
      by (simp add: ParseDiscoveryDocument_def Let_def Endpoints0_def
          split: if_split_asm option.split option.split_asm)
    with Nil assms show ?thesis by (simp add: Endpoints_Ok_def)
  qed simp
qed

lemma Discover_returns:
  assumes "Discover env yy issuer_url timeout s = (Returns ep, s')"
  obtains r where "HttpGet env (strip_back (CHR ''/'') issuer_url @ discovery_path) timeout s = (Returns r, s')"
    and "ep = ParseDiscoveryDocument yy (strip_back (CHR ''/'') issuer_url) r"
  using assms unfolding Discover_def Let_def by (auto elim!: bindp_ReturnsE)


section \<open>Properties\<close>

text \<open>C7: A discovery document is accepted exactly when the answer was a 2xx, the issuer it advertises is
  the asked-for one up to trailing slashes, it names a token endpoint, and, for an https issuer,
  every endpoint it names is https (no downgrade); the result always speaks for the asked-for
  issuer and a refusal always carries an error.\<close>

theorem ParseDiscoveryDocument_accepts:
  "(Endpoints_Ok (ParseDiscoveryDocument yy issuer r) \<longleftrightarrow>
     HttpResult_Ok r
     \<and> strip_back (CHR ''/'') (json_Str yy (hr_body r) ''issuer'') = issuer
     \<and> json_Str yy (hr_body r) ''token_endpoint'' \<noteq> []
     \<and> (\<not> prefix ''https://'' issuer \<or>
          list_all (\<lambda>key. json_Str yy (hr_body r) key = [] \<or> prefix ''https://'' (json_Str yy (hr_body r) key))
            [''token_endpoint'', ''device_authorization_endpoint'', ''authorization_endpoint'',
             ''revocation_endpoint'']))
   \<and> ep_issuer (ParseDiscoveryDocument yy issuer r) = issuer
   \<and> (Endpoints_Ok (ParseDiscoveryDocument yy issuer r) \<or> ep_error (ParseDiscoveryDocument yy issuer r) \<noteq> [])"
proof -
  have "Endpoints_Ok (ParseDiscoveryDocument yy issuer r) \<or>
      ep_error (ParseDiscoveryDocument yy issuer r) \<noteq> []"
    using ParseDiscoveryDocument_refusal by blast
  then show ?thesis
    by (simp only: ParseDiscoveryDocument_issuer ParseDiscoveryDocument_Ok) auto
qed


theorem ParseDiscoveryDocument_accepts_witness:
  "Endpoints_Ok (ParseDiscoveryDocument
     (table_yyjson [(''d'', [(''issuer'', JStr ''https://i/''), (''token_endpoint'', JStr ''https://i/t'')])])
     ''https://i'' \<lparr>hr_status = 200, hr_body = ''d'', hr_error = []\<rparr>)"
  using ParseDiscoveryDocument_accepts [of
      "table_yyjson [(''d'', [(''issuer'', JStr ''https://i/''), (''token_endpoint'', JStr ''https://i/t'')])]"
      "''https://i''" "\<lparr>hr_status = 200, hr_body = ''d'', hr_error = []\<rparr>"]
  by (simp add: json_accessors HttpResult_Ok_def strip_back_def)

end
