(* ===== verification/Sha.thy ===== *)
theory Sha
  imports Prelude
begin

text \<open>
  \<open>Sha256\<close> of \<open>oidc/src/oidc_core.cpp\<close>, on 32-bit words as the code has it, and the
  recurrences of FIPS 180-4 it is shown equal to.
\<close>

unbundle bit_operations_syntax

section \<open>\<open>Sha256\<close>\<close>

definition sha_k :: "32 word list" where
  "sha_k =
     [0x428a2f98, 0x71374491, 0xb5c0fbcf, 0xe9b5dba5,
      0x3956c25b, 0x59f111f1, 0x923f82a4, 0xab1c5ed5] @
     [0xd807aa98, 0x12835b01, 0x243185be, 0x550c7dc3,
      0x72be5d74, 0x80deb1fe, 0x9bdc06a7, 0xc19bf174] @
     [0xe49b69c1, 0xefbe4786, 0x0fc19dc6, 0x240ca1cc,
      0x2de92c6f, 0x4a7484aa, 0x5cb0a9dc, 0x76f988da] @
     [0x983e5152, 0xa831c66d, 0xb00327c8, 0xbf597fc7,
      0xc6e00bf3, 0xd5a79147, 0x06ca6351, 0x14292967] @
     [0x27b70a85, 0x2e1b2138, 0x4d2c6dfc, 0x53380d13,
      0x650a7354, 0x766a0abb, 0x81c2c92e, 0x92722c85] @
     [0xa2bfe8a1, 0xa81a664b, 0xc24b8b70, 0xc76c51a3,
      0xd192e819, 0xd6990624, 0xf40e3585, 0x106aa070] @
     [0x19a4c116, 0x1e376c08, 0x2748774c, 0x34b0bcb5,
      0x391c0cb3, 0x4ed8aa4a, 0x5b9cca4f, 0x682e6ff3] @
     [0x748f82ee, 0x78a5636f, 0x84c87814, 0x8cc70208,
      0x90befffa, 0xa4506ceb, 0xbef9a3f7, 0xc67178f2]"

definition sha_h :: "32 word list" where
  "sha_h = [0x6a09e667, 0xbb67ae85, 0x3c6ef372, 0xa54ff53a,
    0x510e527f, 0x9b05688c, 0x1f83d9ab, 0x5be0cd19]"

definition rotr :: "32 word \<Rightarrow> nat \<Rightarrow> 32 word" where
  "rotr x n = drop_bit n x OR push_bit (32 - n) x"

text \<open>\<open>while (data.size() % 64 != 56) data.push_back(char(0))\<close>\<close>

function pad_zeros :: "string \<Rightarrow> string" where
  "pad_zeros data = (if length data mod 64 \<noteq> 56 then pad_zeros (data @ [CHR 0x00]) else data)"
  by pat_completeness auto
termination
proof (relation "measure (\<lambda>data. (120 - length data mod 64) mod 64)")
  have decreases: "(120 - Suc m mod 64) mod 64 < (120 - m mod 64) mod 64"
    if "m mod 64 \<noteq> 56" for m :: nat
  proof -
    define k where "k = m mod 64"
    have "k < 64" and "k \<noteq> 56" using that by (simp_all add: k_def)
    then consider "k < 56" | "56 < k" "k < 63" | "k = 63" by linarith
    then have "(120 - (if Suc k = 64 then 0 else Suc k)) mod 64 < (120 - k) mod 64"
    proof cases
      case 1
      then have eq: "120 - k = 56 - k + 64" "120 - Suc k = 55 - k + 64" by simp_all
      have "(120 - k) mod 64 = 56 - k" and "(120 - Suc k) mod 64 = 55 - k"
        unfolding eq mod_add_self2 by simp_all
      with 1 show ?thesis by simp
    qed simp_all
    then show ?thesis unfolding k_def mod_Suc .
  qed
  fix data :: string
  assume "length data mod 64 \<noteq> 56"
  from decreases [OF this]
  show "(data @ [CHR 0x00], data) \<in> measure (\<lambda>data. (120 - length data mod 64) mod 64)"
    by simp
qed simp

declare pad_zeros.simps [simp del]

text \<open>Big-endian bytes of a word: \<open>n\<close> of them.\<close>

definition be_bytes :: "nat \<Rightarrow> 'a::len word \<Rightarrow> string" where
  "be_bytes n w = map (\<lambda>i. char_of (unat (drop_bit (i * 8) w AND 0xff))) (rev [0..<n])"

definition sha_pad :: "string \<Rightarrow> string" where
  "sha_pad message =
     pad_zeros (message @ [CHR 0x80]) @ be_bytes 8 (of_nat (length message) * 8 :: 64 word)"

definition word_at :: "string \<Rightarrow> nat \<Rightarrow> 32 word" where
  "word_at p i =
     push_bit 24 (of_nat (code_of (p ! (i * 4)))) OR push_bit 16 (of_nat (code_of (p ! (i * 4 + 1))))
     OR push_bit 8 (of_nat (code_of (p ! (i * 4 + 2)))) OR of_nat (code_of (p ! (i * 4 + 3)))"

definition schedule_step :: "32 word list \<Rightarrow> nat \<Rightarrow> 32 word list" where
  "schedule_step w i =
     (let s0 = rotr (w ! (i - 15)) 7 XOR rotr (w ! (i - 15)) 18 XOR drop_bit 3 (w ! (i - 15));
          s1 = rotr (w ! (i - 2)) 17 XOR rotr (w ! (i - 2)) 19 XOR drop_bit 10 (w ! (i - 2))
      in w @ [w ! (i - 16) + s0 + w ! (i - 7) + s1])"

definition sha_schedule :: "string \<Rightarrow> 32 word list" where
  "sha_schedule block = fold (\<lambda>i w. schedule_step w i) [16..<64] (map (word_at block) [0..<16])"

record sha_vars =
  va :: "32 word"  vb :: "32 word"  vc :: "32 word"  vd :: "32 word"
  ve :: "32 word"  vf :: "32 word"  vg :: "32 word"  vh :: "32 word"

definition sha_round :: "32 word list \<Rightarrow> nat \<Rightarrow> sha_vars \<Rightarrow> sha_vars" where
  "sha_round w i v =
     (let t1 = vh v + (rotr (ve v) 6 XOR rotr (ve v) 11 XOR rotr (ve v) 25)
             + ((ve v AND vf v) XOR (NOT (ve v) AND vg v)) + sha_k ! i + w ! i;
          t2 = (rotr (va v) 2 XOR rotr (va v) 13 XOR rotr (va v) 22)
             + ((va v AND vb v) XOR (va v AND vc v) XOR (vb v AND vc v))
      in \<lparr>va = t1 + t2, vb = va v, vc = vb v, vd = vc v,
          ve = vd v + t1, vf = ve v, vg = vf v, vh = vg v\<rparr>)"

definition sha_block :: "string \<Rightarrow> sha_vars \<Rightarrow> sha_vars" where
  "sha_block block h =
     (let w = sha_schedule block; v = fold (sha_round w) [0..<64] h
      in \<lparr>va = va h + va v, vb = vb h + vb v, vc = vc h + vc v, vd = vd h + vd v,
          ve = ve h + ve v, vf = vf h + vf v, vg = vg h + vg v, vh = vh h + vh v\<rparr>)"

definition sha_init :: sha_vars where
  "sha_init = \<lparr>va = sha_h ! 0, vb = sha_h ! 1, vc = sha_h ! 2, vd = sha_h ! 3,
     ve = sha_h ! 4, vf = sha_h ! 5, vg = sha_h ! 6, vh = sha_h ! 7\<rparr>"

text \<open>\<open>for (size_t chunk = 0; chunk < data.size(); chunk += 64)\<close>\<close>

function sha_blocks :: "string \<Rightarrow> sha_vars \<Rightarrow> sha_vars" where
  "sha_blocks data h =
     (if data = [] then h else sha_blocks (drop 64 data) (sha_block (take 64 data) h))"
  by pat_completeness auto
termination
  by (relation "measure (\<lambda>(data, h). length data)") auto

declare sha_blocks.simps [simp del]

definition sha_words :: "sha_vars \<Rightarrow> 32 word list" where
  "sha_words h = [va h, vb h, vc h, vd h, ve h, vf h, vg h, vh h]"

definition Sha256 :: "string \<Rightarrow> string" where
  "Sha256 message = concat (map (be_bytes 4) (sha_words (sha_blocks (sha_pad message) sha_init)))"


section \<open>The hash of FIPS 180-4\<close>

text \<open>
  The standard as it is written: the functions of section 4.1.2 over \<open>ROTR\<close> and \<open>SHR\<close>,
  the padding of 5.1.1 with the least number of zero bytes, the message schedule as a
  recurrence (6.2.2, step 1) and the working variables after \<open>t\<close> rounds (step 3).
\<close>

definition fips_Ch :: "32 word \<Rightarrow> 32 word \<Rightarrow> 32 word \<Rightarrow> 32 word" where
  "fips_Ch x y z = (x AND y) XOR (NOT x AND z)"

definition fips_Maj :: "32 word \<Rightarrow> 32 word \<Rightarrow> 32 word \<Rightarrow> 32 word" where
  "fips_Maj x y z = (x AND y) XOR (x AND z) XOR (y AND z)"

definition fips_Sigma :: "nat \<Rightarrow> nat \<Rightarrow> nat \<Rightarrow> 32 word \<Rightarrow> 32 word" where
  "fips_Sigma i j k x = word_rotr i x XOR word_rotr j x XOR word_rotr k x"

definition fips_sigma :: "nat \<Rightarrow> nat \<Rightarrow> nat \<Rightarrow> 32 word \<Rightarrow> 32 word" where
  "fips_sigma i j k x = word_rotr i x XOR word_rotr j x XOR drop_bit k x"

fun fips_W :: "(nat \<Rightarrow> 32 word) \<Rightarrow> nat \<Rightarrow> 32 word" where
  "fips_W M t = (if t < 16 then M t
     else fips_sigma 17 19 10 (fips_W M (t - 2)) + fips_W M (t - 7)
        + fips_sigma 7 18 3 (fips_W M (t - 15)) + fips_W M (t - 16))"

declare fips_W.simps [simp del]

primrec fips_vars :: "(nat \<Rightarrow> 32 word) \<Rightarrow> sha_vars \<Rightarrow> nat \<Rightarrow> sha_vars" where
  "fips_vars M h 0 = h"
| "fips_vars M h (Suc t) =
     (let v = fips_vars M h t;
          T1 = vh v + fips_Sigma 6 11 25 (ve v) + fips_Ch (ve v) (vf v) (vg v) + sha_k ! t + fips_W M t;
          T2 = fips_Sigma 2 13 22 (va v) + fips_Maj (va v) (vb v) (vc v)
      in \<lparr>va = T1 + T2, vb = va v, vc = vb v, vd = vc v,
          ve = vd v + T1, vf = ve v, vg = vf v, vh = vg v\<rparr>)"

definition sha_add :: "sha_vars \<Rightarrow> sha_vars \<Rightarrow> sha_vars" where
  "sha_add v w = \<lparr>va = va v + va w, vb = vb v + vb w, vc = vc v + vc w, vd = vd v + vd w,
     ve = ve v + ve w, vf = vf v + vf w, vg = vg v + vg w, vh = vh v + vh w\<rparr>"

definition fips_pad :: "string \<Rightarrow> string" where
  "fips_pad m = m @ [CHR 0x80] @ replicate (nat ((55 - int (length m)) mod 64)) (CHR 0x00)
     @ be_bytes 8 (of_nat (8 * length m) :: 64 word)"

primrec fips_H :: "string \<Rightarrow> nat \<Rightarrow> sha_vars" where
  "fips_H p 0 = sha_init"
| "fips_H p (Suc i) =
     sha_add (fips_vars (word_at (take 64 (drop (64 * i) p))) (fips_H p i) 64) (fips_H p i)"

definition fips_SHA256 :: "string \<Rightarrow> string" where
  "fips_SHA256 m =
     concat (map (be_bytes 4) (sha_words (fips_H (fips_pad m) (length (fips_pad m) div 64))))"

lemma rotr_word_rotr:
  assumes "0 < n" and "n < 32"
  shows "rotr x n = word_rotr n x"
proof (rule bit_word_eqI)
  fix k assume "k < LENGTH(32)"
  then have k: "k < 32" by simp
  show "bit (rotr x n) k = bit (word_rotr n x) k"
  proof (cases "k + n < 32")
    case True
    then have "\<not> 32 - n \<le> k" by linarith
    with True assms k show ?thesis
      by (simp add: rotr_def bit_simps bit_word_rotr_iff add.commute)
  next
    case False
    then have "(k + n) mod 32 = k - (32 - n)" using k assms by (simp add: mod_if)
    moreover have "\<not> bit x (n + k)" using False bit_imp_le_length [of x "n + k"] by auto
    moreover have "32 - n \<le> k" using False by linarith
    ultimately show ?thesis using False k assms
      by (simp add: rotr_def bit_simps bit_word_rotr_iff)
  qed
qed

lemma schedule_invariant:
  assumes "16 \<le> n"
  shows "length (fold (\<lambda>i w. schedule_step w i) [16..<n] (map (word_at b) [0..<16])) = n
    \<and> (\<forall>t<n. fold (\<lambda>i w. schedule_step w i) [16..<n] (map (word_at b) [0..<16]) ! t
        = fips_W (word_at b) t)"
  using assms
proof (induction n rule: dec_induct)
  case base
  show ?case by (simp add: fips_W.simps [where t = t for t] del: upt.simps)
next
  case (step n)
  let ?w = "fold (\<lambda>i w. schedule_step w i) [16..<n] (map (word_at b) [0..<16])"
  have "fips_W (word_at b) n = fips_sigma 17 19 10 (?w ! (n - 2)) + ?w ! (n - 7)
      + fips_sigma 7 18 3 (?w ! (n - 15)) + ?w ! (n - 16)"
    using step by (simp add: fips_W.simps [of _ n])
  with step show ?case
    by (simp add: schedule_step_def Let_def nth_append fips_sigma_def rotr_word_rotr
        less_Suc_eq ac_simps)
qed

lemma rounds_fips:
  assumes "\<forall>t<n. w ! t = fips_W M t"
  shows "fold (sha_round w) [0..<n] h = fips_vars M h n"
  using assms
  by (induction n) (simp_all add: sha_round_def Let_def fips_Sigma_def fips_Ch_def fips_Maj_def
      rotr_word_rotr)

lemma sha_block_fips: "sha_block b h = sha_add (fips_vars (word_at b) h 64) h"
  using schedule_invariant [of 64 b] rounds_fips [of 64 "sha_schedule b" "word_at b" h]
  by (simp add: sha_block_def sha_add_def sha_schedule_def Let_def add.commute del: upt.simps)

lemma sha_blocks_fips:
  assumes "length p = 64 * n"
    and "i \<le> n"
  shows "sha_blocks (drop (64 * i) p) (fips_H p i) = fips_H p n"
  using assms(2)
proof (induction "n - i" arbitrary: i)
  case 0
  with assms(1) show ?case by (simp add: sha_blocks.simps [of "[]"])
next
  case (Suc k)
  then have "drop (64 * i) p \<noteq> []" and "k = n - Suc i" and "Suc i \<le> n" using assms(1) by simp_all
  with Suc(1) [of "Suc i"] show ?case
    by (simp add: sha_blocks.simps [of "drop (64 * i) p"] sha_block_fips add.commute)
qed

lemma pad_count:
  "n mod 64 = 56 \<Longrightarrow> (56 - int n) mod 64 = 0"
  "n mod 64 \<noteq> 56 \<Longrightarrow> nat ((56 - int n) mod 64) = Suc (nat ((56 - int (Suc n)) mod 64))"
proof -
  show "(56 - int n) mod 64 = 0" if "n mod 64 = 56"
  proof -
    from that have "int n mod 64 = 56" by (metis of_nat_mod of_nat_numeral)
    then have "(56 - int n mod 64) mod 64 = 0" by simp
    then show ?thesis by (simp add: mod_diff_right_eq)
  qed
  assume "n mod 64 \<noteq> 56"
  then have "int n mod 64 \<noteq> 56" by (metis int_ops(3) nat_int of_nat_mod)
  moreover have "int n mod 64 = 56" if "(56 - int n) mod 64 = 0"
    using mod_eq_dvd_iff [of 56 64 "int n"] that by (simp add: dvd_eq_mod_eq_0)
  ultimately have "(56 - int n) mod 64 \<noteq> 0" by metis
  moreover have "0 \<le> (56 - int n) mod 64" and "(56 - int n) mod 64 < 64" by simp_all
  ultimately have pos: "0 \<le> (56 - int n) mod 64 - 1" and "(56 - int n) mod 64 - 1 < 64"
    by linarith+
  then have "((56 - int n) mod 64 - 1) mod 64 = (56 - int n) mod 64 - 1"
    by (rule mod_pos_pos_trivial)
  then have "(56 - int (Suc n)) mod 64 = (56 - int n) mod 64 - 1"
    by (simp add: mod_diff_left_eq)
  with pos show "nat ((56 - int n) mod 64) = Suc (nat ((56 - int (Suc n)) mod 64))" by linarith
qed

lemma pad_zeros_replicate:
  "pad_zeros d = d @ replicate (nat ((56 - int (length d)) mod 64)) (CHR 0x00)"
proof (induction d rule: pad_zeros.induct)
  case (1 d)
  show ?case
  proof (cases "length d mod 64 = 56")
    case True
    then show ?thesis by (simp add: pad_zeros.simps [of d] pad_count(1))
  next
    case False
    then show ?thesis using 1 pad_count(2) [OF False] by (simp add: pad_zeros.simps [of d])
  qed
qed

lemma sha_pad_fips: "sha_pad m = fips_pad m"
  by (simp add: sha_pad_def fips_pad_def pad_zeros_replicate mult.commute algebra_simps)

lemma length_fips_pad: "64 dvd length (fips_pad m)"
proof -
  have "int (length (fips_pad m)) = int (length m) + 9 + (55 - int (length m)) mod 64"
    by (simp add: fips_pad_def be_bytes_def)
  then have "int (length (fips_pad m)) mod 64 = 0"
    by (simp add: mod_simps)
  then show ?thesis by presburger
qed

lemma Sha256_fips: "Sha256 m = fips_SHA256 m"
proof -
  obtain n where n: "length (fips_pad m) = 64 * n" using length_fips_pad by (metis dvdE)
  from sha_blocks_fips [OF n, of 0] n show ?thesis
    by (simp add: Sha256_def sha_pad_fips fips_SHA256_def)
qed

lemma length_Sha256: "length (Sha256 m) = 32"
  by (simp add: Sha256_def sha_words_def be_bytes_def)


section \<open>Properties\<close>


end
