(* ===== verification/Pkce.thy ===== *)
theory Pkce
  imports Sha
begin

text \<open>
  The PKCE primitives (\<open>oidc/src/oidc_core.cpp\<close>: \<open>Base64Url\<close>, \<open>Base64UrlDecode\<close>,
  \<open>PkceChallenge\<close>, \<open>RandomUrlSafe\<close>): base64url without padding is inverted by the decoder,
  and the challenge and the random strings have the alphabet and the length RFC 7636 asks
  for.
\<close>

unbundle bit_operations_syntax

section \<open>\<open>Base64Url\<close> and its decoder\<close>

definition b64_alphabet :: string where
  "b64_alphabet = ''ABCDEFGHIJKLMNOPQRSTUVWXYZabcdefghijklmnopqrstuvwxyz0123456789-_''"

definition b64 :: "nat \<Rightarrow> nat \<Rightarrow> char" where
  "b64 v k = b64_alphabet ! (drop_bit k v AND 63)"

fun Base64Url :: "string \<Rightarrow> string" where
  "Base64Url (x # y # z # s) =
     (let v = push_bit 16 (code_of x) OR push_bit 8 (code_of y) OR code_of z
      in [b64 v 18, b64 v 12, b64 v 6, b64 v 0] @ Base64Url s)"
| "Base64Url [x, y] =
     (let v = push_bit 16 (code_of x) OR push_bit 8 (code_of y)
      in [b64 v 18, b64 v 12, b64 v 6])"
| "Base64Url [x] = (let v = push_bit 16 (code_of x) in [b64 v 18, b64 v 12])"
| "Base64Url [] = []"

definition b64_value :: "char \<Rightarrow> nat option" where
  "b64_value c =
     (if isupper c then Some (code_of c - 65)
      else if islower c then Some (code_of c - 97 + 26)
      else if isdigit c then Some (code_of c - 48 + 52)
      else if c = CHR ''-'' then Some 62
      else if c = CHR ''_'' then Some 63
      else None)"

fun b64_decode :: "nat \<Rightarrow> nat \<Rightarrow> string \<Rightarrow> string" where
  "b64_decode buffer bits [] = []"
| "b64_decode buffer bits (c # s) = (case b64_value c of
     None \<Rightarrow> []
   | Some value \<Rightarrow>
       (let buffer = (push_bit 6 buffer OR value) AND 0xffffff; bits = bits + 6
        in if bits \<ge> 8
           then char_of (drop_bit (bits - 8) buffer AND 0xff) # b64_decode buffer (bits - 8) s
           else b64_decode buffer bits s))"

definition Base64UrlDecode :: "string \<Rightarrow> string" where
  "Base64UrlDecode s = b64_decode 0 0 s"

definition PkceChallenge :: "string \<Rightarrow> string" where
  "PkceChallenge verifier = Base64Url (Sha256 verifier)"


section \<open>\<open>RandomUrlSafe\<close>\<close>

text \<open>
  The device is the world's: each call gives 32 bits, or throws when the system has no entropy
  to give. A drawn word is cut into its bytes, low byte first, as far as bytes are missing.
\<close>

definition le_bytes :: "32 word \<Rightarrow> string" where
  "le_bytes v = map (\<lambda>i. char_of (unat (drop_bit (i * 8) v AND 0xff))) [0..<4]"

lemma length_le_bytes [simp]: "length (le_bytes v) = 4"
  by (simp add: le_bytes_def)

function random_raw :: "('s, 32 word) prog \<Rightarrow> nat \<Rightarrow> string \<Rightarrow> ('s, string) prog" where
  "random_raw device bytes raw s =
     (if length raw < bytes then
        (case device s of
           (Returns v, s') \<Rightarrow>
             random_raw device bytes (raw @ take (bytes - length raw) (le_bytes v)) s'
         | (Throws, s') \<Rightarrow> (Throws, s')
         | (Hangs, s') \<Rightarrow> (Hangs, s'))
      else (Returns raw, s))"
  by pat_completeness auto
termination
  by (relation "measure (\<lambda>(device, bytes, raw, s). bytes - length raw)") auto

declare random_raw.simps [simp del]

definition RandomUrlSafe :: "('s, 32 word) prog \<Rightarrow> nat \<Rightarrow> ('s, string) prog" where
  "RandomUrlSafe device bytes = bindp (random_raw device bytes []) (\<lambda>raw. ret (Base64Url raw))"


section \<open>Base64url is decoded back\<close>

lemma or_shifted: "b < 2 ^ k \<Longrightarrow> push_bit k a OR b = a * 2 ^ k + (b :: nat)"
proof -
  assume "b < 2 ^ k"
  then have "take_bit k b = b" by (rule take_bit_nat_eq_self)
  then have "push_bit k a AND b = 0"
    by (intro bit_eqI) (metis bit_0_eq bit_and_iff bit_push_bit_iff bit_take_bit_iff bot_apply
        bot_bool_def not_le)
  then have "push_bit k a + b = push_bit k a OR b" by (rule disjunctive_add_eq_or)
  then show ?thesis by (simp add: push_bit_eq_mult)
qed

lemma and_mask_mod: "n AND (2 ^ k - 1) = n mod (2 ^ k :: nat)"
  by (simp add: take_bit_eq_mod [symmetric] take_bit_eq_mask mask_eq_exp_minus_1)

lemma and_63: "n AND 63 = n mod (64 :: nat)" and and_255: "n AND 0xff = n mod (256 :: nat)"
  and and_24: "n AND 0xffffff = n mod (0x1000000 :: nat)"
  using and_mask_mod [of n 6] and_mask_mod [of n 8] and_mask_mod [of n 24] by simp_all

lemma b64_eq: "b64 v k = b64_alphabet ! (v div 2 ^ k mod 64)"
  by (simp add: b64_def and_63 drop_bit_eq_div)

lemma b64_values: "map b64_value b64_alphabet = map Some [0..<64]"
  by code_simp

lemma b64_value_alphabet: "n < 64 \<Longrightarrow> b64_value (b64_alphabet ! n) = Some n"
  using arg_cong [OF b64_values, of "\<lambda>l. l ! n"]
  by (simp add: b64_alphabet_def nth_map del: list.map upt_Suc)

definition b64_push :: "nat \<Rightarrow> nat \<Rightarrow> nat" where
  "b64_push buffer value = (buffer * 64 + value) mod 0x1000000"

lemma b64_decode_char:
  assumes "n < 64"
  shows "b64_decode buffer bits (b64_alphabet ! n # s) =
    (if bits + 6 \<ge> 8
     then char_of (b64_push buffer n div 2 ^ (bits - 2) mod 256)
       # b64_decode (b64_push buffer n) (bits - 2) s
     else b64_decode (b64_push buffer n) (bits + 6) s)"
proof -
  have "(push_bit 6 buffer OR n) AND 0xffffff = b64_push buffer n"
    using or_shifted [of n 6 buffer] assms by (simp add: and_24 b64_push_def)
  then show ?thesis
    by (simp add: b64_value_alphabet [OF assms] Let_def and_255 drop_bit_eq_div)
qed

lemma b64_push_mod:
  assumes "value < 64" and "m dvd 0x40000"
  shows "b64_push buffer value mod (64 * m) = buffer mod m * 64 + value"
proof -
  from assms(2) have "64 * m dvd 0x1000000"
    using mult_dvd_mono [OF dvd_refl [of 64] assms(2)] by simp
  then have "b64_push buffer value mod (64 * m) = (buffer * 64 + value) mod (64 * m)"
    by (simp add: b64_push_def mod_mod_cancel)
  also have "\<dots> = buffer mod m * 64 + value"
    using assms(1) by (simp add: mod_mult2_eq)
  finally show ?thesis .
qed

lemma div_mod_swap: "n div a mod b = n mod (a * b) div (a :: nat)"
  by (cases "a = 0") (simp_all add: mod_mult2_eq)

lemma div_digit: "v div (k * 64) * 64 + v div k mod 64 = v div (k :: nat)"
  by (simp add: div_mult2_eq)

text \<open>The buffer after one to four characters of the 24-bit group \<open>v\<close>.\<close>

lemma b64_group:
  fixes b v :: nat
  assumes "v < 0x1000000"
  defines "b1 \<equiv> b64_push b (v div 0x40000 mod 64)"
  defines "b2 \<equiv> b64_push b1 (v div 0x1000 mod 64)"
  defines "b3 \<equiv> b64_push b2 (v div 0x40 mod 64)"
  defines "b4 \<equiv> b64_push b3 (v mod 64)"
  shows "b2 div 16 mod 256 = v div 0x10000"
    and "b3 div 4 mod 256 = v div 0x100 mod 256"
    and "b4 mod 256 = v mod 256"
proof -
  have 1: "b1 mod 64 = v div 0x40000"
    using b64_push_mod [of "v div 0x40000 mod 64" 1 b] assms(1) by (simp add: b1_def)
  have 2: "b2 mod 0x1000 = v div 0x1000"
    using b64_push_mod [of "v div 0x1000 mod 64" 64 b1] 1 div_digit [where v = v and k = "0x1000"]
    by (simp add: b2_def)
  have 3: "b3 mod 0x40000 = v div 0x40"
    using b64_push_mod [of "v div 0x40 mod 64" "0x1000" b2] 2 div_digit [where v = v and k = "0x40"]
    by (simp add: b3_def)
  have 4: "b4 mod 0x1000000 = v"
    using b64_push_mod [of "v mod 64" "0x40000" b3] 3 by (simp add: b4_def)
  show "b2 div 16 mod 256 = v div 0x10000"
    by (simp add: div_mod_swap 2 div_mult2_eq [symmetric])
  have "b3 div 4 mod 256 = b3 mod 0x40000 mod 0x400 div 4"
    by (simp add: div_mod_swap mod_mod_cancel)
  also have "\<dots> = v div 0x40 div 4 mod 256" by (simp add: 3 div_mod_swap)
  finally show "b3 div 4 mod 256 = v div 0x100 mod 256" by (simp add: div_mult2_eq [symmetric])
  have "b4 mod 256 = b4 mod 0x1000000 mod 256" by (simp add: mod_mod_cancel)
  with 4 show "b4 mod 256 = v mod 256" by simp
qed


text \<open>The three bytes of a group, and its digits.\<close>

lemma group_value:
  assumes "x < 256" and "y < 256" and "z < 256"
  shows "push_bit 16 x OR push_bit 8 y OR z = x * 0x10000 + y * 0x100 + (z :: nat)"
    and "push_bit 16 x OR push_bit 8 y = x * 0x10000 + y * (0x100 :: nat)"
proof -
  have low: "push_bit 8 y OR z = y * 0x100 + z"
    using or_shifted [of z 8 y] assms(3) by simp
  have "y * 0x100 + z < 2 ^ 16" and "y * 0x100 < 2 ^ 16" using assms by simp_all
  note * = or_shifted [OF this(1), of x] or_shifted [OF this(2), of x]
  from *(1) low show "push_bit 16 x OR push_bit 8 y OR z = x * 0x10000 + y * 0x100 + z"
    by (simp add: or.assoc)
  from *(2) show "push_bit 16 x OR push_bit 8 y = x * 0x10000 + y * (0x100 :: nat)"
    by (simp add: push_bit_eq_mult)
qed

lemma group_bytes:
  assumes "x < 256" and "y < 256" and "z < (256 :: nat)"
  shows "x * 0x10000 + y * 0x100 + z < 0x1000000"
    and "(x * 0x10000 + y * 0x100 + z) div 0x10000 = x"
    and "(x * 0x10000 + y * 0x100 + z) div 0x100 mod 256 = y"
    and "(x * 0x10000 + y * 0x100 + z) mod 256 = z"
proof -
  show "x * 0x10000 + y * 0x100 + z < 0x1000000" using assms by simp
  show "(x * 0x10000 + y * 0x100 + z) div 0x10000 = x"
    by (rule div_nat_eqI) (use assms in simp_all)
  have "(x * 0x10000 + y * 0x100 + z) div 0x100 = x * 256 + y"
    by (rule div_nat_eqI) (use assms in simp_all)
  then show "(x * 0x10000 + y * 0x100 + z) div 0x100 mod 256 = y" using assms by simp
  have "x * 0x10000 + y * 0x100 + z = z + (x * 256 + y) * 256" by simp
  moreover have "(z + (x * 256 + y) * 256) mod 256 = z"
    unfolding mod_mult_self1 using assms(3) by simp
  ultimately show "(x * 0x10000 + y * 0x100 + z) mod 256 = z" by (simp only:)
qed

text \<open>Decoding the characters of one group.\<close>

lemma b64_decode_digits:
  assumes "d1 < 64" and "d2 < 64"
  shows "b64_decode b 0 (b64_alphabet ! d1 # b64_alphabet ! d2 # s) =
      char_of (b64_push (b64_push b d1) d2 div 16 mod 256)
        # b64_decode (b64_push (b64_push b d1) d2) 4 s"
    and "b64_decode b 4 (b64_alphabet ! d1 # s) =
      char_of (b64_push b d1 div 4 mod 256) # b64_decode (b64_push b d1) 2 s"
    and "b64_decode b 2 (b64_alphabet ! d1 # s) =
      char_of (b64_push b d1 mod 256) # b64_decode (b64_push b d1) 0 s"
  by (simp_all add: b64_decode_char [OF assms(1)] b64_decode_char [OF assms(2)] del: b64_decode.simps(2))

definition group_digits :: "nat \<Rightarrow> string" where
  "group_digits v = [b64_alphabet ! (v div 0x40000 mod 64), b64_alphabet ! (v div 0x1000 mod 64),
     b64_alphabet ! (v div 0x40 mod 64), b64_alphabet ! (v mod 64)]"

lemma b64_decode_group:
  assumes "v < 0x1000000"
  shows "\<exists>b'. b64_decode b 0 (group_digits v @ s) =
      char_of (v div 0x10000) # char_of (v div 0x100 mod 256) # char_of (v mod 256)
        # b64_decode b' 0 s"
    and "b64_decode b 0 (take 3 (group_digits v)) =
      [char_of (v div 0x10000), char_of (v div 0x100 mod 256)]"
    and "b64_decode b 0 (take 2 (group_digits v)) = [char_of (v div 0x10000)]"
proof -
  have less: "n mod 64 < 64" for n :: nat by simp
  note step = b64_decode_digits [OF less less] and group = b64_group [OF assms, of b]
  show "\<exists>b'. b64_decode b 0 (group_digits v @ s) =
      char_of (v div 0x10000) # char_of (v div 0x100 mod 256) # char_of (v mod 256)
        # b64_decode b' 0 s"
    unfolding group_digits_def append.simps step group by (rule exI) (rule refl)
  have 3: "take 3 (group_digits v) = [b64_alphabet ! (v div 0x40000 mod 64),
      b64_alphabet ! (v div 0x1000 mod 64), b64_alphabet ! (v div 0x40 mod 64)]"
    and 2: "take 2 (group_digits v) = [b64_alphabet ! (v div 0x40000 mod 64),
      b64_alphabet ! (v div 0x1000 mod 64)]"
    by (simp_all add: group_digits_def)
  show "b64_decode b 0 (take 3 (group_digits v)) =
      [char_of (v div 0x10000), char_of (v div 0x100 mod 256)]"
    unfolding 3 step group b64_decode.simps(1) by (rule refl)
  show "b64_decode b 0 (take 2 (group_digits v)) = [char_of (v div 0x10000)]"
    unfolding 2 step group b64_decode.simps(1) by (rule refl)
qed

lemma Base64Url_step:
  shows "Base64Url (x # y # z # s) =
      group_digits (code_of x * 0x10000 + code_of y * 0x100 + code_of z) @ Base64Url s"
    and "Base64Url [x, y] = take 3 (group_digits (code_of x * 0x10000 + code_of y * 0x100 + 0))"
    and "Base64Url [x] = take 2 (group_digits (code_of x * 0x10000 + 0 * 0x100 + 0))"
  using group_value [OF code_of_less [of x] code_of_less [of y] code_of_less [of z]]
  by (simp_all add: group_digits_def Let_def b64_eq push_bit_eq_mult)

lemma b64_decode_Base64Url: "b64_decode b 0 (Base64Url s) = s"
proof (induction s arbitrary: b rule: Base64Url.induct)
  case (1 x y z s)
  note v = group_bytes [OF code_of_less [of x] code_of_less [of y] code_of_less [of z]]
  from b64_decode_group(1) [OF v(1), of b "Base64Url s"] show ?case
    unfolding Base64Url_step(1) v(2-4) char_of_code_of "1.IH" [OF refl] by simp
next
  case (2 x y)
  note v = group_bytes [OF code_of_less [of x] code_of_less [of y] zero_less_numeral]
  from b64_decode_group(2) [OF v(1), of b] show ?case
    unfolding Base64Url_step(2) v(2-4) char_of_code_of .
next
  case (3 x)
  note v = group_bytes [OF code_of_less [of x] zero_less_numeral zero_less_numeral]
  from b64_decode_group(3) [OF v(1), of b] show ?case
    unfolding Base64Url_step(3) v(2-4) char_of_code_of .
qed simp

lemma set_Base64Url: "set (Base64Url s) \<subseteq> set b64_alphabet"
proof -
  have "b64 v k \<in> set b64_alphabet" for v k
    unfolding b64_eq by (rule nth_mem) (simp add: b64_alphabet_def)
  then show ?thesis by (induction s rule: Base64Url.induct) (auto simp: Let_def)
qed

lemma length_Base64Url: "length (Base64Url s) = (4 * length s + 2) div 3"
  by (induction s rule: Base64Url.induct) (simp_all add: Let_def)




lemma length_PkceChallenge: "length (PkceChallenge v) = 43"
  by (simp add: PkceChallenge_def length_Base64Url length_Sha256)


lemma random_raw_spec:
  assumes "random_raw device n raw s = (Returns r, s')" and "length raw \<le> n"
  shows "length r = n \<and> prefix raw r"
  using assms
proof (induction device n raw s rule: random_raw.induct)
  case (1 device n raw s)
  show ?case
  proof (cases "length raw < n")
    case False
    with 1 show ?thesis by (simp add: random_raw.simps [of device n raw s])
  next
    case True
    with "1.prems" obtain v s2 where v: "device s = (Returns v, s2)"
      and r: "random_raw device n (raw @ take (n - length raw) (le_bytes v)) s2 = (Returns r, s')"
      by (auto simp: random_raw.simps [of device n raw s] split: prod.splits outcome.splits)
    have "length r = n \<and> prefix (raw @ take (n - length raw) (le_bytes v)) r"
      by (rule "1.IH" [OF True v [symmetric] refl r]) (use "1.prems" in simp)
    then show ?thesis by (meson append_prefixD)
  qed
qed

lemma random_raw_returns:
  "\<forall>s. \<exists>v s'. device s = (Returns v, s') \<Longrightarrow> \<exists>r s'. random_raw device n raw s = (Returns r, s')"
proof (induction device n raw s rule: random_raw.induct)
  case (1 device n raw s)
  from "1.prems" obtain v s2 where v: "device s = (Returns v, s2)" by blast
  with 1 show ?case by (auto simp: random_raw.simps [of device n raw s])
qed

lemma RandomUrlSafe_returns:
  assumes "\<forall>s. \<exists>v s'. device s = (Returns v, s')"
  shows "\<exists>r s'. RandomUrlSafe device n s = (Returns r, s')"
proof -
  obtain r s' where "random_raw device n [] s = (Returns r, s')"
    using random_raw_returns [OF assms] by blast
  then show ?thesis by (simp add: RandomUrlSafe_def)
qed

lemma RandomUrlSafe_spec:
  assumes "RandomUrlSafe device n s = (Returns r, s')"
  shows "length r = (4 * n + 2) div 3" and "set r \<subseteq> set b64_alphabet"
proof -
  from assms obtain raw where "random_raw device n [] s = (Returns raw, s')" and "r = Base64Url raw"
    unfolding RandomUrlSafe_def by (auto elim!: bindp_ReturnsE)
  with random_raw_spec show "length r = (4 * n + 2) div 3" and "set r \<subseteq> set b64_alphabet"
    by (force simp: length_Base64Url, simp add: set_Base64Url)
qed


section \<open>Properties\<close>

text \<open>C36: Base64url without padding loses nothing: the decoder gives back exactly the encoded bytes,
  the text has one character per six bits started and only characters of the URL-safe
  alphabet.\<close>

theorem base64url_roundtrip:
  "Base64UrlDecode (Base64Url s) = s \<and> length (Base64Url s) = (4 * length s + 2) div 3 \<and>
     set (Base64Url s) \<subseteq> set b64_alphabet"
  by (simp add: Base64UrlDecode_def b64_decode_Base64Url length_Base64Url set_Base64Url)

end
