(* ===== verification/Tokens.thy ===== *)
theory Tokens
  imports Discovery Pkce
begin

text \<open>
  Token answers (\<open>oidc/src/oidc_core.cpp\<close>): \<open>ParseTokenResponse\<close>, the \<open>PostGrant\<close> every
  grant goes through, \<open>ParsePlatformToken\<close> for the platforms' identity services, and
  \<open>FinishExchange\<close>, which decides what an exchange may hand on. \<open>now\<close> is the value
  \<open>NowSeconds()\<close> gives where the code reads the clock.
\<close>

record TokenSet =
  access_token :: string
  refresh_token :: string
  expires_at :: int
  issued_token_type :: string
  token_type :: string
  ts_error :: string
  error_code :: string

definition TokenSet0 :: TokenSet where
  "TokenSet0 = \<lparr>access_token = [], refresh_token = [], expires_at = 0, issued_token_type = [],
     token_type = [], ts_error = [], error_code = []\<rparr>"

definition TokenSet_Ok :: "TokenSet \<Rightarrow> bool" where
  "TokenSet_Ok t \<longleftrightarrow> ts_error t = [] \<and> access_token t \<noteq> []"

definition A_YEAR :: int where
  "A_YEAR = 366 * 86400"


section \<open>\<open>ParseTokenResponse\<close>\<close>

text \<open>The protocol's \<open>error\<close> and \<open>error_description\<close>, as every parser reads them.\<close>

definition protocol_code :: "('d, 'v) yyjson \<Rightarrow> string \<Rightarrow> string" where
  "protocol_code yy body = Printable (take 64 (json_Str yy body ''error''))"

definition protocol_description :: "('d, 'v) yyjson \<Rightarrow> string \<Rightarrow> string" where
  "protocol_description yy body = Printable (json_Str yy body ''error_description'')"

definition ParseTokenResponse :: "('d, 'v) yyjson \<Rightarrow> int \<Rightarrow> HttpResult \<Rightarrow> TokenSet" where
  "ParseTokenResponse yy now response =
     (if hr_error response \<noteq> [] then TokenSet0\<lparr>ts_error := hr_error response\<rparr>
      else
        (let body = hr_body response in
         if HttpResult_Ok response then
           (let expires_in = json_Int yy body ''expires_in'';
                expires_in = (if expires_in > A_YEAR then A_YEAR else expires_in);
                out = TokenSet0\<lparr>access_token := json_Str yy body ''access_token'',
                  refresh_token := json_Str yy body ''refresh_token'',
                  issued_token_type := json_Str yy body ''issued_token_type'',
                  token_type := json_Str yy body ''token_type'',
                  expires_at := (if expires_in > 0 then now + expires_in else 0)\<rparr>
            in if access_token out = []
               then out\<lparr>ts_error := ''the token endpoint answered 2xx without an access_token''\<rparr>
               else out)
         else
           (let code = protocol_code yy body; description = protocol_description yy body
            in TokenSet0\<lparr>error_code := code,
                 ts_error := (if code = [] then ''HTTP '' @ to_string (hr_status response) @ '' from the token endpoint''
                              else code @ (if description = [] then [] else '': '' @ description))\<rparr>)))"


section \<open>\<open>PostGrant\<close>\<close>

definition no_endpoint_error :: "Endpoints \<Rightarrow> string \<Rightarrow> string" where
  "no_endpoint_error ep none = (if ep_error ep = [] then none else ep_error ep)"

definition hide_answer :: "HttpResult \<Rightarrow> string list \<Rightarrow> HttpResult option" where
  "hide_answer response hide = map_option (\<lambda>body. response\<lparr>hr_body := body\<rparr>) (HideIn (hr_body response) hide)"

definition PostGrant :: "('t, 'w) env \<Rightarrow> ('d, 'v) yyjson \<Rightarrow> Endpoints \<Rightarrow> smap \<Rightarrow> string list \<Rightarrow>
    (('t, 'w) process, TokenSet) prog" where
  "PostGrant env yy ep params hide =
     (if \<not> Endpoints_Ok ep
      then ret (TokenSet0\<lparr>ts_error := no_endpoint_error ep ''no token endpoint''\<rparr>)
      else bindp (HttpPostForm env (token_endpoint ep) params) (\<lambda>response.
           bindp (if HttpResult_Ok response then ret response else liftp (hide_answer response hide)) (\<lambda>response.
           bindp (NowSeconds env) (\<lambda>now.
           ret (ParseTokenResponse yy now response)))))"


section \<open>\<open>ParsePlatformToken\<close>\<close>

text \<open>\<open>std::strtoll(text, nullptr, 10)\<close>: white space, a sign, digits; a value out of range is the
  nearest one of \<open>long long\<close>.\<close>

definition strtoll :: "string \<Rightarrow> int" where
  "strtoll s =
     (let s = dropWhile isspace s;
          negative = (s \<noteq> [] \<and> hd s = CHR ''-'');
          s = (if s \<noteq> [] \<and> (hd s = CHR ''-'' \<or> hd s = CHR ''+'') then tl s else s);
          v = int (dec_value (takeWhile isdigit s))
      in max (- (2 ^ 63)) (min (2 ^ 63 - 1) (if negative then - v else v)))"

definition platform_number :: "('d, 'v) yyjson \<Rightarrow> string \<Rightarrow> string \<Rightarrow> int" where
  "platform_number yy body key =
     (let as_int = json_Int yy body key; as_text = json_Str yy body key
      in if as_int > 0 then as_int else if as_text = [] then 0 else strtoll as_text)"

text \<open>The middle part of \<open>a.b.c\<close>, decoded: the claims of a JWT.\<close>

definition jwt_claims :: "string \<Rightarrow> string option" where
  "jwt_claims token = (case find_at ''.'' token of
     None \<Rightarrow> None
   | Some first \<Rightarrow> (case find_from ''.'' token (first + 1) of
       None \<Rightarrow> None
     | Some second \<Rightarrow> Some (Base64UrlDecode (take (second - first - 1) (drop (first + 1) token)))))"

definition platform_expiry :: "('d, 'v) yyjson \<Rightarrow> int \<Rightarrow> string \<Rightarrow> string \<Rightarrow> int" where
  "platform_expiry yy now body token =
     (let expires_in = platform_number yy body ''expires_in'';
          expires_on = platform_number yy body ''expires_on''
      in if expires_in > 0 then now + min expires_in A_YEAR
         else if expires_on > now then min expires_on (now + A_YEAR)
         else if token \<noteq> [] then
           (case jwt_claims token of
              None \<Rightarrow> 0
            | Some claims \<Rightarrow>
                (let exp = json_Int yy claims ''exp''
                 in if exp > now then min exp (now + A_YEAR) else 0))
         else 0)"

definition platform_token :: "('d, 'v) yyjson \<Rightarrow> int \<Rightarrow> HttpResult \<Rightarrow> string \<Rightarrow> TokenSet" where
  "platform_token yy now response source =
     (if hr_error response \<noteq> []
      then TokenSet0\<lparr>ts_error := source @ '': '' @ hr_error response, error_code := ''unreachable''\<rparr>
      else
        (let body = hr_body response in
         if \<not> HttpResult_Ok response then
           (let code = protocol_code yy body; description = protocol_description yy body
            in TokenSet0\<lparr>error_code := code,
                 ts_error := source @ '' answered HTTP '' @ to_string (hr_status response)
                   @ (if code = [] then [] else '': '' @ code)
                   @ (if description = [] then [] else '' - '' @ description)\<rparr>)
         else
           (let token = json_Str yy body ''access_token'';
                token = (if token = [] then json_Str yy body ''value'' else token);
                out = TokenSet0\<lparr>access_token := token, expires_at := platform_expiry yy now body token\<rparr>
            in if token = [] then out\<lparr>ts_error := source @ '' answered without a token''\<rparr> else out)))"

definition ParsePlatformToken :: "('d, 'v) yyjson \<Rightarrow> int \<Rightarrow> HttpResult \<Rightarrow> string \<Rightarrow> string list \<Rightarrow>
    TokenSet option" where
  "ParsePlatformToken yy now response source hide =
     map_option (\<lambda>response. platform_token yy now response source) (hide_answer response hide)"


section \<open>\<open>FinishExchange\<close>\<close>

definition ACCESS_TOKEN_TYPE :: string where
  "ACCESS_TOKEN_TYPE = ''urn:ietf:params:oauth:token-type:access_token''"

definition REFRESH_TOKEN_TYPE :: string where
  "REFRESH_TOKEN_TYPE = ''urn:ietf:params:oauth:token-type:refresh_token''"

definition wrong_type_message :: string where
  "wrong_type_message = ''the exchange answered with something other than an access token''"

definition strict_shape_message :: string where
  "strict_shape_message = ''the exchange answered with a refresh token and no access token beside it''"

definition Refused :: "string \<Rightarrow> string \<Rightarrow> TokenSet" where
  "Refused code message = TokenSet0\<lparr>error_code := code, ts_error := message\<rparr>"

definition redact_error :: "TokenSet \<Rightarrow> string \<Rightarrow> TokenSet option" where
  "redact_error t presented = map_option (\<lambda>e. t\<lparr>ts_error := e\<rparr>) (Redact (ts_error t) presented)"

definition redact_code :: "TokenSet \<Rightarrow> string \<Rightarrow> TokenSet option" where
  "redact_code t presented = map_option (\<lambda>e. t\<lparr>error_code := e\<rparr>) (Redact (error_code t) presented)"

text \<open>\<open>N_A\<close>, in any case.\<close>

definition not_access_token :: "TokenSet \<Rightarrow> bool" where
  "not_access_token t \<longleftrightarrow> length (token_type t) = 3 \<and> tolower (token_type t ! 0) = CHR ''n''
     \<and> token_type t ! 1 = CHR ''_'' \<and> tolower (token_type t ! 2) = CHR ''a''"

definition FinishExchange :: "TokenSet \<Rightarrow> string \<Rightarrow> bool \<Rightarrow> TokenSet option" where
  "FinishExchange out presented with_refresh =
     (let type_ok = (issued_token_type out = [] \<or> issued_token_type out = ACCESS_TOKEN_TYPE
            \<or> with_refresh \<and> issued_token_type out = REFRESH_TOKEN_TYPE)
      in if TokenSet_Ok out \<and> (\<not> type_ok \<or> not_access_token out)
         then Some (Refused ''invalid_token_type'' wrong_type_message)
         else if TokenSet_Ok out \<and> issued_token_type out = REFRESH_TOKEN_TYPE
           \<and> (refresh_token out = [] \<or> refresh_token out = access_token out)
         then Some (Refused ''invalid_token_type'' strict_shape_message)
         else
           (let out' = (if \<not> with_refresh \<or> \<not> TokenSet_Ok out then out\<lparr>refresh_token := []\<rparr> else out)
            in if \<not> TokenSet_Ok out
               then redact_error (out'\<lparr>access_token := [], issued_token_type := []\<rparr>) presented
               else Some out'))"


section \<open>Lemmas\<close>

lemma protocol_code_length: "length (protocol_code yy body) \<le> 64"
  by (simp add: protocol_code_def Printable_def)

lemma protocol_description_length: "length (protocol_description yy body) \<le> 512"
  by (simp add: protocol_description_def length_Printable)

lemma ParseTokenResponse_Ok:
  "TokenSet_Ok (ParseTokenResponse yy now r) \<longleftrightarrow>
     HttpResult_Ok r \<and> json_Str yy (hr_body r) ''access_token'' \<noteq> []"
  by (auto simp: ParseTokenResponse_def Let_def TokenSet_Ok_def TokenSet0_def HttpResult_Ok_def)

lemma ParseTokenResponse_failure:
  "\<not> TokenSet_Ok (ParseTokenResponse yy now r) \<Longrightarrow> ts_error (ParseTokenResponse yy now r) \<noteq> []"
  by (auto simp: ParseTokenResponse_def Let_def TokenSet_Ok_def TokenSet0_def HttpResult_Ok_def)

lemma ParseTokenResponse_expiry:
  "expires_at (ParseTokenResponse yy now r) = 0 \<or>
     now < expires_at (ParseTokenResponse yy now r) \<and>
     expires_at (ParseTokenResponse yy now r) \<le> now + A_YEAR"
  by (auto simp: ParseTokenResponse_def Let_def TokenSet0_def A_YEAR_def)

lemma platform_expiry_bounds:
  "platform_expiry yy now body token = 0 \<or>
     now < platform_expiry yy now body token \<and> platform_expiry yy now body token \<le> now + A_YEAR"
  unfolding platform_expiry_def Let_def
  by (cases "jwt_claims token") (simp_all add: A_YEAR_def)

lemma strtoll_range: "- (2 ^ 63) \<le> strtoll s \<and> strtoll s < 2 ^ 63"
  by (simp add: strtoll_def Let_def)

lemma Refused_not_Ok [simp]: "\<not> TokenSet_Ok (Refused code message)"
  by (simp add: Refused_def TokenSet_Ok_def TokenSet0_def)

lemma Refused_empty [simp]:
  "access_token (Refused code message) = []" "refresh_token (Refused code message) = []"
  "issued_token_type (Refused code message) = []" "ts_error (Refused code message) = message"
  "error_code (Refused code message) = code"
  by (simp_all add: Refused_def TokenSet0_def)

lemma hide_answer_error [simp]: "hide_answer r hide = Some r' \<Longrightarrow> hr_error r' = hr_error r \<and> hr_status r' = hr_status r"
  by (auto simp: hide_answer_def)

text \<open>What \<open>FinishExchange\<close> may hand on.\<close>

lemma FinishExchange_Ok:
  assumes "FinishExchange t p with_refresh = Some out" and "TokenSet_Ok out"
  shows "TokenSet_Ok t" and "out = (if with_refresh then t else t\<lparr>refresh_token := []\<rparr>)"
    and "\<not> not_access_token t"
    and "issued_token_type t \<in> {[], ACCESS_TOKEN_TYPE} \<or>
      with_refresh \<and> issued_token_type t = REFRESH_TOKEN_TYPE \<and>
      refresh_token t \<noteq> [] \<and> refresh_token t \<noteq> access_token t"
proof -
  have ok: "TokenSet_Ok t"
  proof (rule ccontr)
    assume "\<not> TokenSet_Ok t"
    with assms(1) have "access_token out = []"
      by (auto simp: FinishExchange_def Let_def redact_error_def)
    with assms(2) show False by (simp add: TokenSet_Ok_def)
  qed
  then show "TokenSet_Ok t" .
  from assms ok show "out = (if with_refresh then t else t\<lparr>refresh_token := []\<rparr>)"
    and "\<not> not_access_token t"
    by (auto simp: FinishExchange_def Let_def split: if_splits)
  from assms ok show "issued_token_type t \<in> {[], ACCESS_TOKEN_TYPE} \<or>
      with_refresh \<and> issued_token_type t = REFRESH_TOKEN_TYPE \<and>
      refresh_token t \<noteq> [] \<and> refresh_token t \<noteq> access_token t"
    by (auto simp: FinishExchange_def Let_def split: if_splits)
qed

lemma FinishExchange_failed:
  assumes "FinishExchange t p with_refresh = Some out" and "\<not> TokenSet_Ok out"
  shows "access_token out = [] \<and> refresh_token out = [] \<and> issued_token_type out = []"
proof (cases "TokenSet_Ok t")
  case True
  then have "TokenSet_Ok (t\<lparr>refresh_token := []\<rparr>)" by (simp add: TokenSet_Ok_def)
  with True assms show ?thesis by (auto simp: FinishExchange_def Let_def split: if_split_asm)
next
  case False
  with assms show ?thesis by (auto simp: FinishExchange_def Let_def redact_error_def)
qed


section \<open>Properties\<close>

text \<open>Every answer of a token endpoint is either a grant or an explained failure: the result is usable
  exactly when the answer was a 2xx with an access token, an unusable result always carries an
  error text, and the expiry is either absent (0) or after the reading of the clock and at most
  366 days ahead, whatever number the server sent.\<close>

theorem ParseTokenResponse_total:
  "(TokenSet_Ok (ParseTokenResponse yy now r) \<longleftrightarrow>
      HttpResult_Ok r \<and> json_Str yy (hr_body r) ''access_token'' \<noteq> [])
   \<and> (TokenSet_Ok (ParseTokenResponse yy now r) \<longleftrightarrow> ts_error (ParseTokenResponse yy now r) = [])
   \<and> (expires_at (ParseTokenResponse yy now r) = 0 \<or>
      now < expires_at (ParseTokenResponse yy now r) \<and>
      expires_at (ParseTokenResponse yy now r) \<le> now + 366 * 86400)"
proof -
  have "TokenSet_Ok (ParseTokenResponse yy now r) \<longleftrightarrow> ts_error (ParseTokenResponse yy now r) = []"
    using ParseTokenResponse_failure [of yy now r] by (auto simp: TokenSet_Ok_def)
  then show ?thesis using ParseTokenResponse_expiry [of yy now r] ParseTokenResponse_Ok [of yy now r]
    by (simp add: A_YEAR_def)
qed

text \<open>C9: What \<open>FinishExchange\<close> lets through: a usable result is the answer itself, of the access token
  type (or, when a refresh token was asked for, of the refresh token type with a distinct
  refresh token beside the access token), never one marked \<open>N_A\<close>, and without the refresh token
  unless one was asked for; anything else carries no token at all, and when the answer was itself
  a failure, its error text does not quote a \<open>secret_like\<close> presented token.\<close>

theorem FinishExchange_safe:
  assumes "FinishExchange t presented with_refresh = Some out"
  shows "(if TokenSet_Ok out
      then TokenSet_Ok t \<and> \<not> not_access_token t
        \<and> out = (if with_refresh then t else t\<lparr>refresh_token := []\<rparr>)
        \<and> (issued_token_type t \<in> {[], ACCESS_TOKEN_TYPE} \<or>
           with_refresh \<and> issued_token_type t = REFRESH_TOKEN_TYPE \<and>
           refresh_token t \<noteq> [] \<and> refresh_token t \<noteq> access_token t)
      else access_token out = [] \<and> refresh_token out = [] \<and> issued_token_type out = []
        \<and> (TokenSet_Ok t \<or> (secret_like presented \<longrightarrow> \<not> sublist presented (ts_error out))))"
proof (cases "TokenSet_Ok out")
  case True
  from FinishExchange_Ok [OF assms this] True show ?thesis by (simp only: if_True) blast
next
  case False
  have "\<not> sublist presented (ts_error out)" if "\<not> TokenSet_Ok t" and "secret_like presented"
    using assms that by (auto simp: FinishExchange_def Let_def redact_error_def dest: Redact_removes)
  with False FinishExchange_failed [OF assms False] show ?thesis by simp blast
qed

theorem FinishExchange_safe_witness:
  "\<not> sublist ''subject-token''
     (ts_error (the (FinishExchange (Refused ''invalid_grant'' ''bad subject-token'') ''subject-token'' False)))"
proof -
  let ?t = "Refused ''invalid_grant'' ''bad subject-token''"
  have secret: "secret_like ''subject-token''" by (simp add: secret_like_def)
  then obtain e where e: "Redact ''bad subject-token'' ''subject-token'' = Some e"
    using Redact_returns by blast
  then have "FinishExchange ?t ''subject-token'' False =
      Some (?t\<lparr>refresh_token := [], access_token := [], issued_token_type := [], ts_error := e\<rparr>)"
    by (simp add: FinishExchange_def Let_def redact_error_def)
  from FinishExchange_safe [OF this] secret this show ?thesis
    by (simp add: TokenSet_Ok_def Refused_def TokenSet0_def)
qed

text \<open>A platform's token answer that is used is a 2xx with a token, and its expiry, from
  \<open>expires_in\<close>, \<open>expires_on\<close> (numbers or text of any length) or the token's own \<open>exp\<close> claim, is
  absent or lies after the reading of the clock and at most 366 days ahead; every other answer
  carries an error text and no token.\<close>

theorem ParsePlatformToken_bounded:
  assumes "ParsePlatformToken yy now r source hide = Some out"
  shows "(TokenSet_Ok out \<longrightarrow> HttpResult_Ok r) \<and> (TokenSet_Ok out \<longleftrightarrow> access_token out \<noteq> [])
    \<and> (TokenSet_Ok out \<or> ts_error out \<noteq> [])
    \<and> (expires_at out = 0 \<or> now < expires_at out \<and> expires_at out \<le> now + 366 * 86400)"
proof -
  define body where "body = the (HideIn (hr_body r) hide)"
  from assms have out: "out = platform_token yy now (r\<lparr>hr_body := body\<rparr>) source"
    by (cases "HideIn (hr_body r) hide") (simp_all add: ParsePlatformToken_def hide_answer_def body_def)
  show ?thesis
  proof (cases "HttpResult_Ok (r\<lparr>hr_body := body\<rparr>)")
    case True
    then have r: "HttpResult_Ok r" "hr_error r = []" by (simp_all add: HttpResult_Ok_def)
    define token where "token = (if json_Str yy body ''access_token'' = []
      then json_Str yy body ''value'' else json_Str yy body ''access_token'')"
    have "out = TokenSet0\<lparr>access_token := token, expires_at := platform_expiry yy now body token,
        ts_error := (if token = [] then source @ '' answered without a token'' else [])\<rparr>"
      using True r by (simp add: out platform_token_def Let_def token_def [symmetric]) (simp add: TokenSet0_def)
    then show ?thesis using r(1) platform_expiry_bounds [of yy now body token]
      by (simp add: TokenSet_Ok_def TokenSet0_def A_YEAR_def)
  qed (simp add: out platform_token_def TokenSet_Ok_def TokenSet0_def Let_def)
qed

theorem ParsePlatformToken_bounded_witness:
  "expires_at (the (ParsePlatformToken
     (table_yyjson [(''b'', [(''access_token'', JStr ''t''), (''expires_in'', JStr ''99999999999999999999'')])])
     1000 \<lparr>hr_status = 200, hr_body = ''b'', hr_error = []\<rparr> ''IMDS'' [])) \<le> 1000 + 366 * 86400"
proof -
  let ?yy = "table_yyjson [(''b'', [(''access_token'', JStr ''t''), (''expires_in'', JStr ''99999999999999999999'')])]"
  let ?r = "\<lparr>hr_status = 200, hr_body = ''b'', hr_error = []\<rparr>"
  obtain out where "ParsePlatformToken ?yy 1000 ?r ''IMDS'' [] = Some out"
    by (simp only: ParsePlatformToken_def hide_answer_def HideIn.simps option.map)
  with ParsePlatformToken_bounded [OF this] show ?thesis by auto
qed

end
