(* ===== verification/Assertion.thy ===== *)
theory Assertion
  imports Tokens
begin

text \<open>
  The client assertion of RFC 7523 (\<open>oidc/src/oidc_core.cpp\<close>: \<open>JsonQuote\<close>,
  \<open>SignClientAssertion\<close>). OpenSSL is the parameter \<open>openssl\<close>, over its own type of keys: reading an
  unencrypted PEM key (no passphrase is ever given), the key's kind and size, reading a PEM
  certificate (\<open>None\<close>) and its DER encoding (\<open>Some None\<close> when it cannot be encoded), the digests,
  signing (which may draw randomness), and the two numbers of a DER signature.
\<close>

datatype key_kind = Rsa | Ec | OtherKey

record ('k, 'w) openssl =
  read_private_key :: "string \<Rightarrow> 'k option"
  key_kind :: "'k \<Rightarrow> key_kind"
  key_bits :: "'k \<Rightarrow> int"
  key_is_p256 :: "'k \<Rightarrow> bool"
  certificate_der :: "string \<Rightarrow> string option option"
  digest_sha1 :: "string \<Rightarrow> string"
  digest_sha256 :: "string \<Rightarrow> string"
  digest_sign :: "'k \<Rightarrow> string \<Rightarrow> ('w, string option) prog"
  ecdsa_numbers :: "string \<Rightarrow> (nat \<times> nat) option"

record SignedAssertion =
  sa_jwt :: string
  sa_error :: string

definition SignedAssertion0 :: SignedAssertion where
  "SignedAssertion0 = \<lparr>sa_jwt = [], sa_error = []\<rparr>"


section \<open>\<open>JsonQuote\<close>\<close>

definition hex4 :: "nat \<Rightarrow> string" where
  "hex4 n = map (\<lambda>k. ''0123456789abcdef'' ! (n div 16 ^ k mod 16)) [3, 2, 1, 0]"

definition json_escape :: "char \<Rightarrow> string" where
  "json_escape c =
     (if c = CHR 0x22 then [CHR 0x5C, CHR 0x22]
      else if c = CHR 0x5C then [CHR 0x5C, CHR 0x5C]
      else if code_of c < 0x20 then [CHR 0x5C, CHR ''u''] @ hex4 (code_of c)
      else [c])"

definition JsonQuote :: "string \<Rightarrow> string" where
  "JsonQuote text = CHR 0x22 # concat (map json_escape text) @ [CHR 0x22]"


section \<open>\<open>SignClientAssertion\<close>\<close>

text \<open>\<open>BN_bn2binpad(n, buffer, 32)\<close> into zero bytes: a number that does not fit leaves them.\<close>

definition bn2binpad32 :: "nat \<Rightarrow> string" where
  "bn2binpad32 n = (if n < 2 ^ 256 then map (\<lambda>i. char_of (n div 256 ^ i mod 256)) (rev [0..<32])
     else replicate 32 (CHR 0x00))"

text \<open>The algorithm a key signs with, or why it may not sign.\<close>

definition key_algorithm :: "('k, 'w) openssl \<Rightarrow> 'k \<Rightarrow> string + string" where
  "key_algorithm ssl key =
     (if key_kind ssl key = Rsa then
        (if key_bits ssl key < 2048 then Inl ''the RSA key is shorter than 2048 bits'' else Inr ''RS256'')
      else if key_kind ssl key = Ec \<and> key_is_p256 ssl key then Inr ''ES256''
      else Inl ''the private key is neither RSA nor EC P-256'')"

text \<open>The certificate's thumbprints in the header; nothing without a certificate.\<close>

definition certificate_header :: "('k, 'w) openssl \<Rightarrow> string \<Rightarrow> string + string" where
  "certificate_header ssl certificate_pem =
     (if certificate_pem = [] then Inr []
      else (case certificate_der ssl certificate_pem of
          None \<Rightarrow> Inl ''the certificate is not a PEM certificate''
        | Some None \<Rightarrow> Inl ''the certificate could not be encoded''
        | Some (Some der) \<Rightarrow>
            Inr ('','' @ quoted ''x5t'' @ '':'' @ quoted (Base64Url (digest_sha1 ssl der))
              @ '','' @ quoted ''x5t#S256'' @ '':'' @ quoted (Base64Url (digest_sha256 ssl der)))))"

definition assertion_header :: "string \<Rightarrow> string \<Rightarrow> string \<Rightarrow> string" where
  "assertion_header alg key_id certificate =
     ''{'' @ quoted ''alg'' @ '':'' @ quoted alg @ '','' @ quoted ''typ'' @ '':'' @ quoted ''JWT''
     @ (if key_id = [] then [] else '','' @ quoted ''kid'' @ '':'' @ JsonQuote key_id)
     @ certificate @ ''}''"

definition assertion_payload :: "string \<Rightarrow> string \<Rightarrow> string \<Rightarrow> int \<Rightarrow> string" where
  "assertion_payload client_id audience jti now =
     ''{'' @ quoted ''iss'' @ '':'' @ JsonQuote client_id @ '','' @ quoted ''sub'' @ '':'' @ JsonQuote client_id
     @ '','' @ quoted ''aud'' @ '':'' @ JsonQuote audience @ '','' @ quoted ''jti'' @ '':'' @ quoted jti
     @ '','' @ quoted ''iat'' @ '':'' @ to_string now @ '','' @ quoted ''exp'' @ '':'' @ to_string (now + 300) @ ''}''"

definition signing_failed :: string where
  "signing_failed = ''signing the client assertion failed''"

text \<open>JWS wants \<open>r || s\<close> for ES256, where OpenSSL gives a DER structure.\<close>

definition jws_signature :: "('k, 'w) openssl \<Rightarrow> string \<Rightarrow> string \<Rightarrow> string option" where
  "jws_signature ssl alg signature =
     (if alg = ''ES256''
      then map_option (\<lambda>(r, s). bn2binpad32 r @ bn2binpad32 s) (ecdsa_numbers ssl signature)
      else Some signature)"

definition assertion_error :: "string \<Rightarrow> SignedAssertion" where
  "assertion_error e = SignedAssertion0\<lparr>sa_error := e\<rparr>"

definition SignClientAssertion :: "('t, 'w) env \<Rightarrow> ('k, 'w) openssl \<Rightarrow> string \<Rightarrow> string \<Rightarrow> string \<Rightarrow>
    string \<Rightarrow> string \<Rightarrow> (('t, 'w) process, SignedAssertion) prog" where
  "SignClientAssertion env ssl client_id audience private_key_pem key_id certificate_pem =
     (if build env \<noteq> Tls
      then ret (assertion_error ''a signed client assertion needs a TLS-enabled build (DUCKDB_EXT_COMMON_OIDC_TLS)'')
      else if client_id = [] \<or> audience = []
      then ret (assertion_error ''a client assertion needs a client id and an audience'')
      else (case read_private_key ssl private_key_pem of
          None \<Rightarrow> ret (assertion_error ''the private key is not an unencrypted PEM key'')
        | Some key \<Rightarrow> (case key_algorithm ssl key of
            Inl e \<Rightarrow> ret (assertion_error e)
          | Inr alg \<Rightarrow> (case certificate_header ssl certificate_pem of
              Inl e \<Rightarrow> ret (assertion_error e)
            | Inr certificate \<Rightarrow>
                bindp (NowSeconds env) (\<lambda>now.
                bindp (outp (RandomUrlSafe (random_device env) 18)) (\<lambda>jti.
                let input = Base64Url (assertion_header alg key_id certificate) @ ''.''
                      @ Base64Url (assertion_payload client_id audience jti now)
                in bindp (outp (digest_sign ssl key input)) (\<lambda>signature.
                ret (case signature of
                    None \<Rightarrow> assertion_error signing_failed
                  | Some signature \<Rightarrow> (case jws_signature ssl alg signature of
                      None \<Rightarrow> assertion_error signing_failed
                    | Some signature \<Rightarrow> SignedAssertion0\<lparr>sa_jwt := input @ ''.'' @ Base64Url signature\<rparr>)))))))))"


section \<open>Reading a quoted string back\<close>

text \<open>The reader of RFC 8259 for the escapes \<open>JsonQuote\<close> writes: the text between the quotes, with
  no control character in it, up to the closing quote at the end.\<close>

definition hex_digit :: "char \<Rightarrow> nat" where
  "hex_digit c = (if isdigit c then code_of c - 48 else code_of c - 87)"

fun json_chars :: "string \<Rightarrow> string option" where
  "json_chars [] = None"
| "json_chars (c # s) =
     (if c = CHR 0x22 then (if s = [] then Some [] else None)
      else if code_of c < 0x20 then None
      else if c \<noteq> CHR 0x5C then map_option (Cons c) (json_chars s)
      else (case s of
          e # s' \<Rightarrow>
            if e = CHR 0x22 \<or> e = CHR 0x5C then map_option (Cons e) (json_chars s')
            else if e = CHR ''u'' then
              (case s' of
                 h3 # h2 # h1 # h0 # s'' \<Rightarrow>
                   map_option (Cons (char_of (((hex_digit h3 * 16 + hex_digit h2) * 16 + hex_digit h1) * 16
                     + hex_digit h0))) (json_chars s'')
               | _ \<Rightarrow> None)
            else None
        | [] \<Rightarrow> None))"

fun json_unquote :: "string \<Rightarrow> string option" where
  "json_unquote (c # s) = (if c = CHR 0x22 then json_chars s else None)"
| "json_unquote [] = None"

lemma control_escapes:
  "list_all (\<lambda>n. n = ((hex_digit (hex4 n ! 0) * 16 + hex_digit (hex4 n ! 1)) * 16
      + hex_digit (hex4 n ! 2)) * 16 + hex_digit (hex4 n ! 3)) [0..<0x20]"
  by code_simp

lemma json_chars_escape: "json_chars (json_escape c @ s) = map_option (Cons c) (json_chars s)"
proof (cases "code_of c < 0x20")
  case True
  then have "code_of c = ((hex_digit (hex4 (code_of c) ! 0) * 16 + hex_digit (hex4 (code_of c) ! 1)) * 16
      + hex_digit (hex4 (code_of c) ! 2)) * 16 + hex_digit (hex4 (code_of c) ! 3)"
    using control_escapes by (simp add: list_all_iff)
  moreover from this have "c = char_of (((hex_digit (hex4 (code_of c) ! 0) * 16
      + hex_digit (hex4 (code_of c) ! 1)) * 16 + hex_digit (hex4 (code_of c) ! 2)) * 16
      + hex_digit (hex4 (code_of c) ! 3))"
    by (metis char_of_code_of)
  moreover have "c \<noteq> CHR 0x22" and "c \<noteq> CHR 0x5C" using True by (auto simp: code_of_def)
  ultimately show ?thesis using True
    by (simp add: json_escape_def hex4_def code_of_def)
next
  case False
  then show ?thesis by (auto simp: json_escape_def code_of_def)
qed

lemma json_unquote_JsonQuote: "json_unquote (JsonQuote s) = Some s"
proof -
  have "json_chars (concat (map json_escape s) @ [CHR 0x22]) = Some s"
    by (induction s) (simp_all add: json_chars_escape del: json_chars.simps(2),
        simp_all)
  then show ?thesis by (simp add: JsonQuote_def)
qed


section \<open>The parts of an assertion\<close>

lemma Base64Url_no_dot: "CHR ''.'' \<notin> set (Base64Url s)"
proof -
  have "CHR ''.'' \<notin> set b64_alphabet" by (simp add: b64_alphabet_def)
  with set_Base64Url show ?thesis by blast
qed

lemma jwt_claims_parts:
  "jwt_claims (Base64Url header @ ''.'' @ Base64Url payload @ ''.'' @ signature) = Some payload"
proof -
  let ?h = "Base64Url header" and ?p = "Base64Url payload"
  have "find_at ''.'' (?h @ CHR ''.'' # ?p @ CHR ''.'' # signature) = Some (length ?h)"
    by (rule find_at_single_append [OF Base64Url_no_dot])
  moreover have "find_at ''.'' (?p @ CHR ''.'' # signature) = Some (length ?p)"
    by (rule find_at_single_append [OF Base64Url_no_dot])
  ultimately show ?thesis
    by (simp add: jwt_claims_def find_from_def Base64UrlDecode_def b64_decode_Base64Url)
qed

lemma jwt_header_part:
  "Base64UrlDecode (takeWhile (\<lambda>c. c \<noteq> CHR ''.'') (Base64Url header @ ''.'' @ rest)) = header"
proof -
  have "takeWhile (\<lambda>c. c \<noteq> CHR ''.'') (Base64Url header @ ''.'' @ rest) = Base64Url header"
    using Base64Url_no_dot [of header] by (subst takeWhile_append2) auto
  then show ?thesis by (simp add: Base64UrlDecode_def b64_decode_Base64Url)
qed

lemma outp_Returns: "outp m s = (Returns x, s') \<longleftrightarrow> (\<exists>w. m (outside s) = (Returns x, w) \<and> s' = s\<lparr>outside := w\<rparr>)"
  by (auto simp: outp_def split: prod.splits)

text \<open>Every error text an assertion can fail with.\<close>

definition assertion_errors :: "string list" where
  "assertion_errors = [''a signed client assertion needs a TLS-enabled build (DUCKDB_EXT_COMMON_OIDC_TLS)'',
     ''a client assertion needs a client id and an audience'',
     ''the private key is not an unencrypted PEM key'', ''the RSA key is shorter than 2048 bits'',
     ''the private key is neither RSA nor EC P-256'', ''the certificate is not a PEM certificate'',
     ''the certificate could not be encoded'', signing_failed]"

lemma SignClientAssertion_returns:
  assumes "SignClientAssertion env ssl client_id audience pem key_id cert s = (Returns out, s')"
  shows "(\<exists>e \<in> set assertion_errors. out = assertion_error e)
    \<or> (\<exists>key alg certificate jti signature. build env = Tls \<and> client_id \<noteq> [] \<and> audience \<noteq> []
        \<and> read_private_key ssl pem = Some key \<and> key_algorithm ssl key = Inr alg
        \<and> certificate_header ssl cert = Inr certificate
        \<and> length jti = 24 \<and> set jti \<subseteq> set b64_alphabet
        \<and> out = SignedAssertion0\<lparr>sa_jwt := Base64Url (assertion_header alg key_id certificate) @ ''.''
            @ Base64Url (assertion_payload client_id audience jti (clock env (outside s))) @ ''.''
            @ Base64Url signature\<rparr>)"
    (is "?failed \<or> ?signed")
proof (cases "build env \<noteq> Tls \<or> client_id = [] \<or> audience = []")
  case True
  with assms have ?failed
    by (auto simp: SignClientAssertion_def assertion_errors_def split: if_splits)
  then show ?thesis ..
next
  case False
  show ?thesis
  proof (cases "\<exists>key alg certificate. read_private_key ssl pem = Some key \<and> key_algorithm ssl key = Inr alg
      \<and> certificate_header ssl cert = Inr certificate")
    case none: False
    with False assms have ?failed
      by (auto simp: SignClientAssertion_def key_algorithm_def certificate_header_def
          assertion_errors_def split: if_splits option.splits sum.splits)
    then show ?thesis ..
  next
    case True
    then obtain key alg certificate where key: "read_private_key ssl pem = Some key"
      "key_algorithm ssl key = Inr alg" "certificate_header ssl cert = Inr certificate" by blast
    with False assms obtain jti w where
      jti: "RandomUrlSafe (random_device env) 18 (outside s) = (Returns jti, w)"
      and out: "out = assertion_error signing_failed \<or> (\<exists>signature.
        out = SignedAssertion0\<lparr>sa_jwt := (Base64Url (assertion_header alg key_id certificate) @ ''.''
            @ Base64Url (assertion_payload client_id audience jti (clock env (outside s)))) @ ''.''
            @ Base64Url signature\<rparr>)"
      by (auto simp: SignClientAssertion_def NowSeconds_def Let_def outp_Returns
          elim!: bindp_ReturnsE split: option.splits) blast
    from out show ?thesis
    proof
      assume "out = assertion_error signing_failed"
      then have ?failed by (simp add: assertion_errors_def)
      then show ?thesis ..
    next
      assume "\<exists>signature. out = SignedAssertion0\<lparr>sa_jwt :=
            (Base64Url (assertion_header alg key_id certificate) @ ''.''
            @ Base64Url (assertion_payload client_id audience jti (clock env (outside s)))) @ ''.''
            @ Base64Url signature\<rparr>"
      then obtain signature where "out = SignedAssertion0\<lparr>sa_jwt :=
            Base64Url (assertion_header alg key_id certificate) @ ''.''
            @ Base64Url (assertion_payload client_id audience jti (clock env (outside s))) @ ''.''
            @ Base64Url signature\<rparr>" by auto
      with False key RandomUrlSafe_spec [OF jti] have ?signed by auto
      then show ?thesis ..
    qed
  qed
qed


section \<open>Properties\<close>

text \<open>C35: \<open>JsonQuote\<close> writes every byte string as a JSON string that reads back to exactly that string:
  no client id, audience or key id can end its own literal and inject a claim.\<close>

theorem JsonQuote_roundtrip: "json_unquote (JsonQuote text) = Some text"
  by (rule json_unquote_JsonQuote)


definition sample_ssl :: "(unit, unit) openssl" where
  "sample_ssl = \<lparr>read_private_key = (\<lambda>pem. Some ()), key_kind = (\<lambda>k. Rsa), key_bits = (\<lambda>k. 2048),
     key_is_p256 = (\<lambda>k. False), certificate_der = (\<lambda>pem. None), digest_sha1 = id, digest_sha256 = id,
     digest_sign = (\<lambda>k input. ret (Some ''signature'')), ecdsa_numbers = (\<lambda>s. None)\<rparr>"

lemma sample_random: "\<exists>jti. RandomUrlSafe (ret 0) n () = (Returns jti, ())"
  using RandomUrlSafe_returns [of "ret 0" n "()"] by simp


text \<open>A client assertion that fails comes back without any token, and its error is one of eight fixed
  texts: nothing of the key, the certificate or the client's data is in it.\<close>

theorem SignClientAssertion_errors:
  assumes "SignClientAssertion env ssl client_id audience pem key_id cert s = (Returns out, s')"
  shows "sa_error out = [] \<or> sa_jwt out = [] \<and> sa_error out \<in>
    {''a signed client assertion needs a TLS-enabled build (DUCKDB_EXT_COMMON_OIDC_TLS)'',
     ''a client assertion needs a client id and an audience'',
     ''the private key is not an unencrypted PEM key'', ''the RSA key is shorter than 2048 bits'',
     ''the private key is neither RSA nor EC P-256'', ''the certificate is not a PEM certificate'',
     ''the certificate could not be encoded'', signing_failed}"
proof -
  from SignClientAssertion_returns [OF assms] consider e where "out = assertion_error e"
      "e \<in> set assertion_errors"
    | jwt where "out = SignedAssertion0\<lparr>sa_jwt := jwt\<rparr>"
    by blast
  then show ?thesis
    by cases (auto simp: assertion_error_def SignedAssertion0_def assertion_errors_def)
qed

theorem SignClientAssertion_errors_witness:
  "sa_error (case SignClientAssertion (quiet_env Plain) sample_ssl ''c'' ''a'' ''key'' [] [] (start_process None ()) of
     (Returns out, s') \<Rightarrow> out | _ \<Rightarrow> SignedAssertion0) \<noteq> ''key''"
  using SignClientAssertion_errors [of "quiet_env Plain" sample_ssl "''c''" "''a''" "''key''" "[]" "[]"
      "start_process None ()"]
  by (auto simp: SignedAssertion0_def signing_failed_def split: prod.splits outcome.splits)

end
