(* ===== verification/Grants.thy ===== *)
theory Grants
  imports Assertion
begin

text \<open>
  The grants (\<open>oidc/src/oidc_core.cpp\<close>): the client's proof (\<open>AddClientAuth\<close>), \<open>ClientCredentials\<close>,
  \<open>PasswordGrant\<close>, \<open>RefreshGrant\<close>, \<open>ExchangeAuthorizationCode\<close>, the exchanges \<open>TokenExchange\<close>
  and \<open>OnBehalfOf\<close>, \<open>Revoke\<close>, and the platforms' identities \<open>ManagedIdentityToken\<close> and
  \<open>GithubActionsToken\<close>. A form is a sorted map, so the body sent is the one \<open>FormEncode\<close>
  gives. The overwriting of parameters in memory after a request has no value in this model
  and is left out.
\<close>

record ClientAuth =
  ca_client_id :: string
  ca_client_secret :: string
  ca_private_key_pem :: string
  ca_key_id :: string
  ca_certificate_pem :: string
  ca_assertion_audience :: string
  ca_assertion :: string

text \<open>The client id and secret alone, as the older overloads build it.\<close>

definition secret_auth :: "string \<Rightarrow> string \<Rightarrow> ClientAuth" where
  "secret_auth client_id client_secret = \<lparr>ca_client_id = client_id, ca_client_secret = client_secret,
     ca_private_key_pem = [], ca_key_id = [], ca_certificate_pem = [], ca_assertion_audience = [],
     ca_assertion = []\<rparr>"

definition Param :: "smap \<Rightarrow> string \<Rightarrow> string" where
  "Param params key = (case map_of params key of None \<Rightarrow> [] | Some v \<Rightarrow> v)"

text \<open>\<open>if (!value.empty()) params[key] = value\<close>\<close>

definition put_given :: "string \<Rightarrow> string \<Rightarrow> smap \<Rightarrow> smap" where
  "put_given key value params = (if value \<noteq> [] then map_put key value params else params)"

definition JWT_BEARER :: string where
  "JWT_BEARER = ''urn:ietf:params:oauth:client-assertion-type:jwt-bearer''"

text \<open>The assertion to present, empty for none: signed here, or the federated one as it is;
  \<open>Inl\<close> the error text when the key cannot sign.\<close>

definition client_assertion :: "('t, 'w) env \<Rightarrow> ('k, 'w) openssl \<Rightarrow> Endpoints \<Rightarrow> ClientAuth \<Rightarrow>
    (('t, 'w) process, string + string) prog" where
  "client_assertion env ssl ep auth =
     (if ca_private_key_pem auth \<noteq> [] then
        (let audience = (if ca_assertion_audience auth = [] then token_endpoint ep
                         else ca_assertion_audience auth)
         in bindp (SignClientAssertion env ssl (ca_client_id auth) audience (ca_private_key_pem auth)
                (ca_key_id auth) (ca_certificate_pem auth))
              (\<lambda>signed. ret (if sa_error signed \<noteq> [] then Inl (sa_error signed)
                             else Inr (sa_jwt signed))))
      else ret (Inr (ca_assertion auth)))"

definition put_proof :: "ClientAuth \<Rightarrow> string \<Rightarrow> smap \<Rightarrow> smap" where
  "put_proof auth assertion params =
     (if assertion \<noteq> []
      then map_put ''client_assertion'' assertion (map_put ''client_assertion_type'' JWT_BEARER params)
      else put_given ''client_secret'' (ca_client_secret auth) params)"

text \<open>\<open>Inl\<close> the error text, or \<open>Inr\<close> the parameters with the proof in them.\<close>

definition AddClientAuth :: "('t, 'w) env \<Rightarrow> ('k, 'w) openssl \<Rightarrow> smap \<Rightarrow> Endpoints \<Rightarrow> ClientAuth \<Rightarrow>
    (('t, 'w) process, string + smap) prog" where
  "AddClientAuth env ssl params ep auth =
     (if \<not> Endpoints_Ok ep then ret (Inl (no_endpoint_error ep ''no token endpoint''))
      else
        (let params = map_put ''client_id'' (ca_client_id auth) params
         in bindp (client_assertion env ssl ep auth)
              (\<lambda>assertion. ret (map_sum id (\<lambda>assertion. put_proof auth assertion params) assertion))))"


section \<open>Client credentials, password, refresh, code\<close>

text \<open>The overload with a secret sends it even when it is empty, and hides nothing.\<close>

definition ClientCredentialsSecret :: "('t, 'w) env \<Rightarrow> ('d, 'v) yyjson \<Rightarrow> Endpoints \<Rightarrow> string \<Rightarrow> string \<Rightarrow>
    string \<Rightarrow> (('t, 'w) process, TokenSet) prog" where
  "ClientCredentialsSecret env yy ep client_id client_secret scope =
     PostGrant env yy ep (put_given ''scope'' scope
       (smap [(''grant_type'', ''client_credentials''), (''client_id'', client_id), (''client_secret'', client_secret)])) []"

definition credentials_params :: "smap \<Rightarrow> string \<Rightarrow> smap \<Rightarrow> smap" where
  "credentials_params params scope extra = emplace_all extra (put_given ''scope'' scope params)"

definition ClientCredentials :: "('t, 'w) env \<Rightarrow> ('d, 'v) yyjson \<Rightarrow> ('k, 'w) openssl \<Rightarrow> Endpoints \<Rightarrow>
    ClientAuth \<Rightarrow> string \<Rightarrow> smap \<Rightarrow> (('t, 'w) process, TokenSet) prog" where
  "ClientCredentials env yy ssl ep auth scope extra =
     bindp (AddClientAuth env ssl (smap [(''grant_type'', ''client_credentials'')]) ep auth) (\<lambda>added.
     case added of
       Inl error \<Rightarrow> ret (TokenSet0\<lparr>ts_error := error, error_code := ''invalid_client''\<rparr>)
     | Inr params \<Rightarrow>
         (let params = credentials_params params scope extra;
              assertion = Param params ''client_assertion''
          in bindp (PostGrant env yy ep params [assertion, ca_client_secret auth]) (\<lambda>out.
             if TokenSet_Ok out then ret out
             else liftp (Option.bind (redact_error out assertion) (\<lambda>out.
                    Option.bind (redact_error out (ca_client_secret auth)) (\<lambda>out.
                    redact_code out assertion))))))"

definition PasswordGrant :: "('t, 'w) env \<Rightarrow> ('d, 'v) yyjson \<Rightarrow> Endpoints \<Rightarrow> string \<Rightarrow> string \<Rightarrow> string \<Rightarrow>
    string \<Rightarrow> string \<Rightarrow> (('t, 'w) process, TokenSet) prog" where
  "PasswordGrant env yy ep client_id client_secret username password scope =
     PostGrant env yy ep (put_given ''scope'' scope (put_given ''client_secret'' client_secret
       (smap [(''grant_type'', ''password''), (''client_id'', client_id), (''username'', username),
              (''password'', password)]))) []"

definition RefreshGrant :: "('t, 'w) env \<Rightarrow> ('d, 'v) yyjson \<Rightarrow> Endpoints \<Rightarrow> string \<Rightarrow> string \<Rightarrow> string \<Rightarrow>
    string \<Rightarrow> (('t, 'w) process, TokenSet) prog" where
  "RefreshGrant env yy ep client_id client_secret refresh scope =
     bindp (PostGrant env yy ep (put_given ''scope'' scope (put_given ''client_secret'' client_secret
         (smap [(''grant_type'', ''refresh_token''), (''client_id'', client_id),
                (''refresh_token'', refresh)]))) [refresh]) (\<lambda>out.
       if \<not> TokenSet_Ok out then liftp (redact_error out refresh) else ret out)"

definition ExchangeAuthorizationCode :: "('t, 'w) env \<Rightarrow> ('d, 'v) yyjson \<Rightarrow> Endpoints \<Rightarrow> string \<Rightarrow> string \<Rightarrow>
    string \<Rightarrow> string \<Rightarrow> (('t, 'w) process, TokenSet) prog" where
  "ExchangeAuthorizationCode env yy ep client_id code verifier redirect_uri =
     PostGrant env yy ep (smap [(''grant_type'', ''authorization_code''), (''client_id'', client_id),
       (''code'', code), (''code_verifier'', verifier), (''redirect_uri'', redirect_uri)]) []"


section \<open>Exchanges\<close>

text \<open>The common end of the two exchanges, behind the client's proof.\<close>

definition exchange_end :: "('t, 'w) env \<Rightarrow> ('d, 'v) yyjson \<Rightarrow> Endpoints \<Rightarrow> ClientAuth \<Rightarrow> smap \<Rightarrow> string \<Rightarrow>
    bool \<Rightarrow> (('t, 'w) process, TokenSet) prog" where
  "exchange_end env yy ep auth params presented with_refresh =
     (let assertion = Param params ''client_assertion''
      in bindp (PostGrant env yy ep params [presented, assertion, ca_client_secret auth]) (\<lambda>out.
         liftp (Option.bind (FinishExchange out presented with_refresh) (\<lambda>out.
           Option.bind (redact_error out assertion) (\<lambda>out.
           redact_error out (ca_client_secret auth))))))"

definition TokenExchange :: "('t, 'w) env \<Rightarrow> ('d, 'v) yyjson \<Rightarrow> ('k, 'w) openssl \<Rightarrow> Endpoints \<Rightarrow> ClientAuth \<Rightarrow>
    string \<Rightarrow> string \<Rightarrow> string \<Rightarrow> string \<Rightarrow> bool \<Rightarrow> (('t, 'w) process, TokenSet) prog" where
  "TokenExchange env yy ssl ep auth subject_token audience scope resource with_refresh =
     (if subject_token = [] then ret (Refused ''invalid_request'' ''token exchange: no subject token'')
      else if audience = [] \<and> scope = [] \<and> resource = []
      then ret (Refused ''invalid_request'' ''token exchange: no audience, resource or scope to exchange for'')
      else bindp (AddClientAuth env ssl (smap
             [(''grant_type'', ''urn:ietf:params:oauth:grant-type:token-exchange''),
              (''subject_token'', subject_token),
              (''subject_token_type'', ACCESS_TOKEN_TYPE),
              (''requested_token_type'', if with_refresh then REFRESH_TOKEN_TYPE else ACCESS_TOKEN_TYPE)]) ep auth)
           (\<lambda>added. case added of
              Inl error \<Rightarrow> ret (Refused ''invalid_client'' error)
            | Inr params \<Rightarrow>
                exchange_end env yy ep auth
                  (put_given ''resource'' resource (put_given ''scope'' scope (put_given ''audience'' audience params)))
                  subject_token with_refresh))"

definition TokenExchangeSecret :: "('t, 'w) env \<Rightarrow> ('d, 'v) yyjson \<Rightarrow> ('k, 'w) openssl \<Rightarrow> Endpoints \<Rightarrow> string \<Rightarrow>
    string \<Rightarrow> string \<Rightarrow> string \<Rightarrow> string \<Rightarrow> string \<Rightarrow> bool \<Rightarrow> (('t, 'w) process, TokenSet) prog" where
  "TokenExchangeSecret env yy ssl ep client_id client_secret =
     TokenExchange env yy ssl ep (secret_auth client_id client_secret)"

definition OnBehalfOf :: "('t, 'w) env \<Rightarrow> ('d, 'v) yyjson \<Rightarrow> ('k, 'w) openssl \<Rightarrow> Endpoints \<Rightarrow> ClientAuth \<Rightarrow>
    string \<Rightarrow> string \<Rightarrow> bool \<Rightarrow> (('t, 'w) process, TokenSet) prog" where
  "OnBehalfOf env yy ssl ep auth assertion scope with_refresh =
     (if assertion = [] \<or> scope = []
      then ret (Refused ''invalid_request'' ''on-behalf-of: an assertion and a scope are required'')
      else bindp (AddClientAuth env ssl (smap
             [(''grant_type'', ''urn:ietf:params:oauth:grant-type:jwt-bearer''),
              (''assertion'', assertion),
              (''requested_token_use'', ''on_behalf_of''),
              (''scope'', scope)]) ep auth)
           (\<lambda>added. case added of
              Inl error \<Rightarrow> ret (Refused ''invalid_client'' error)
            | Inr params \<Rightarrow> exchange_end env yy ep auth params assertion with_refresh))"

definition OnBehalfOfSecret :: "('t, 'w) env \<Rightarrow> ('d, 'v) yyjson \<Rightarrow> ('k, 'w) openssl \<Rightarrow> Endpoints \<Rightarrow> string \<Rightarrow>
    string \<Rightarrow> string \<Rightarrow> string \<Rightarrow> bool \<Rightarrow> (('t, 'w) process, TokenSet) prog" where
  "OnBehalfOfSecret env yy ssl ep client_id client_secret =
     OnBehalfOf env yy ssl ep (secret_auth client_id client_secret)"


section \<open>\<open>Revoke\<close>\<close>

record RevokeResult =
  rv_ok :: bool
  rv_error :: string
  rv_error_code :: string

definition RevokeResult0 :: RevokeResult where
  "RevokeResult0 = \<lparr>rv_ok = False, rv_error = [], rv_error_code = []\<rparr>"

definition revoke_answer :: "('d, 'v) yyjson \<Rightarrow> string \<Rightarrow> HttpResult \<Rightarrow> RevokeResult option" where
  "revoke_answer yy token response =
     (if HttpResult_Ok response then Some (RevokeResult0\<lparr>rv_ok := True\<rparr>)
      else
        (let body = hr_body response;
             out = (if hr_error response \<noteq> [] then RevokeResult0\<lparr>rv_error := hr_error response\<rparr>
               else
                 (let code = protocol_code yy body; description = protocol_description yy body
                  in RevokeResult0\<lparr>rv_error_code := code,
                       rv_error := (if code = [] then ''HTTP '' @ to_string (hr_status response) @ '' from the revocation endpoint''
                                    else code @ (if description = [] then [] else '': '' @ description))\<rparr>))
         in map_option (\<lambda>e. out\<lparr>rv_error := e\<rparr>) (Redact (rv_error out) token)))"

definition Revoke :: "('t, 'w) env \<Rightarrow> ('d, 'v) yyjson \<Rightarrow> Endpoints \<Rightarrow> string \<Rightarrow> string \<Rightarrow> string \<Rightarrow> string \<Rightarrow>
    (('t, 'w) process, RevokeResult) prog" where
  "Revoke env yy ep client_id client_secret token token_type_hint =
     (if revocation_endpoint ep = []
      then ret (RevokeResult0\<lparr>rv_error := ''the issuer advertises no revocation_endpoint (RFC 7009 not offered)''\<rparr>)
      else bindp (HttpPostForm env (revocation_endpoint ep)
             (put_given ''client_secret'' client_secret (put_given ''token_type_hint'' token_type_hint
               (smap [(''token'', token), (''client_id'', client_id)])))) (\<lambda>response.
           liftp (Option.bind (hide_answer response [token, client_secret]) (revoke_answer yy token))))"


section \<open>Platform identities\<close>

record ManagedIdentity =
  mi_resource :: string
  mi_client_id :: string
  mi_imds :: string

definition get_request :: "string \<Rightarrow> smap \<Rightarrow> int \<Rightarrow> request" where
  "get_request url headers timeout_seconds = \<lparr>rq_method = ''GET'', rq_url = url, rq_headers = headers,
     rq_body = [], rq_content_type = [], rq_timeout = timeout_seconds\<rparr>"

definition platform_send :: "('t, 'w) env \<Rightarrow> ('d, 'v) yyjson \<Rightarrow> request \<Rightarrow> string \<Rightarrow> string list \<Rightarrow>
    (('t, 'w) process, TokenSet) prog" where
  "platform_send env yy rq source hide =
     bindp (HttpSend env rq) (\<lambda>response. bindp (NowSeconds env) (\<lambda>now.
       liftp (ParsePlatformToken yy now response source hide)))"

text \<open>What a platform answered, with the platform's secret out of both error texts.\<close>

definition redact_both :: "TokenSet \<Rightarrow> string \<Rightarrow> TokenSet option" where
  "redact_both t secret = Option.bind (redact_error t secret) (\<lambda>t. redact_code t secret)"

definition query_separator :: "string \<Rightarrow> string" where
  "query_separator url = (if CHR ''?'' \<notin> set url then ''?'' else ''&'')"

definition ManagedIdentityToken :: "('t, 'w) env \<Rightarrow> ('d, 'v) yyjson \<Rightarrow> ManagedIdentity \<Rightarrow> int \<Rightarrow>
    (('t, 'w) process, TokenSet) prog" where
  "ManagedIdentityToken env yy identity timeout_seconds s =
     (if mi_resource identity = []
      then ret (TokenSet0\<lparr>ts_error := ''managed identity: no resource to ask a token for''\<rparr>) s
      else
        (case (getenv env (outside s) ''IDENTITY_ENDPOINT'', getenv env (outside s) ''IDENTITY_HEADER'') of
           (Some (e # endpoint), Some (c # secret)) \<Rightarrow>
             (let endpoint = e # endpoint; secret = c # secret
              in if \<not> LocalEndpoint endpoint
                 then ret (TokenSet0\<lparr>ts_error := ''managed identity: IDENTITY_ENDPOINT is not a loopback or link-local address - refused''\<rparr>) s
                 else
                   (let query = put_given ''client_id'' (mi_client_id identity)
                          (smap [(''api-version'', ''2019-08-01''), (''resource'', mi_resource identity)]);
                        url = endpoint @ query_separator endpoint @ FormEncode query
                    in bindp (platform_send env yy (get_request url [(''X-IDENTITY-HEADER'', secret)] timeout_seconds)
                           ''the managed identity endpoint'' [secret])
                         (\<lambda>from_platform. liftp (redact_both from_platform secret)) s))
         | _ \<Rightarrow>
             (if \<not> LocalEndpoint (mi_imds identity)
              then ret (TokenSet0\<lparr>ts_error := ''managed identity: the instance metadata endpoint must be loopback or link-local''\<rparr>) s
              else
                (let query = put_given ''client_id'' (mi_client_id identity)
                       (smap [(''api-version'', ''2018-02-01''), (''resource'', mi_resource identity)])
                 in platform_send env yy (get_request
                        (mi_imds identity @ ''/metadata/identity/oauth2/token?'' @ FormEncode query)
                        [(''Metadata'', ''true'')] timeout_seconds)
                      ''the Azure instance metadata service'' [] s))))"

definition GithubActionsToken :: "('t, 'w) env \<Rightarrow> ('d, 'v) yyjson \<Rightarrow> string \<Rightarrow> int \<Rightarrow>
    (('t, 'w) process, TokenSet) prog" where
  "GithubActionsToken env yy audience timeout_seconds s =
     (case (getenv env (outside s) ''ACTIONS_ID_TOKEN_REQUEST_URL'',
            getenv env (outside s) ''ACTIONS_ID_TOKEN_REQUEST_TOKEN'') of
        (Some (u # url), Some (c # bearer)) \<Rightarrow>
          (let request_url = u # url; bearer = c # bearer
           in if \<not> prefix ''https://'' request_url \<and> \<not> LocalEndpoint request_url
              then ret (TokenSet0\<lparr>ts_error := ''GitHub Actions: ACTIONS_ID_TOKEN_REQUEST_URL is neither https nor loopback - refused''\<rparr>) s
              else
                (let request_url = (if audience \<noteq> []
                       then request_url @ query_separator request_url @ FormEncode (smap [(''audience'', audience)])
                       else request_url)
                 in bindp (platform_send env yy
                        (get_request request_url [(''Authorization'', ''bearer '' @ bearer)] timeout_seconds)
                        ''GitHub Actions' token service'' [bearer])
                      (\<lambda>out. liftp (redact_both out bearer)) s))
      | _ \<Rightarrow> ret (TokenSet0\<lparr>ts_error := ''GitHub Actions: no id token here (the job needs `permissions: id-token: write`)''\<rparr>) s)"


section \<open>The client's proof\<close>

lemma map_of_put_given:
  "map_of (put_given k v m) = (if v \<noteq> [] then (map_of m)(k \<mapsto> v) else map_of m)"
  by (simp add: put_given_def)

lemma sorted_put_given [simp]: "sorted_map m \<Longrightarrow> sorted_map (put_given k v m)"
  by (simp add: put_given_def)

text \<open>The fixed texts of the module that an exchange may put into an error.\<close>

definition own_messages :: "string list" where
  "own_messages = [''no token endpoint'', ''token exchange: no subject token'',
     ''token exchange: no audience, resource or scope to exchange for'',
     ''on-behalf-of: an assertion and a scope are required'',
     wrong_type_message, strict_shape_message] @ assertion_errors"

lemma SignClientAssertion_own:
  assumes "SignClientAssertion env ssl client_id audience pem key_id cert s = (Returns out, s')"
    and "sa_error out \<noteq> []"
  shows "sa_error out \<in> set own_messages"
proof -
  from SignClientAssertion_returns [OF assms(1)] assms(2) obtain e where "out = assertion_error e"
    and "e \<in> set assertion_errors"
    by (auto simp: SignedAssertion0_def)
  then show ?thesis by (simp add: own_messages_def assertion_error_def)
qed

lemma client_assertion_returns:
  assumes "client_assertion env ssl ep auth s = (Returns a, s')"
  shows "a = Inl e \<Longrightarrow> e \<in> set own_messages"
    and "ca_private_key_pem auth = [] \<Longrightarrow> a = Inr (ca_assertion auth)"
  using assms SignClientAssertion_own
  by (auto simp: client_assertion_def Let_def elim!: bindp_ReturnsE split: if_splits)

lemma AddClientAuth_error:
  assumes "AddClientAuth env ssl params ep auth s = (Returns (Inl e), s')"
  shows "e = ep_error ep \<or> e \<in> set own_messages"
proof (cases "Endpoints_Ok ep")
  case False
  with assms show ?thesis
    by (simp add: AddClientAuth_def no_endpoint_error_def own_messages_def split: if_splits)
next
  case True
  with assms obtain a where "client_assertion env ssl ep auth s = (Returns a, s')" and "a = Inl e"
    by (auto simp: AddClientAuth_def Let_def map_sum_def elim!: bindp_ReturnsE split: sum.splits)
  then show ?thesis using client_assertion_returns(1) by blast
qed

lemma AddClientAuth_params:
  assumes "AddClientAuth env ssl params ep auth s = (Returns (Inr params'), s')"
  shows "map_of params' ''client_id'' = Some (ca_client_id auth)"
    and "k \<notin> {''client_id'', ''client_assertion'', ''client_assertion_type'', ''client_secret''} \<Longrightarrow>
      map_of params' k = map_of params k"
    and "ca_private_key_pem auth = [] \<Longrightarrow> ca_assertion auth \<noteq> [] \<Longrightarrow>
      map_of params' ''client_assertion'' = Some (ca_assertion auth)"
    and "sorted_map params \<Longrightarrow> sorted_map params'"
    and "Endpoints_Ok ep"
proof -
  have ok: "Endpoints_Ok ep"
    using assms by (cases "Endpoints_Ok ep") (simp_all add: AddClientAuth_def)
  with assms obtain a where a: "client_assertion env ssl ep auth s = (Returns (Inr a), s')"
    and params': "params' = put_proof auth a (map_put ''client_id'' (ca_client_id auth) params)"
    by (auto simp: AddClientAuth_def Let_def map_sum_def elim!: bindp_ReturnsE split: sum.splits)
  from ok show "Endpoints_Ok ep" .
  show "map_of params' ''client_id'' = Some (ca_client_id auth)"
    by (simp add: params' put_proof_def map_of_put_given)
  show "k \<notin> {''client_id'', ''client_assertion'', ''client_assertion_type'', ''client_secret''} \<Longrightarrow>
      map_of params' k = map_of params k"
    by (simp add: params' put_proof_def map_of_put_given)
  show "ca_private_key_pem auth = [] \<Longrightarrow> ca_assertion auth \<noteq> [] \<Longrightarrow>
      map_of params' ''client_assertion'' = Some (ca_assertion auth)"
    using client_assertion_returns(2) [OF a] by (simp add: params' put_proof_def)
  show "sorted_map params \<Longrightarrow> sorted_map params'" by (simp add: params' put_proof_def)
qed


section \<open>Texts that leave an exchange\<close>

lemma redact_error_Some:
  "redact_error t p = Some t' \<longleftrightarrow> (\<exists>e. Redact (ts_error t) p = Some e \<and> t' = t\<lparr>ts_error := e\<rparr>)"
  by (auto simp: redact_error_def)

lemma redact_code_Some:
  "redact_code t p = Some t' \<longleftrightarrow> (\<exists>e. Redact (error_code t) p = Some e \<and> t' = t\<lparr>error_code := e\<rparr>)"
  by (auto simp: redact_code_def)

lemma not_sublist_Nil: "secret_like p \<Longrightarrow> \<not> sublist p []"
  by (auto simp: secret_like_def)

lemma FinishExchange_hides:
  assumes "FinishExchange t p with_refresh = Some out" and "secret_like p"
    and "\<forall>m \<in> set own_messages. \<not> sublist p m"
  shows "\<not> sublist p (ts_error out)"
proof (cases "TokenSet_Ok t")
  case True
  then have "ts_error out \<in> {[], wrong_type_message, strict_shape_message}"
    using assms(1) by (auto simp: FinishExchange_def Let_def Refused_def TokenSet_Ok_def
        split: if_splits)
  with assms(2,3) not_sublist_Nil [OF assms(2)] show ?thesis by (auto simp: own_messages_def)
next
  case False
  with assms(1,2) show ?thesis
    by (auto simp: FinishExchange_def Let_def redact_error_Some dest: Redact_removes)
qed

lemma exchange_end_hides:
  assumes "exchange_end env yy ep auth params presented with_refresh s = (Returns out, s')"
    and "p \<in> {presented, Param params ''client_assertion'', ca_client_secret auth}"
    and "secret_like p" and "\<forall>m \<in> set own_messages. \<not> sublist p m"
  shows "\<not> sublist p (ts_error out)"
proof -
  from assms(1) obtain t t1 e1 e2 where fin: "FinishExchange t presented with_refresh = Some t1"
    and e1: "Redact (ts_error t1) (Param params ''client_assertion'') = Some e1"
    and e2: "Redact e1 (ca_client_secret auth) = Some e2" and out: "ts_error out = e2"
    by (auto simp: exchange_end_def Let_def redact_error_Some bind_eq_Some_conv elim!: bindp_ReturnsE)
  from assms(2) consider "p = presented" | "p = Param params ''client_assertion''"
    | "p = ca_client_secret auth" by blast
  then show ?thesis
  proof cases
    case 1
    with fin assms(3,4) have "\<not> sublist p (ts_error t1)" using FinishExchange_hides by blast
    with e1 e2 assms(3) show ?thesis unfolding out by (metis Redact_keeps_out)
  next
    case 2
    with e1 e2 assms(3) show ?thesis unfolding out by (metis Redact_keeps_out Redact_removes)
  next
    case 3
    with e2 assms(3) show ?thesis unfolding out by (metis Redact_removes)
  qed
qed

lemma not_own_Refused:
  "m \<in> set own_messages \<Longrightarrow> \<forall>m \<in> set own_messages. \<not> sublist p m \<Longrightarrow> \<not> sublist p (ts_error (Refused code m))"
  by (simp add: Refused_def)

lemma exchange_hides:
  assumes "bindp (AddClientAuth env ssl params ep auth) (\<lambda>added. case added of
        Inl error \<Rightarrow> ret (Refused ''invalid_client'' error)
      | Inr params \<Rightarrow> exchange_end env yy ep auth (add_given params) presented with_refresh) s = (Returns out, s')"
    and "p \<in> {presented, ca_client_secret auth} \<or> ca_private_key_pem auth = [] \<and> p = ca_assertion auth"
    and "secret_like p" and "\<forall>m \<in> set (ep_error ep # own_messages). \<not> sublist p m"
    and keeps: "\<And>ps. map_of (add_given ps) ''client_assertion'' = map_of ps ''client_assertion''"
  shows "\<not> sublist p (ts_error out)"
proof -
  from assms(1) obtain added s1 where added: "AddClientAuth env ssl params ep auth s = (Returns added, s1)"
    and rest: "(case added of Inl error \<Rightarrow> ret (Refused ''invalid_client'' error)
      | Inr params \<Rightarrow> exchange_end env yy ep auth (add_given params) presented with_refresh) s1 = (Returns out, s')"
    by (rule bindp_ReturnsE)
  show ?thesis
  proof (cases added)
    case (Inl e)
    with added AddClientAuth_error have "e = ep_error ep \<or> e \<in> set own_messages" by blast
    with Inl rest assms(4) show ?thesis by (auto simp: Refused_def)
  next
    case (Inr ps)
    have "ca_assertion auth = Param (add_given ps) ''client_assertion''"
      if "ca_private_key_pem auth = []" and "ca_assertion auth \<noteq> []"
      using AddClientAuth_params(3) [OF added [unfolded Inr] that] by (simp add: Param_def keeps)
    moreover have "p \<noteq> []" using assms(3) by (auto simp: secret_like_def)
    ultimately have "p \<in> {presented, Param (add_given ps) ''client_assertion'', ca_client_secret auth}"
      using assms(2) by auto
    with exchange_end_hides [of env yy ep auth "add_given ps" presented with_refresh s1 out s' p] rest Inr assms(3,4)
    show ?thesis by simp
  qed
qed


section \<open>Failures without a request\<close>

definition local_failure :: "('s, TokenSet) prog \<Rightarrow> bool" where
  "local_failure m \<longleftrightarrow> (\<forall>s. m s = (Hangs, s) \<or>
     (\<exists>out. m s = (Returns out, s) \<and> \<not> TokenSet_Ok out \<and> access_token out = []))"

lemma local_failure_ret [simp]:
  "local_failure (ret out) \<longleftrightarrow> \<not> TokenSet_Ok out \<and> access_token out = []"
  "local_failure (Pair (Returns out)) \<longleftrightarrow> \<not> TokenSet_Ok out \<and> access_token out = []"
  by (simp_all add: local_failure_def)

lemma local_failure_redact:
  "\<not> TokenSet_Ok out \<and> access_token out = [] \<Longrightarrow> local_failure (liftp (redact_error out p))"
  by (cases "Redact (ts_error out) p")
    (auto simp: local_failure_def liftp_def redact_error_def TokenSet_Ok_def)

lemma local_failure_bindp:
  assumes "local_failure m" and "\<And>out. \<not> TokenSet_Ok out \<and> access_token out = [] \<Longrightarrow> local_failure (f out)"
  shows "local_failure (bindp m f)"
  unfolding local_failure_def
proof
  fix s
  from assms(1) consider "m s = (Hangs, s)"
    | out where "m s = (Returns out, s)" "\<not> TokenSet_Ok out \<and> access_token out = []"
    unfolding local_failure_def by blast
  then show "bindp m f s = (Hangs, s) \<or>
      (\<exists>out. bindp m f s = (Returns out, s) \<and> \<not> TokenSet_Ok out \<and> access_token out = [])"
  proof cases
    case 2
    with assms(2) [OF 2(2)] show ?thesis by (simp add: local_failure_def)
  qed (simp add: bindp_def)
qed


section \<open>Properties\<close>

text \<open>C1: Whatever an IdP quotes back, the error text of a token exchange holds none of the credentials
  presented: not the subject token, not the client secret, not a federated client assertion,
  provided they are \<open>secret_like\<close> and not part of the module's own fixed messages (nor of the
  error of the discovery that failed before).\<close>

theorem TokenExchange_hides:
  assumes "TokenExchange env yy ssl ep auth subject_token audience scope resource with_refresh s = (Returns out, s')"
    and "p \<in> {subject_token, ca_client_secret auth} \<or> ca_private_key_pem auth = [] \<and> p = ca_assertion auth"
    and "secret_like p" and "\<forall>m \<in> set (ep_error ep # own_messages). \<not> sublist p m"
  shows "\<not> sublist p (ts_error out)"
proof (cases "subject_token = [] \<or> audience = [] \<and> scope = [] \<and> resource = []")
  case True
  with assms(1) have "ts_error out \<in> set own_messages"
    by (auto simp: TokenExchange_def Refused_def own_messages_def split: if_splits)
  with assms(4) show ?thesis by auto
next
  case False
  with assms(1) show ?thesis
    by (intro exchange_hides [OF _ assms(2-4), where
          add_given = "\<lambda>ps. put_given ''resource'' resource (put_given ''scope'' scope (put_given ''audience'' audience ps))"])
      (auto simp: TokenExchange_def map_of_put_given split: if_splits)
qed

definition sample_endpoints :: Endpoints where
  "sample_endpoints = \<lparr>ep_issuer = ''https://i'', token_endpoint = ''https://i/t'',
     device_authorization_endpoint = ''https://i/d'', authorization_endpoint = ''https://i/a'',
     revocation_endpoint = ''https://i/r'', pkce_s256 = True, ep_error = []\<rparr>"

text \<open>A transport that answers 400 with the body it is given.\<close>

definition refusing :: "string \<Rightarrow> request \<Rightarrow> HttpResult" where
  "refusing body rq = \<lparr>hr_status = 400, hr_body = body, hr_error = []\<rparr>"

definition sample_yy :: "((string \<times> jval) list, jval) yyjson" where
  "sample_yy = table_yyjson
     [(''{error:e}'', [(''error'', JStr ''invalid_grant''), (''error_description'', JStr ''bad 7f3c-subject-9a'')]),
      (''{error:c}'', [(''error'', JStr ''7f3c-subject-9a'')])]"

theorem TokenExchange_hides_witness:
  "\<not> sublist ''7f3c-subject-9a'' (case TokenExchange (quiet_env Tls) sample_yy sample_ssl sample_endpoints
       (secret_auth ''c'' []) ''7f3c-subject-9a'' ''aud'' [] [] False
       (start_process (Some (refusing ''{error:e}'')) ()) of (Returns out, s') \<Rightarrow> ts_error out | _ \<Rightarrow> [])"
proof -
  have secret: "secret_like ''7f3c-subject-9a''" by (simp add: secret_like_def)
  have own: "\<forall>m \<in> set (ep_error sample_endpoints # own_messages). \<not> sublist ''7f3c-subject-9a'' m"
    by code_simp
  show ?thesis
    using TokenExchange_hides [where p = "''7f3c-subject-9a''" and subject_token = "''7f3c-subject-9a''",
        OF _ _ secret own, of "quiet_env Tls" sample_yy sample_ssl "secret_auth ''c'' []" "''aud''" "[]" "[]" False
        "start_process (Some (refusing ''{error:e}'')) ()"]
      not_sublist_Nil [OF secret]
    by (auto split: prod.split outcome.split)
qed

text \<open>The same of the On-Behalf-Of grant: its assertion, the client secret and a federated client
  assertion never reach the error text.\<close>

theorem OnBehalfOf_hides:
  assumes "OnBehalfOf env yy ssl ep auth assertion scope with_refresh s = (Returns out, s')"
    and "p \<in> {assertion, ca_client_secret auth} \<or> ca_private_key_pem auth = [] \<and> p = ca_assertion auth"
    and "secret_like p" and "\<forall>m \<in> set (ep_error ep # own_messages). \<not> sublist p m"
  shows "\<not> sublist p (ts_error out)"
proof (cases "assertion = [] \<or> scope = []")
  case True
  with assms(1) have "ts_error out \<in> set own_messages"
    by (auto simp: OnBehalfOf_def Refused_def own_messages_def split: if_splits)
  with assms(4) show ?thesis by auto
next
  case False
  with assms(1) show ?thesis
    by (intro exchange_hides [OF _ assms(2-4), where add_given = "\<lambda>ps. ps"])
      (auto simp: OnBehalfOf_def split: if_splits)
qed

theorem OnBehalfOf_hides_witness:
  "\<not> sublist ''7f3c-subject-9a'' (case OnBehalfOf (quiet_env Tls) sample_yy sample_ssl sample_endpoints
       (secret_auth ''c'' []) ''7f3c-subject-9a'' ''api'' False
       (start_process (Some (refusing ''{error:e}'')) ()) of (Returns out, s') \<Rightarrow> ts_error out | _ \<Rightarrow> [])"
proof -
  have secret: "secret_like ''7f3c-subject-9a''" by (simp add: secret_like_def)
  have own: "\<forall>m \<in> set (ep_error sample_endpoints # own_messages). \<not> sublist ''7f3c-subject-9a'' m"
    by code_simp
  show ?thesis
    using OnBehalfOf_hides [where p = "''7f3c-subject-9a''" and assertion = "''7f3c-subject-9a''",
        OF _ _ secret own, of "quiet_env Tls" sample_yy sample_ssl "secret_auth ''c'' []" "''api''" False
        "start_process (Some (refusing ''{error:e}'')) ()"]
      not_sublist_Nil [OF secret]
    by (auto split: prod.split outcome.split)
qed


text \<open>The protocol's error code of an exchange is not covered by that scrubbing: it is read from the
  JSON of the answer, where an escape hides a quoted credential from \<open>HideIn\<close>, and it is not
  passed through \<open>Redact\<close>. An IdP that answers with the subject token (written with an escape) as its
  \<open>error\<close> puts it into \<open>error_code\<close>.\<close>

theorem TokenExchange_code_leak:
  "case TokenExchange (quiet_env Tls) sample_yy sample_ssl sample_endpoints
       (secret_auth ''c'' []) ''7f3c-subject-9a'' ''aud'' [] [] False
       (start_process (Some (refusing ''{error:c}'')) ()) of
     (Returns out, s') \<Rightarrow> error_code out = ''7f3c-subject-9a'' | _ \<Rightarrow> False"
  by code_simp


text \<open>The form of the client credentials grant is the flow's own whatever the caller's extra
  parameters say: \<open>grant_type\<close>, \<open>client_id\<close>, a given \<open>scope\<close> and whatever proof \<open>AddClientAuth\<close>
  put there keep their values, an extra parameter is sent only under a name the flow does not
  use, and no name is sent twice.\<close>

theorem credentials_extra_cannot_override:
  assumes "AddClientAuth env ssl (smap [(''grant_type'', ''client_credentials'')]) ep auth s = (Returns (Inr params), s')"
  shows "map_of (credentials_params params scope extra) ''grant_type'' = Some ''client_credentials''
    \<and> map_of (credentials_params params scope extra) ''client_id'' = Some (ca_client_id auth)
    \<and> (scope \<noteq> [] \<longrightarrow> map_of (credentials_params params scope extra) ''scope'' = Some scope)
    \<and> (\<forall>v. map_of params k = Some v \<and> k \<noteq> ''scope'' \<longrightarrow> map_of (credentials_params params scope extra) k = Some v)
    \<and> (map_of params k = None \<and> k \<noteq> ''scope'' \<longrightarrow> map_of (credentials_params params scope extra) k = map_of extra k)
    \<and> distinct (map fst (credentials_params params scope extra))"
proof -
  note params = AddClientAuth_params [OF assms]
  have grant: "map_of params ''grant_type'' = Some ''client_credentials''"
    using params(2) [of "''grant_type''"] by simp
  have keep: "map_of (credentials_params params scope extra) k' = Some v"
    if "map_of params k' = Some v" and "k' \<noteq> ''scope''" for k' v
    using that by (simp add: credentials_params_def emplace_all_keeps map_of_put_given)
  have new: "map_of (credentials_params params scope extra) k' = map_of extra k'"
    if "map_of params k' = None" and "k' \<noteq> ''scope''" for k'
    using that by (simp add: credentials_params_def emplace_all_new map_of_put_given)
  have scope: "map_of (credentials_params params scope extra) ''scope'' = Some scope" if "scope \<noteq> []"
    using that by (simp add: credentials_params_def emplace_all_keeps map_of_put_given)
  have "sorted_map params" using params(4) by simp
  then have "distinct (map fst (credentials_params params scope extra))"
    by (intro sorted_map_distinct) (simp add: credentials_params_def)
  with grant params(1) keep new scope show ?thesis by simp
qed

theorem credentials_extra_cannot_override_witness:
  "map_of (credentials_params (map_put ''client_secret'' ''x'' (map_put ''client_id'' ''c'' (smap [(''grant_type'', ''client_credentials'')])))
     [] [(''client_id'', ''other''), (''audience'', ''aud'')]) ''client_id'' = Some ''c''"
proof -
  have "AddClientAuth (quiet_env Plain) sample_ssl (smap [(''grant_type'', ''client_credentials'')]) sample_endpoints
      (secret_auth ''c'' ''x'') (start_process None ()) =
    (Returns (Inr (map_put ''client_secret'' ''x'' (map_put ''client_id'' ''c'' (smap [(''grant_type'', ''client_credentials'')])))),
     start_process None ())"
    by (simp add: AddClientAuth_def client_assertion_def put_proof_def put_given_def secret_auth_def
        sample_endpoints_def Endpoints_Ok_def)
  from credentials_extra_cannot_override [OF this, where scope = "[]" and
      extra = "[(''client_id'', ''other''), (''audience'', ''aud'')]"]
  show ?thesis by (simp add: secret_auth_def)
qed



end
