(* ===== verification/Device.thy ===== *)
theory Device
  imports Grants
begin

text \<open>
  The device flow (\<open>oidc/src/oidc_core.cpp\<close>, RFC 8628): \<open>DeviceBegin\<close>, \<open>ParseDeviceAuthorization\<close> and the
  polling loop of \<open>DevicePoll\<close>. The loop is a partial function of its turns: nothing in the code
  bounds their number when the interval is 0 and the clock stands still.
\<close>


section \<open>The first half\<close>

record DeviceAuthorization =
  da_device_code :: string
  da_user_code :: string
  da_verification_uri :: string
  da_verification_uri_complete :: string
  da_code_verifier :: string
  da_interval :: int
  da_expires_in :: int
  da_error :: string

definition DeviceAuthorization0 :: DeviceAuthorization where
  "DeviceAuthorization0 = \<lparr>da_device_code = [], da_user_code = [], da_verification_uri = [],
     da_verification_uri_complete = [], da_code_verifier = [], da_interval = 5, da_expires_in = 600, da_error = []\<rparr>"

definition DeviceAuthorization_Ok :: "DeviceAuthorization \<Rightarrow> bool" where
  "DeviceAuthorization_Ok d \<longleftrightarrow> da_error d = [] \<and> da_device_code d \<noteq> []"

definition ParseDeviceAuthorization :: "('d, 'v) yyjson \<Rightarrow> HttpResult \<Rightarrow> DeviceAuthorization" where
  "ParseDeviceAuthorization yy response =
     (let body = hr_body response in
      if \<not> HttpResult_Ok response then
        DeviceAuthorization0\<lparr>da_error :=
          (if hr_error response \<noteq> [] then hr_error response
           else if json_Str yy body ''error'' = [] then ''HTTP '' @ to_string (hr_status response)
           else protocol_code yy body @ '': '' @ protocol_description yy body)\<rparr>
      else
        (let interval = json_Int yy body ''interval'';
             expires_in = json_Int yy body ''expires_in'';
             out = DeviceAuthorization0\<lparr>
               da_device_code := json_Str yy body ''device_code'',
               da_user_code := json_Str yy body ''user_code'',
               da_verification_uri := json_Str yy body ''verification_uri'',
               da_verification_uri_complete := json_Str yy body ''verification_uri_complete''\<rparr>;
             out = (if interval > 0 then out\<lparr>da_interval := (if interval > 900 then 900 else interval)\<rparr> else out);
             out = (if expires_in > 0 then out\<lparr>da_expires_in := (if expires_in > 86400 then 86400 else expires_in)\<rparr> else out)
         in if da_device_code out = []
            then out\<lparr>da_error := ''device authorization answered without a device_code''\<rparr>
            else out))"

text \<open>The verifier, where the issuer advertises S256; empty where it does not.\<close>

definition device_verifier :: "('t, 'w) env \<Rightarrow> Endpoints \<Rightarrow> (('t, 'w) process, string) prog" where
  "device_verifier env ep =
     (if pkce_s256 ep then outp (RandomUrlSafe (random_device env) 32) else ret [])"

definition device_params :: "Endpoints \<Rightarrow> string \<Rightarrow> string \<Rightarrow> string \<Rightarrow> smap \<Rightarrow> smap" where
  "device_params ep client_id scope verifier extra =
     (let params = put_given ''scope'' scope (smap [(''client_id'', client_id)]);
          params = (if pkce_s256 ep
            then map_put ''code_challenge_method'' ''S256'' (map_put ''code_challenge'' (PkceChallenge verifier) params)
            else params)
      in emplace_all extra params)"

definition DeviceBegin :: "('t, 'w) env \<Rightarrow> ('d, 'v) yyjson \<Rightarrow> Endpoints \<Rightarrow> string \<Rightarrow> string \<Rightarrow> smap \<Rightarrow>
    (('t, 'w) process, DeviceAuthorization) prog" where
  "DeviceBegin env yy ep client_id scope extra =
     (if \<not> Endpoints_Ok ep then ret (DeviceAuthorization0\<lparr>da_error := no_endpoint_error ep ''no endpoints''\<rparr>)
      else if device_authorization_endpoint ep = []
      then ret (DeviceAuthorization0\<lparr>da_error := ''the issuer advertises no device_authorization_endpoint (RFC 8628 not offered)''\<rparr>)
      else bindp (device_verifier env ep) (\<lambda>verifier.
           bindp (HttpPostForm env (device_authorization_endpoint ep)
             (device_params ep client_id scope verifier extra)) (\<lambda>response.
           let begun = ParseDeviceAuthorization yy response
           in ret (if DeviceAuthorization_Ok begun then begun\<lparr>da_code_verifier := verifier\<rparr> else begun))))"


section \<open>\<open>DevicePoll\<close>\<close>

text \<open>The caller's \<open>cancelled\<close> is a \<open>std::function\<close>: it may be empty (\<open>None\<close>).\<close>

type_synonym ('t, 'w) check = "(('t, 'w) process, bool) prog option"

definition is_cancelled :: "('t, 'w) check \<Rightarrow> (('t, 'w) process, bool) prog" where
  "is_cancelled cancelled = (case cancelled of None \<Rightarrow> ret False | Some check \<Rightarrow> check)"

definition device_cancelled :: TokenSet where
  "device_cancelled = TokenSet0\<lparr>ts_error := ''device flow cancelled'', error_code := ''cancelled''\<rparr>"

definition device_grant :: "string \<Rightarrow> string \<Rightarrow> string \<Rightarrow> smap" where
  "device_grant client_id device_code code_verifier =
     put_given ''code_verifier'' code_verifier
       (smap [(''grant_type'', ''urn:ietf:params:oauth:grant-type:device_code''),
              (''client_id'', client_id), (''device_code'', device_code)])"

text \<open>The interval after an answer; \<open>None\<close> where the answer is the caller's to report.\<close>

definition next_interval :: "TokenSet \<Rightarrow> int \<Rightarrow> int option" where
  "next_interval result interval =
     (if error_code result = ''slow_down'' then Some (if interval + 5 > 3600 then 3600 else interval + 5)
      else if error_code result \<noteq> ''authorization_pending'' then None
      else Some interval)"

text \<open>The sleep, in slices of a second: \<open>True\<close> when the caller cancelled.\<close>

fun device_sleep :: "('t, 'w) env \<Rightarrow> ('t, 'w) check \<Rightarrow> nat \<Rightarrow> (('t, 'w) process, bool) prog" where
  "device_sleep env cancelled 0 = ret False"
| "device_sleep env cancelled (Suc n) =
     bindp (is_cancelled cancelled) (\<lambda>stop.
       if stop then ret True
       else bindp (\<lambda>s. (Returns (), s\<lparr>outside := sleep_second env (outside s)\<rparr>))
              (\<lambda>_. device_sleep env cancelled n))"

text \<open>One turn of the loop: \<open>Inl\<close> what is returned, \<open>Inr\<close> the interval of the next turn.\<close>

definition device_turn :: "('t, 'w) env \<Rightarrow> ('d, 'v) yyjson \<Rightarrow> Endpoints \<Rightarrow> string \<Rightarrow> string \<Rightarrow> string \<Rightarrow> int \<Rightarrow>
    ('t, 'w) check \<Rightarrow> int \<Rightarrow> (('t, 'w) process, TokenSet + int) prog" where
  "device_turn env yy ep client_id device_code code_verifier deadline cancelled interval =
     bindp (is_cancelled cancelled) (\<lambda>stop.
     if stop then ret (Inl device_cancelled)
     else bindp (PostGrant env yy ep (device_grant client_id device_code code_verifier) [device_code, code_verifier]) (\<lambda>result.
       if TokenSet_Ok result then ret (Inl result)
       else (case next_interval result interval of
           None \<Rightarrow> ret (Inl result)
         | Some interval \<Rightarrow>
             bindp (NowSeconds env) (\<lambda>now.
             if interval \<ge> deadline - now
             then ret (Inl (result\<lparr>ts_error := ''device flow timed out before the user approved'',
               error_code := ''expired_token''\<rparr>))
             else bindp (device_sleep env cancelled (nat interval)) (\<lambda>stop.
               ret (if stop then Inl device_cancelled else Inr interval))))))"

partial_function (option) device_loop :: "('t, 'w) env \<Rightarrow> ('d, 'v) yyjson \<Rightarrow> Endpoints \<Rightarrow> string \<Rightarrow> string \<Rightarrow>
    string \<Rightarrow> int \<Rightarrow> ('t, 'w) check \<Rightarrow> int \<Rightarrow> ('t, 'w) process \<Rightarrow> (TokenSet outcome \<times> ('t, 'w) process) option" where
  "device_loop env yy ep client_id device_code code_verifier deadline cancelled interval s =
     (case device_turn env yy ep client_id device_code code_verifier deadline cancelled interval s of
        (Returns (Inl out), s') \<Rightarrow> Some (Returns out, s')
      | (Returns (Inr interval'), s') \<Rightarrow>
          device_loop env yy ep client_id device_code code_verifier deadline cancelled interval' s'
      | (Throws, s') \<Rightarrow> Some (Throws, s')
      | (Hangs, s') \<Rightarrow> Some (Hangs, s'))"

declare device_loop.simps [code]

definition DevicePoll :: "('t, 'w) env \<Rightarrow> ('d, 'v) yyjson \<Rightarrow> Endpoints \<Rightarrow> string \<Rightarrow> string \<Rightarrow> string \<Rightarrow> int \<Rightarrow>
    int \<Rightarrow> ('t, 'w) check \<Rightarrow> (('t, 'w) process, TokenSet) prog" where
  "DevicePoll env yy ep client_id device_code code_verifier interval_seconds deadline cancelled s =
     (let interval = (if interval_seconds < 0 then 0 else interval_seconds)
      in case device_loop env yy ep client_id device_code code_verifier deadline cancelled interval s of
           None \<Rightarrow> (Hangs, s)
         | Some r \<Rightarrow> r)"


section \<open>One turn\<close>

lemma next_interval_bounds:
  assumes "next_interval result interval = Some i" and "0 \<le> interval"
  shows "0 \<le> i" and "i \<le> max 3600 interval" and "0 < interval \<Longrightarrow> 0 < i"
  using assms by (auto simp: next_interval_def split: if_splits)

lemma next_interval_None:
  "next_interval result interval = None \<Longrightarrow> error_code result \<notin> {''slow_down'', ''authorization_pending''}"
  by (auto simp: next_interval_def split: if_splits)

text \<open>What a turn that returned did.\<close>

lemma device_turn_cases:
  assumes "device_turn env yy ep client_id device_code code_verifier deadline cancelled interval s = (Returns r, s')"
  obtains (Cancelled) "r = Inl device_cancelled"
  | (Answered) result s1 s2 where
      "PostGrant env yy ep (device_grant client_id device_code code_verifier) [device_code, code_verifier] s1 = (Returns result, s2)"
      and "TokenSet_Ok result \<or> next_interval result interval = None" and "r = Inl result"
  | (Expired) result where "r = Inl (result\<lparr>ts_error := ''device flow timed out before the user approved'',
      error_code := ''expired_token''\<rparr>)"
  | (Pending) result i s2 where "next_interval result interval = Some i" and "r = Inr i"
      and "i < deadline - clock env (outside s2)" and "device_sleep env cancelled (nat i) s2 = (Returns False, s')"
proof -
  from assms obtain stop s1 where "is_cancelled cancelled s = (Returns stop, s1)"
    and rest: "(if stop then ret (Inl device_cancelled) else bindp
      (PostGrant env yy ep (device_grant client_id device_code code_verifier) [device_code, code_verifier]) (\<lambda>result.
       if TokenSet_Ok result then ret (Inl result)
       else (case next_interval result interval of
           None \<Rightarrow> ret (Inl result)
         | Some interval \<Rightarrow>
             bindp (NowSeconds env) (\<lambda>now.
             if interval \<ge> deadline - now
             then ret (Inl (result\<lparr>ts_error := ''device flow timed out before the user approved'',
               error_code := ''expired_token''\<rparr>))
             else bindp (device_sleep env cancelled (nat interval)) (\<lambda>stop.
               ret (if stop then Inl device_cancelled else Inr interval)))))) s1 = (Returns r, s')"
    unfolding device_turn_def by (rule bindp_ReturnsE)
  show thesis
  proof (cases stop)
    case True
    with rest Cancelled show thesis by simp
  next
    case False
    with rest obtain result s2 where
        post: "PostGrant env yy ep (device_grant client_id device_code code_verifier) [device_code, code_verifier] s1 = (Returns result, s2)"
      and rest2: "(if TokenSet_Ok result then ret (Inl result)
       else (case next_interval result interval of
           None \<Rightarrow> ret (Inl result)
         | Some interval \<Rightarrow>
             bindp (NowSeconds env) (\<lambda>now.
             if interval \<ge> deadline - now
             then ret (Inl (result\<lparr>ts_error := ''device flow timed out before the user approved'',
               error_code := ''expired_token''\<rparr>))
             else bindp (device_sleep env cancelled (nat interval)) (\<lambda>stop.
               ret (if stop then Inl device_cancelled else Inr interval))))) s2 = (Returns r, s')"
      by (auto elim: bindp_ReturnsE)
    show thesis
    proof (cases "TokenSet_Ok result \<or> next_interval result interval = None")
      case True
      with rest2 have "r = Inl result" by (cases "TokenSet_Ok result") simp_all
      with post True Answered show thesis by blast
    next
      case False
      then obtain i where i: "next_interval result interval = Some i" and "\<not> TokenSet_Ok result" by auto
      have pending: thesis if "r = Inr i" "\<not> deadline - clock env (outside s2) \<le> i"
          "device_sleep env cancelled (nat i) s2 = (Returns False, s')"
        by (rule Pending [OF i that(1) _ that(3)]) (use that(2) in simp)
      from rest2 i \<open>\<not> TokenSet_Ok result\<close> show thesis
        using Expired [of result] Cancelled
        by (auto simp: bindp_def NowSeconds_def split: prod.splits outcome.splits if_splits intro: pending)
    qed
  qed
qed

lemma PostGrant_Ok_code:
  assumes "PostGrant env yy ep params hide s = (Returns t, s')" and "TokenSet_Ok t"
  shows "error_code t = []"
  using assms
  by (auto simp: PostGrant_def TokenSet_Ok_def ParseTokenResponse_def TokenSet0_def Let_def no_endpoint_error_def
      elim!: bindp_ReturnsE split: if_splits)

lemma device_turn_answer:
  assumes "device_turn env yy ep client_id device_code code_verifier deadline cancelled interval s = (Returns (Inl out), s')"
  shows "error_code out \<notin> {''slow_down'', ''authorization_pending''}"
  using assms
proof (cases rule: device_turn_cases)
  case (Answered result s1 s2)
  then show ?thesis using PostGrant_Ok_code next_interval_None by fastforce
qed (simp_all add: device_cancelled_def)

text \<open>Induction over the turns of a loop that ends.\<close>

lemma device_loop_answer:
  assumes "device_loop env yy ep client_id device_code code_verifier deadline cancelled interval s = Some (Returns out, s')"
  shows "error_code out \<notin> {''slow_down'', ''authorization_pending''}"
proof -
  have "case r of (Returns out, s') \<Rightarrow> error_code out \<notin> {''slow_down'', ''authorization_pending''} | _ \<Rightarrow> True"
    if "device_loop env yy ep client_id device_code code_verifier deadline cancelled interval s = Some r"
    for env yy ep client_id device_code code_verifier deadline cancelled interval s r
  proof (rule device_loop.raw_induct [OF _ that, of "\<lambda>_ _ _ _ _ _ _ _ _ _ r.
        case r of (Returns out, s') \<Rightarrow> error_code out \<notin> {''slow_down'', ''authorization_pending''} | _ \<Rightarrow> True"], goal_cases)
    case (1 loop env yy ep client_id device_code code_verifier deadline cancelled interval s r)
    from 1(2) show ?case
      using device_turn_answer [of env yy ep client_id device_code code_verifier deadline cancelled interval s]
      by (auto split: prod.splits outcome.splits sum.splits dest!: 1(1))
  qed
  from this [OF assms] show ?thesis by simp
qed


section \<open>A poll that comes back\<close>

text \<open>A program that returns, changes nothing of the module's own state, and takes no negative time.\<close>

definition moves :: "('t, 'w) env \<Rightarrow> (('t, 'w) process, 'a) prog \<Rightarrow> ('t, 'w) process \<Rightarrow> bool" where
  "moves env m s \<longleftrightarrow> (\<exists>x w. m s = (Returns x, s\<lparr>outside := w\<rparr>) \<and> clock env (outside s) \<le> clock env w)"

text \<open>The client library answers every request, a sleep takes time, the caller's check comes back.\<close>

definition answering :: "('t, 'w) env \<Rightarrow> bool" where
  "answering env \<longleftrightarrow>
     (\<forall>c w. \<exists>r w'. http_client env c w = (Returns r, w') \<and> clock env w \<le> clock env w')
     \<and> (\<forall>w. clock env w < clock env (sleep_second env w))"

definition checks_back :: "('t, 'w) env \<Rightarrow> ('t, 'w) check \<Rightarrow> bool" where
  "checks_back env cancelled \<longleftrightarrow> (case cancelled of None \<Rightarrow> True | Some check \<Rightarrow> (\<forall>s. moves env check s))"

lemma movesI: "m s = (Returns x, s\<lparr>outside := w\<rparr>) \<Longrightarrow> clock env (outside s) \<le> clock env w \<Longrightarrow> moves env m s"
  unfolding moves_def by blast

lemma moves_ret [simp]: "moves env (ret x) s"
proof -
  have "ret x s = (Returns x, s\<lparr>outside := outside s\<rparr>)" by simp
  then show ?thesis unfolding moves_def by blast
qed

lemma moves_bind:
  assumes "moves env m s" and "\<And>x w. m s = (Returns x, s\<lparr>outside := w\<rparr>) \<Longrightarrow> moves env (f x) (s\<lparr>outside := w\<rparr>)"
  shows "moves env (bindp m f) s"
proof -
  from assms(1) obtain x w where m: "m s = (Returns x, s\<lparr>outside := w\<rparr>)" and "clock env (outside s) \<le> clock env w"
    unfolding moves_def by blast
  moreover from assms(2) [OF m] obtain y w' where "f x (s\<lparr>outside := w\<rparr>) = (Returns y, s\<lparr>outside := w'\<rparr>)"
    and "clock env w \<le> clock env w'" unfolding moves_def by auto
  ultimately show ?thesis by (auto simp: moves_def)
qed

lemma moves_NowSeconds [simp]: "moves env (NowSeconds env) s"
proof -
  have "NowSeconds env s = (Returns (clock env (outside s)), s\<lparr>outside := outside s\<rparr>)" by (simp add: NowSeconds_def)
  then show ?thesis unfolding moves_def by blast
qed

lemma moves_cancelled [simp]: "checks_back env cancelled \<Longrightarrow> moves env (is_cancelled cancelled) s"
  by (cases cancelled) (simp_all add: checks_back_def is_cancelled_def)

lemma moves_liftp: "x = Some y \<Longrightarrow> moves env (liftp x) s"
  by simp

lemma moves_client:
  assumes "answering env"
  shows "moves env (outp (http_client env c)) s"
proof -
  from assms obtain r w' where "http_client env c (outside s) = (Returns r, w')"
    and "clock env (outside s) \<le> clock env w'" unfolding answering_def by blast
  then show ?thesis by (intro movesI [of _ s r w']) (simp_all add: outp_def)
qed

lemma moves_Run:
  assumes "answering env"
  shows "moves env (Run env url timeout request) s"
proof -
  have client: "moves env (bindp (outp (http_client env c)) (\<lambda>res. ret (client_answer failed res))) s" for c failed
    by (intro moves_bind moves_client assms moves_ret)
  have stays: "\<exists>w. s = s\<lparr>outside := w\<rparr> \<and> clock env (outside s) \<le> clock env w"
    by (rule exI [of _ "outside s"]) simp
  show ?thesis
    using client [unfolded moves_def] stays by (auto simp: moves_def Run_def Let_def split: prod.split)
qed

lemma CurrentTransport_outside [simp]: "CurrentTransport (s\<lparr>outside := w\<rparr>) = CurrentTransport s"
  by (cases "scoped_transport s") (simp_all add: CurrentTransport_def)

lemma moves_HttpPostForm:
  assumes "answering env" and "CurrentTransport s = None"
  shows "moves env (HttpPostForm env url params) s"
proof -
  have "HttpPostForm env url params s = BuiltInSend env (form_request url params 30) s"
    using assms(2) by (simp add: HttpPostForm_def HttpSend_def)
  moreover have "moves env (BuiltInSend env (form_request url params 30)) s"
    by (simp add: BuiltInSend_def Let_def moves_Run [OF assms(1)])
  ultimately show ?thesis by (simp add: moves_def)
qed

lemma moves_PostGrant:
  assumes "answering env" and "CurrentTransport s = None" and "\<forall>p \<in> set hide. secret_like p \<or> length p < 8"
  shows "moves env (PostGrant env yy ep params hide) s"
proof -
  have hide: "moves env (if HttpResult_Ok r then ret r else liftp (hide_answer r hide)) t" for r t
  proof -
    from redact_seq_returns [OF assms(3), of "hr_body r"] obtain b where "HideIn (hr_body r) hide = Some b"
      by (auto simp: HideIn_redact_seq)
    then have "hide_answer r hide = Some (r\<lparr>hr_body := b\<rparr>)" by (simp add: hide_answer_def)
    then show ?thesis by simp
  qed
  show ?thesis
  proof (cases "Endpoints_Ok ep")
    case True
    have "moves env (bindp (HttpPostForm env (token_endpoint ep) params) (\<lambda>response.
           bindp (if HttpResult_Ok response then ret response else liftp (hide_answer response hide)) (\<lambda>response.
           bindp (NowSeconds env) (\<lambda>now. ret (ParseTokenResponse yy now response))))) s"
      by (intro moves_bind moves_HttpPostForm hide moves_NowSeconds moves_ret assms(1,2))
    with True show ?thesis by (simp add: PostGrant_def)
  qed (simp add: PostGrant_def)
qed

text \<open>The sleep takes at least its seconds, unless the caller cancels it.\<close>

lemma device_sleep_returns:
  assumes "answering env" and "checks_back env cancelled"
  shows "\<exists>stop w. device_sleep env cancelled n s = (Returns stop, s\<lparr>outside := w\<rparr>)
    \<and> clock env (outside s) + (if stop then 0 else int n) \<le> clock env w"
proof (induction n arbitrary: s)
  case 0
  have "s = s\<lparr>outside := outside s\<rparr>" by simp
  then show ?case by (intro exI [of _ False] exI [of _ "outside s"]) simp
next
  case (Suc n)
  from moves_cancelled [OF assms(2), of s] obtain stop w where
      check: "is_cancelled cancelled s = (Returns stop, s\<lparr>outside := w\<rparr>)" and w: "clock env (outside s) \<le> clock env w"
    unfolding moves_def by blast
  show ?case
  proof (cases stop)
    case True
    with check w show ?thesis by (intro exI [of _ True] exI [of _ w]) simp
  next
    case False
    from Suc.IH [of "s\<lparr>outside := sleep_second env w\<rparr>"] obtain stop' w' where
        "device_sleep env cancelled n (s\<lparr>outside := sleep_second env w\<rparr>) = (Returns stop', s\<lparr>outside := w'\<rparr>)"
      and "clock env (sleep_second env w) + (if stop' then 0 else int n) \<le> clock env w'" by auto
    moreover have "clock env w + 1 \<le> clock env (sleep_second env w)" using assms(1) by (simp add: answering_def add1_zle_eq)
    ultimately show ?thesis
      using check w False by (intro exI [of _ stop'] exI [of _ w']) (auto split: if_splits)
  qed
qed

text \<open>A turn returns, and one that goes on has brought the clock nearer to the deadline, short of it.\<close>

lemma device_turn_returns:
  assumes "answering env" and "checks_back env cancelled" and "CurrentTransport s = None" and "0 \<le> interval"
    and "\<forall>p \<in> {device_code, code_verifier}. secret_like p \<or> length p < 8"
  shows "\<exists>r w. device_turn env yy ep client_id device_code code_verifier deadline cancelled interval s
      = (Returns r, s\<lparr>outside := w\<rparr>)
    \<and> (case r of Inl _ \<Rightarrow> True | Inr i \<Rightarrow> (0 < interval \<longrightarrow> 0 < i) \<and> 0 \<le> i \<and> clock env (outside s) + i \<le> clock env w
        \<and> clock env (outside s) < deadline)"
proof -
  let ?post = "PostGrant env yy ep (device_grant client_id device_code code_verifier) [device_code, code_verifier]"
  from moves_cancelled [OF assms(2), of s] obtain stop w1 where
      check: "is_cancelled cancelled s = (Returns stop, s\<lparr>outside := w1\<rparr>)" and w1: "clock env (outside s) \<le> clock env w1"
    unfolding moves_def by blast
  have "CurrentTransport (s\<lparr>outside := w1\<rparr>) = None" using assms(3) by simp
  with assms(5) have "moves env ?post (s\<lparr>outside := w1\<rparr>)" by (intro moves_PostGrant assms(1)) simp_all
  then obtain result w2 where post: "?post (s\<lparr>outside := w1\<rparr>) = (Returns result, s\<lparr>outside := w2\<rparr>)"
    and w2: "clock env w1 \<le> clock env w2" unfolding moves_def by auto
  define turn where "turn = device_turn env yy ep client_id device_code code_verifier deadline cancelled interval s"
  show ?thesis unfolding turn_def [symmetric]
  proof (cases "stop \<or> TokenSet_Ok result \<or> next_interval result interval = None")
    case True
    then have "\<exists>r w. turn = (Returns (Inl r), s\<lparr>outside := w\<rparr>)"
      unfolding turn_def device_turn_def using check post by (cases stop; cases "TokenSet_Ok result") auto
    then show "\<exists>r w. turn = (Returns r, s\<lparr>outside := w\<rparr>) \<and> (case r of Inl _ \<Rightarrow> True
        | Inr i \<Rightarrow> (0 < interval \<longrightarrow> 0 < i) \<and> 0 \<le> i \<and> clock env (outside s) + i \<le> clock env w
        \<and> clock env (outside s) < deadline)" by fastforce
  next
    case False
    then obtain i where i: "next_interval result interval = Some i" by auto
    note bounds = next_interval_bounds [OF i assms(4)]
    from device_sleep_returns [OF assms(1,2), of "nat i" "s\<lparr>outside := w2\<rparr>"] obtain stop' w3 where
        sleep: "device_sleep env cancelled (nat i) (s\<lparr>outside := w2\<rparr>)
          = (Returns stop', s\<lparr>outside := w2, outside := w3\<rparr>)"
      and "clock env (outside (s\<lparr>outside := w2\<rparr>)) + (if stop' then 0 else int (nat i)) \<le> clock env w3" by blast
    with bounds(1) have w3: "clock env w2 + (if stop' then 0 else i) \<le> clock env w3"
      by (cases stop') simp_all
    have "turn = (if deadline - clock env w2 \<le> i
        then (Returns (Inl (result\<lparr>ts_error := ''device flow timed out before the user approved'',
               error_code := ''expired_token''\<rparr>)), s\<lparr>outside := w2\<rparr>)
        else (Returns (if stop' then Inl device_cancelled else Inr i), s\<lparr>outside := w3\<rparr>))"
      unfolding turn_def device_turn_def bindp_Returns [of "is_cancelled cancelled" s, OF check]
      using False i
      by (simp add: bindp_Returns [of ?post, OF post] bindp_Returns [of "device_sleep env cancelled (nat i)", OF sleep]
          bindp_Returns [of "NowSeconds env"] NowSeconds_def)
    with bounds w1 w2 w3 show "\<exists>r w. turn = (Returns r, s\<lparr>outside := w\<rparr>) \<and> (case r of Inl _ \<Rightarrow> True
        | Inr i \<Rightarrow> (0 < interval \<longrightarrow> 0 < i) \<and> 0 \<le> i \<and> clock env (outside s) + i \<le> clock env w
        \<and> clock env (outside s) < deadline)"
      by (intro exI [of _ "if deadline - clock env w2 \<le> i then Inl (result\<lparr>ts_error := ''device flow timed out before the user approved'',
               error_code := ''expired_token''\<rparr>) else if stop' then Inl device_cancelled else Inr i"]
          exI [of _ "if deadline - clock env w2 \<le> i then w2 else w3"]) auto
  qed
qed


lemma device_loop_returns:
  assumes "answering env" and "checks_back env cancelled" and "CurrentTransport s = None" and "0 < interval"
    and "\<forall>p \<in> {device_code, code_verifier}. secret_like p \<or> length p < 8"
  shows "\<exists>out w. device_loop env yy ep client_id device_code code_verifier deadline cancelled interval s
      = Some (Returns out, s\<lparr>outside := w\<rparr>)"
  using assms(3,4)
proof (induction "nat (deadline - clock env (outside s))" arbitrary: s interval rule: less_induct)
  case less
  then have "0 \<le> interval" by simp
  from device_turn_returns [OF assms(1,2) less.prems(1) this assms(5)] obtain r w where
      turn: "device_turn env yy ep client_id device_code code_verifier deadline cancelled interval s
        = (Returns r, s\<lparr>outside := w\<rparr>)"
    and on: "case r of Inl _ \<Rightarrow> True | Inr i \<Rightarrow> (0 < interval \<longrightarrow> 0 < i) \<and> 0 \<le> i \<and> clock env (outside s) + i \<le> clock env w
        \<and> clock env (outside s) < deadline" by blast
  show ?case
  proof (cases r)
    case (Inl out)
    with turn show ?thesis by (subst device_loop.simps) auto
  next
    case (Inr i)
    with on less.prems have i: "0 < i" and "clock env (outside s) < clock env w" "clock env (outside s) < deadline" by auto
    then have "nat (deadline - clock env (outside (s\<lparr>outside := w\<rparr>))) < nat (deadline - clock env (outside s))" by simp
    from less.hyps [OF this _ i] less.prems(1) obtain out w' where
        "device_loop env yy ep client_id device_code code_verifier deadline cancelled i (s\<lparr>outside := w\<rparr>)
          = Some (Returns out, s\<lparr>outside := w'\<rparr>)" by auto
    with Inr turn show ?thesis by (subst device_loop.simps) auto
  qed
qed

lemma device_sleep_None:
  "device_sleep env None n s = (Returns False, s\<lparr>outside := (sleep_second env ^^ n) (outside s)\<rparr>)"
proof (induction n arbitrary: s)
  case (Suc n)
  have "(sleep_second env ^^ n) (sleep_second env w) = (sleep_second env ^^ Suc n) w" for w
    by (simp only: funpow_Suc_right comp_def)
  with Suc show ?case by (simp add: is_cancelled_def bindp_def)
qed simp

lemma clock_sleeps:
  "\<forall>w. clock env (sleep_second env w) = clock env w + 1 \<Longrightarrow> clock env ((sleep_second env ^^ n) w) = clock env w + int n"
  by (induction n) simp_all


section \<open>Properties\<close>

text \<open>Whatever the issuer answers to a device request, the poll interval is 1 to 900 seconds and the code's
  lifetime 1 second to a day, and an accepted answer has a device code.\<close>

theorem ParseDeviceAuthorization_bounds:
  "1 \<le> da_interval (ParseDeviceAuthorization yy response) \<and> da_interval (ParseDeviceAuthorization yy response) \<le> 900
   \<and> 1 \<le> da_expires_in (ParseDeviceAuthorization yy response) \<and> da_expires_in (ParseDeviceAuthorization yy response) \<le> 86400
   \<and> (DeviceAuthorization_Ok (ParseDeviceAuthorization yy response)
      \<longleftrightarrow> HttpResult_Ok response \<and> json_Str yy (hr_body response) ''device_code'' \<noteq> [])"
  by (auto simp: ParseDeviceAuthorization_def DeviceAuthorization0_def DeviceAuthorization_Ok_def Let_def HttpResult_Ok_def)


text \<open>A world that is a clock: the sleep moves it by a second, the issuer answers \<open>authorization_pending\<close>.\<close>

definition ticking_env :: "(unit, int) env" where
  "ticking_env = \<lparr>build = Plain,
     run_transport = (\<lambda>t rq. ret HttpResult0),
     http_client = (\<lambda>c. ret (Inr (400, ''pending''))),
     stat_file = (\<lambda>w path. None), open_file = (\<lambda>w path. None), pem_infos = (\<lambda>raw. None),
     clock = (\<lambda>w. w), random_device = (\<lambda>w. (Throws, w)), getenv = (\<lambda>w name. None),
     sleep_second = (\<lambda>w. w + 1)\<rparr>"

definition pending_yy :: "((string \<times> jval) list, jval) yyjson" where
  "pending_yy = table_yyjson [(''pending'', [(''error'', JStr ''authorization_pending'')])]"

definition device_endpoints :: Endpoints where
  "device_endpoints = Endpoints0\<lparr>ep_issuer := ''http://idp'', token_endpoint := ''http://idp/t''\<rparr>"


text \<open>The poll never outlives its deadline: on a clock the sleep keeps in step with, a turn that goes on to
  the next request has stopped sleeping before the deadline, and has slept at most the longer of an hour and
  the interval it began with.\<close>

theorem DevicePoll_before_deadline:
  assumes "\<forall>w. clock env (sleep_second env w) = clock env w + 1" and "0 \<le> interval"
    and "device_turn env yy ep client_id device_code code_verifier deadline None interval s = (Returns (Inr i), s')"
  shows "clock env (outside s') < deadline \<and> 0 \<le> i \<and> i \<le> max 3600 interval"
  using assms(3)
proof (cases rule: device_turn_cases)
  case (Pending result j s2)
  then have "next_interval result interval = Some i" by simp
  note bounds = next_interval_bounds [OF this assms(2)]
  from Pending have "s' = s2\<lparr>outside := (sleep_second env ^^ nat i) (outside s2)\<rparr>" by (simp add: device_sleep_None)
  then have "clock env (outside s') = clock env (outside s2) + i"
    using bounds(1) by (simp add: clock_sleeps [OF assms(1)])
  with Pending bounds show ?thesis by simp
qed simp_all


theorem DevicePoll_before_deadline_witness:
  "\<exists>i s'. device_turn ticking_env pending_yy device_endpoints ''app'' ''dev-code-1234'' [] 1020 None 5 (start_process None 1000)
      = (Returns (Inr i), s') \<and> outside s' < 1020 \<and> i \<le> 3600"
proof -
  have turn: "fst (device_turn ticking_env pending_yy device_endpoints ''app'' ''dev-code-1234'' [] 1020 None 5 (start_process None 1000))
      = Returns (Inr 5)" by code_simp
  obtain s' where s': "device_turn ticking_env pending_yy device_endpoints ''app'' ''dev-code-1234'' [] 1020 None 5 (start_process None 1000)
      = (Returns (Inr 5), s')" using turn by (metis prod.collapse)
  have "\<forall>w. clock ticking_env (sleep_second ticking_env w) = clock ticking_env w + 1" by (simp add: ticking_env_def)
  from DevicePoll_before_deadline [OF this _ s'] s' show ?thesis by (auto simp: ticking_env_def)
qed


text \<open>The code keeps the interval in an \<open>int64_t\<close>. From an interval below \<open>2 ^ 63 - 5\<close>, as every one of an accepted
  \<open>DeviceAuthorization\<close> is, no turn adds past the type's end, and the next interval is again one of those; the
  largest intervals a caller could pass are not, and two's complement would make a negative interval of them.\<close>

theorem DevicePoll_interval_in_range:
  assumes "0 \<le> interval" and "interval < 2 ^ 63 - 5"
    and "device_turn env yy ep client_id device_code code_verifier deadline cancelled interval s = (Returns (Inr i), s')"
  shows "interval + 5 < 2 ^ 63 \<and> 0 \<le> i \<and> i < 2 ^ 63 - 5"
  using assms(3)
proof (cases rule: device_turn_cases)
  case (Pending result j s2)
  then have "next_interval result interval = Some i" by simp
  from next_interval_bounds [OF this assms(1)] assms(2) show ?thesis by simp
qed simp_all

lemma largest_interval_wraps: "sint (word_of_int (2 ^ 63 - 1) + 5 :: 64 word) < 0"
  by simp

end
