(* ===== verification/Login.thy ===== *)
theory Login
  imports Device
begin

text \<open>
  The browser login (\<open>oidc/src/oidc_core.cpp\<close>): \<open>BuildAuthorizationRequest\<close>, the \<open>LoopbackRedirect\<close> receiver and
  \<open>AuthorizationCodeLogin\<close>. The receiver's handler and its waiter run on two threads under one lock; each
  critical section is a function here, and a step relation interleaves them with the clock.
\<close>


section \<open>The request\<close>

record AuthorizationRequest =
  ar_url :: string
  ar_state :: string
  ar_verifier :: string
  ar_redirect_uri :: string
  ar_error :: string

definition AuthorizationRequest0 :: AuthorizationRequest where
  "AuthorizationRequest0 = \<lparr>ar_url = [], ar_state = [], ar_verifier = [], ar_redirect_uri = [], ar_error = []\<rparr>"

definition AuthorizationRequest_Ok :: "AuthorizationRequest \<Rightarrow> bool" where
  "AuthorizationRequest_Ok r \<longleftrightarrow> ar_error r = [] \<and> ar_url r \<noteq> []"

text \<open>The caller's extra parameters: never one that would replace the request or move its answer.\<close>

definition admitted :: "smap \<Rightarrow> smap" where
  "admitted extra = filter (\<lambda>(k, v). k \<noteq> ''request'' \<and> k \<noteq> ''request_uri'' \<and> k \<noteq> ''response_mode'') extra"

definition authorization_params :: "string \<Rightarrow> string \<Rightarrow> string \<Rightarrow> string \<Rightarrow> string \<Rightarrow> smap \<Rightarrow> smap" where
  "authorization_params client_id redirect_uri state verifier scope extra =
     emplace_all (admitted extra) (put_given ''scope'' scope
       (smap [(''response_type'', ''code''), (''client_id'', client_id), (''redirect_uri'', redirect_uri),
              (''state'', state), (''code_challenge'', PkceChallenge verifier), (''code_challenge_method'', ''S256'')]))"

definition BuildAuthorizationRequest :: "('t, 'w) env \<Rightarrow> Endpoints \<Rightarrow> string \<Rightarrow> string \<Rightarrow> string \<Rightarrow> smap \<Rightarrow>
    (('t, 'w) process, AuthorizationRequest) prog" where
  "BuildAuthorizationRequest env ep client_id redirect_uri scope extra =
     (if \<not> Endpoints_Ok ep then ret (AuthorizationRequest0\<lparr>ar_error := no_endpoint_error ep ''no endpoints''\<rparr>)
      else if authorization_endpoint ep = []
      then ret (AuthorizationRequest0\<lparr>ar_error := ''the issuer advertises no authorization_endpoint (no browser login offered)''\<rparr>)
      else bindp (outp (RandomUrlSafe (random_device env) 32)) (\<lambda>state.
           bindp (outp (RandomUrlSafe (random_device env) 32)) (\<lambda>verifier.
           ret (AuthorizationRequest0\<lparr>ar_state := state, ar_verifier := verifier, ar_redirect_uri := redirect_uri,
             ar_url := authorization_endpoint ep @ query_separator (authorization_endpoint ep)
               @ FormEncode (authorization_params client_id redirect_uri state verifier scope extra)\<rparr>))))"


section \<open>The receiver\<close>

record login_result =
  lr_code :: string
  lr_error :: string
  lr_error_code :: string

definition login_result0 :: login_result where
  "login_result0 = \<lparr>lr_code = [], lr_error = [], lr_error_code = []\<rparr>"

definition login_Ok :: "login_result \<Rightarrow> bool" where
  "login_Ok r \<longleftrightarrow> lr_error r = [] \<and> lr_code r \<noteq> []"

record receiver =
  rc_started :: bool
  rc_port :: int
  rc_expected :: string
  rc_done :: bool
  rc_result :: login_result

definition receiver0 :: receiver where
  "receiver0 = \<lparr>rc_started = False, rc_port = 0, rc_expected = [], rc_done = False, rc_result = login_result0\<rparr>"

definition CallbackPage :: "bool \<Rightarrow> string" where
  "CallbackPage ok =
     ''<!doctype html><html><head><meta charset='' @ quoted ''utf-8'' @ ''><title>Login</title></head><body><p>''
     @ (if ok then ''Login complete.'' else ''Login failed.'') @ '' You can close this window.</p></body></html>''"

text \<open>A request's query: \<open>get_param_value\<close> gives the empty string for a parameter that is not there.\<close>

type_synonym query = "(string \<times> string) list"

definition param_value :: "query \<Rightarrow> string \<Rightarrow> string" where
  "param_value q key = (case map_of q key of None \<Rightarrow> [] | Some v \<Rightarrow> v)"

text \<open>What the callback that completes the login leaves as the result.\<close>

definition callback_result :: "query \<Rightarrow> login_result" where
  "callback_result q =
     (let code = param_value q ''code''; idp_error = param_value q ''error'' in
      if idp_error \<noteq> [] \<or> code = [] then
        (let error_code = (if idp_error = [] then ''invalid_request'' else Printable idp_error);
             description = Printable (param_value q ''error_description'')
         in login_result0\<lparr>lr_error_code := error_code,
              lr_error := (if idp_error = [] then ''the redirect carried neither a code nor an error''
                           else error_code @ (if description = [] then [] else '': '' @ description))\<rparr>)
      else login_result0\<lparr>lr_code := code\<rparr>)"

text \<open>The handler of \<open>GET /callback\<close>: the status it sets (\<open>None\<close> for none, the server's 200) and the page it
  answers, and the receiver it leaves.\<close>

definition loopback_callback :: "query \<Rightarrow> receiver \<Rightarrow> (int option \<times> string) \<times> receiver" where
  "loopback_callback q rc =
     (if rc_done rc \<or> rc_expected rc = [] \<or> param_value q ''state'' \<noteq> rc_expected rc
      then ((Some 400, CallbackPage False), rc)
      else
        (let rc = rc\<lparr>rc_result := callback_result q, rc_done := True\<rparr>
         in ((None, CallbackPage (login_Ok (rc_result rc))), rc)))"

text \<open>\<open>Start\<close>, with the port the operating system gave (0 or less for none): \<open>Some error\<close> for false.\<close>

definition LoopbackRedirect_Start :: "build \<Rightarrow> int \<Rightarrow> receiver \<Rightarrow> string option \<times> receiver" where
  "LoopbackRedirect_Start bld bound rc =
     (if rc_started rc then (Some ''the login redirect receiver was already started'', rc)
      else if bld = NoBuiltin
      then (Some ''this build has no loopback receiver for the login redirect (no sockets)'', rc\<lparr>rc_started := True\<rparr>)
      else
        (let rc = rc\<lparr>rc_started := True, rc_port := bound\<rparr>
         in (if bound \<le> 0 then Some ''could not bind a loopback port for the login redirect'' else None, rc)))"

definition RedirectUri :: "receiver \<Rightarrow> string" where
  "RedirectUri rc = ''http://127.0.0.1:'' @ to_string (rc_port rc) @ ''/callback''"

definition LoopbackRedirect_Expect :: "string \<Rightarrow> receiver \<Rightarrow> receiver" where
  "LoopbackRedirect_Expect state rc = rc\<lparr>rc_expected := state\<rparr>"

text \<open>\<open>Wait\<close>, in its parts: the refusal of a receiver that does not run; the section at the head of the loop,
  with the end it comes to or \<open>None\<close> for the sleep; the section behind a cancellation.\<close>

definition wait_refused :: "receiver \<Rightarrow> login_result option" where
  "wait_refused rc =
     (if \<not> rc_started rc \<or> rc_port rc \<le> 0
      then Some (login_result0\<lparr>lr_error := ''the login redirect receiver is not running'', lr_error_code := ''invalid_request''\<rparr>)
      else None)"

definition wait_head :: "int \<Rightarrow> int \<Rightarrow> receiver \<Rightarrow> login_result option \<times> receiver" where
  "wait_head now deadline rc =
     (if rc_done rc then
        (let out = rc_result rc
         in (Some (if \<not> login_Ok out \<and> lr_error out = []
              then out\<lparr>lr_error := ''the login redirect receiver was already used'', lr_error_code := ''invalid_request''\<rparr>
              else out), rc))
      else if now \<ge> deadline then
        (let out = login_result0\<lparr>lr_error := ''the login timed out before the browser returned'',
               lr_error_code := ''expired_token''\<rparr>
         in (Some out, rc\<lparr>rc_done := True, rc_result := out\<rparr>))
      else (None, rc))"

definition wait_cancel :: "receiver \<Rightarrow> login_result option \<times> receiver" where
  "wait_cancel rc =
     (if \<not> rc_done rc then
        (let out = login_result0\<lparr>lr_error := ''login cancelled'', lr_error_code := ''cancelled''\<rparr>
         in (Some out, rc\<lparr>rc_done := True, rc_result := out\<rparr>))
      else (None, rc))"


section \<open>Handler and waiter, interleaved\<close>

text \<open>
  Where the waiter is: at the head of its loop, in \<open>wait_for\<close> with the lock released, between the two locks
  where it asks the caller, behind a \<open>true\<close> from the caller, or back at its caller. While the server listens
  a callback may come at any point where the lock is free, which is every point between the sections.
\<close>

datatype phase = Head | Asleep | Asking | Cancelling | Finished login_result

record login_state =
  ls_receiver :: receiver
  ls_phase :: phase
  ls_now :: int
  ls_listening :: bool

datatype login_event = Called query | Expected string | Moved

inductive login_step :: "int \<Rightarrow> login_state \<Rightarrow> login_event \<Rightarrow> login_state \<Rightarrow> bool" for deadline where
  callback: "ls_listening st \<Longrightarrow>
    login_step deadline st (Called q) (st\<lparr>ls_receiver := snd (loopback_callback q (ls_receiver st))\<rparr>)"
| expect: "login_step deadline st (Expected e) (st\<lparr>ls_receiver := LoopbackRedirect_Expect e (ls_receiver st)\<rparr>)"
| tick: "ls_now st \<le> now \<Longrightarrow> login_step deadline st Moved (st\<lparr>ls_now := now\<rparr>)"
| head_end: "ls_phase st = Head \<Longrightarrow> wait_head (ls_now st) deadline (ls_receiver st) = (Some out, rc) \<Longrightarrow>
    login_step deadline st Moved (st\<lparr>ls_receiver := rc, ls_phase := Finished out, ls_listening := False\<rparr>)"
| head_sleep: "ls_phase st = Head \<Longrightarrow> wait_head (ls_now st) deadline (ls_receiver st) = (None, rc) \<Longrightarrow>
    login_step deadline st Moved (st\<lparr>ls_receiver := rc, ls_phase := Asleep\<rparr>)"
| wake: "ls_phase st = Asleep \<Longrightarrow>
    login_step deadline st Moved (st\<lparr>ls_phase := (if rc_done (ls_receiver st) then Head else Asking)\<rparr>)"
| asked: "ls_phase st = Asking \<Longrightarrow>
    login_step deadline st Moved (st\<lparr>ls_phase := (if cancelled then Cancelling else Head)\<rparr>)"
| cancel_end: "ls_phase st = Cancelling \<Longrightarrow> wait_cancel (ls_receiver st) = (Some out, rc) \<Longrightarrow>
    login_step deadline st Moved (st\<lparr>ls_receiver := rc, ls_phase := Finished out, ls_listening := False\<rparr>)"
| cancel_late: "ls_phase st = Cancelling \<Longrightarrow> wait_cancel (ls_receiver st) = (None, rc) \<Longrightarrow>
    login_step deadline st Moved (st\<lparr>ls_receiver := rc, ls_phase := Head\<rparr>)"
| again: "ls_phase st = Finished out \<Longrightarrow> login_step deadline st Moved (st\<lparr>ls_phase := Head\<rparr>)"

text \<open>What a receiver that waits can come to, with the events so far, the latest first.\<close>

definition waiting :: "receiver \<Rightarrow> int \<Rightarrow> login_state" where
  "waiting rc now = \<lparr>ls_receiver = rc, ls_phase = Head, ls_now = now, ls_listening = True\<rparr>"

inductive login_run :: "int \<Rightarrow> login_state \<Rightarrow> login_event list \<Rightarrow> login_state \<Rightarrow> bool" for deadline st where
  run_start: "login_run deadline st [] st"
| run_step: "login_run deadline st es st' \<Longrightarrow> login_step deadline st' e st'' \<Longrightarrow> login_run deadline st (e # es) st''"

text \<open>The two ends that are not a callback's.\<close>

definition expired :: login_result where
  "expired = login_result0\<lparr>lr_error := ''the login timed out before the browser returned'', lr_error_code := ''expired_token''\<rparr>"

definition login_cancelled :: login_result where
  "login_cancelled = login_result0\<lparr>lr_error := ''login cancelled'', lr_error_code := ''cancelled''\<rparr>"

text \<open>Every end is complete: a code, or an error with its text. The branch of \<open>Wait\<close> that patches an end
  with neither is never taken.\<close>

definition complete :: "login_result \<Rightarrow> bool" where
  "complete r \<longleftrightarrow> login_Ok r \<or> lr_error r \<noteq> []"

lemma callback_complete: "complete (callback_result q)"
  by (simp add: complete_def callback_result_def login_Ok_def login_result0_def Let_def)

lemma expired_complete [simp]: "complete expired" "complete login_cancelled" "\<not> login_Ok expired" "\<not> login_Ok login_cancelled"
  by (simp_all add: complete_def expired_def login_cancelled_def login_Ok_def login_result0_def)

text \<open>What holds of every state of a run.\<close>

definition came_from :: "string \<Rightarrow> login_event list \<Rightarrow> login_result \<Rightarrow> bool" where
  "came_from first es r \<longleftrightarrow> r = expired \<or> r = login_cancelled
     \<or> (\<exists>q. Called q \<in> set es \<and> param_value q ''state'' \<noteq> [] \<and> r = callback_result q
          \<and> (param_value q ''state'' = first \<or> Expected (param_value q ''state'') \<in> set es))"

definition login_inv :: "string \<Rightarrow> login_event list \<Rightarrow> login_state \<Rightarrow> bool" where
  "login_inv first es st \<longleftrightarrow>
     (rc_expected (ls_receiver st) = first \<or> Expected (rc_expected (ls_receiver st)) \<in> set es)
     \<and> (rc_done (ls_receiver st) \<longrightarrow> came_from first es (rc_result (ls_receiver st)))
     \<and> (\<forall>out. ls_phase st = Finished out \<longrightarrow> rc_done (ls_receiver st) \<and> out = rc_result (ls_receiver st))"

lemma came_from_Cons: "came_from first es r \<Longrightarrow> came_from first (e # es) r"
  by (auto simp: came_from_def)

lemma came_from_complete: "came_from first es r \<Longrightarrow> complete r"
  by (auto simp: came_from_def callback_complete)

lemma wait_head_done: "rc_done rc \<Longrightarrow> complete (rc_result rc) \<Longrightarrow> wait_head now deadline rc = (Some (rc_result rc), rc)"
  by (auto simp: wait_head_def complete_def Let_def)

lemma login_step_inv:
  assumes "login_step deadline st e st'" and "login_inv first es st"
  shows "login_inv first (e # es) st'"
  using assms
proof (cases rule: login_step.cases)
  case (callback q)
  show ?thesis
  proof (cases "rc_done (ls_receiver st) \<or> rc_expected (ls_receiver st) = []
      \<or> param_value q ''state'' \<noteq> rc_expected (ls_receiver st)")
    case True
    with callback assms(2) show ?thesis by (auto simp: login_inv_def loopback_callback_def came_from_Cons)
  next
    case False
    with callback assms(2) show ?thesis
      by (auto simp: login_inv_def loopback_callback_def came_from_def Let_def)
  qed
next
  case (expect x)
  with assms(2) show ?thesis by (auto simp: login_inv_def LoopbackRedirect_Expect_def came_from_Cons)
next
  case (head_end out rc)
  show ?thesis
  proof (cases "rc_done (ls_receiver st)")
    case True
    with assms(2) have "came_from first es (rc_result (ls_receiver st))" by (simp add: login_inv_def)
    with head_end True wait_head_done [OF True came_from_complete [OF this]] assms(2) show ?thesis
      by (auto simp: login_inv_def came_from_Cons)
  next
    case False
    with head_end assms(2) show ?thesis
      by (auto simp: login_inv_def wait_head_def came_from_def expired_def Let_def split: if_splits)
  qed
next
  case (head_sleep rc)
  with assms(2) show ?thesis
    by (auto simp: login_inv_def wait_head_def came_from_Cons Let_def split: if_splits)
next
  case (cancel_end out rc)
  with assms(2) show ?thesis
    by (auto simp: login_inv_def wait_cancel_def came_from_def login_cancelled_def Let_def split: if_splits)
next
  case (cancel_late rc)
  with assms(2) show ?thesis
    by (auto simp: login_inv_def wait_cancel_def came_from_Cons Let_def split: if_splits)
qed (auto simp: login_inv_def came_from_Cons)

lemma login_run_inv:
  assumes "login_run deadline st es st'" and "login_inv first [] st"
  shows "login_inv first es st'"
  using assms by (induction rule: login_run.induct) (auto intro: login_step_inv)

text \<open>A receiver that is done stays done with the same result.\<close>

lemma login_step_done:
  assumes "login_step deadline st e st'" and "login_inv first es st" and "rc_done (ls_receiver st)"
  shows "rc_done (ls_receiver st') \<and> rc_result (ls_receiver st') = rc_result (ls_receiver st)"
  using assms
proof (cases rule: login_step.cases)
  case (head_end out rc)
  from assms(2,3) have "came_from first es (rc_result (ls_receiver st))" by (simp add: login_inv_def)
  with head_end wait_head_done [OF assms(3) came_from_complete [OF this]] assms(3) show ?thesis by auto
qed (auto simp: loopback_callback_def LoopbackRedirect_Expect_def wait_head_def wait_cancel_def Let_def)


lemma login_run_done:
  assumes "login_run deadline st es st'" and "login_inv first es0 st" and "rc_done (ls_receiver st)"
  shows "login_inv first (es @ es0) st' \<and> rc_done (ls_receiver st')
    \<and> rc_result (ls_receiver st') = rc_result (ls_receiver st)"
  using assms
proof (induction rule: login_run.induct)
  case (run_step es st' e st'')
  then have inv: "login_inv first (es @ es0) st'" and "rc_done (ls_receiver st')" by blast+
  with login_step_inv [OF run_step.hyps(2) inv] login_step_done [OF run_step.hyps(2) inv] run_step show ?case by simp
qed simp

lemma waiting_inv: "\<not> rc_done rc \<Longrightarrow> login_inv (rc_expected rc) [] (waiting rc now)"
  by (simp add: login_inv_def waiting_def)


section \<open>\<open>AuthorizationCodeLogin\<close>\<close>

text \<open>
  What the flow calls of the outside: the port the system binds, the caller's \<open>present\<close> (a \<open>std::function\<close>,
  it may be empty), and how the wait on the receiver ends, which the threads above and the browser decide.
\<close>

record ('t, 'w) browser =
  bind_port :: "('w, int) prog"
  present :: "(string \<Rightarrow> (('t, 'w) process, unit) prog) option"
  await :: "receiver \<Rightarrow> int \<Rightarrow> (('t, 'w) process, login_result) prog"

definition LoopbackRedirect_Wait :: "('t, 'w) browser \<Rightarrow> receiver \<Rightarrow> int \<Rightarrow> (('t, 'w) process, login_result) prog" where
  "LoopbackRedirect_Wait br rc deadline = (case wait_refused rc of
     Some out \<Rightarrow> ret out
   | None \<Rightarrow> await br rc deadline)"

definition AuthorizationCodeLogin :: "('t, 'w) env \<Rightarrow> ('d, 'v) yyjson \<Rightarrow> ('t, 'w) browser \<Rightarrow> Endpoints \<Rightarrow> string \<Rightarrow>
    string \<Rightarrow> int \<Rightarrow> smap \<Rightarrow> (('t, 'w) process, TokenSet) prog" where
  "AuthorizationCodeLogin env yy br ep client_id scope deadline extra =
     bindp (BuildAuthorizationRequest env ep client_id ''http://127.0.0.1/callback'' scope extra) (\<lambda>checked.
     if \<not> AuthorizationRequest_Ok checked then ret (TokenSet0\<lparr>ts_error := ar_error checked\<rparr>)
     else bindp (if build env = NoBuiltin then ret 0 else outp (bind_port br)) (\<lambda>bound.
       case LoopbackRedirect_Start (build env) bound receiver0 of
         (Some error, _) \<Rightarrow> ret (TokenSet0\<lparr>ts_error := error\<rparr>)
       | (None, rc) \<Rightarrow>
           bindp (BuildAuthorizationRequest env ep client_id (RedirectUri rc) scope extra) (\<lambda>request.
           if \<not> AuthorizationRequest_Ok request then ret (TokenSet0\<lparr>ts_error := ar_error request\<rparr>)
           else
             let rc = LoopbackRedirect_Expect (ar_state request) rc in
             bindp (case present br of None \<Rightarrow> ret () | Some show \<Rightarrow> show (ar_url request)) (\<lambda>_.
             bindp (LoopbackRedirect_Wait br rc deadline) (\<lambda>redirect.
             if \<not> login_Ok redirect
             then ret (TokenSet0\<lparr>ts_error := lr_error redirect, error_code := lr_error_code redirect\<rparr>)
             else ExchangeAuthorizationCode env yy ep client_id (lr_code redirect) (ar_verifier request)
                 (ar_redirect_uri request))))))"


section \<open>Properties\<close>

text \<open>C12: A login ends with a code only through a callback that carried it together with the expected state,
  and no error: whatever callbacks arrive, before, during and between the waiter's sections, whatever the
  clock and the caller's cancellation do. Any other end is a timeout, a cancellation or such a callback's error.\<close>

theorem login_code_from_callback:
  assumes "login_run deadline (waiting rc now) es st" and "\<not> rc_done rc" and "ls_phase st = Finished out"
  shows "came_from (rc_expected rc) es out \<and>
    (login_Ok out \<longrightarrow> (\<exists>q. Called q \<in> set es \<and> param_value q ''state'' \<noteq> [] \<and>
       (param_value q ''state'' = rc_expected rc \<or> Expected (param_value q ''state'') \<in> set es) \<and>
       param_value q ''error'' = [] \<and> lr_code out = param_value q ''code''))"
proof -
  from login_run_inv [OF assms(1) waiting_inv [OF assms(2)]] assms(3)
  have "came_from (rc_expected rc) es out" by (auto simp: login_inv_def)
  moreover have "param_value q ''error'' = [] \<and> lr_code (callback_result q) = param_value q ''code''"
    if "login_Ok (callback_result q)" for q
    using that by (auto simp: callback_result_def login_Ok_def login_result0_def Let_def split: if_splits)
  ultimately show ?thesis by (fastforce simp: came_from_def)
qed

definition expecting :: "string \<Rightarrow> receiver" where
  "expecting state = LoopbackRedirect_Expect state (receiver0\<lparr>rc_started := True, rc_port := 4242\<rparr>)"

text \<open>The run of a browser that comes back at once with the expected state.\<close>

lemma prompt_run:
  assumes "state \<noteq> []" and "\<not> rc_done rc" and "rc_expected rc = state" and "param_value q ''state'' = state"
  shows "\<exists>st. login_run deadline (waiting rc now) [Moved, Called q] st \<and> ls_phase st = Finished (callback_result q)"
proof -
  let ?st = "(waiting rc now)\<lparr>ls_receiver := snd (loopback_callback q rc)\<rparr>"
  have called: "login_step deadline (waiting rc now) (Called q) ?st"
    using login_step.callback [of "waiting rc now" deadline q] by (simp add: waiting_def)
  have rc': "snd (loopback_callback q rc) = rc\<lparr>rc_result := callback_result q, rc_done := True\<rparr>"
    using assms by (auto simp: loopback_callback_def Let_def)
  have "wait_head now deadline (snd (loopback_callback q rc)) = (Some (callback_result q), snd (loopback_callback q rc))"
    using wait_head_done [of "snd (loopback_callback q rc)"] callback_complete by (simp add: rc')
  then have "login_step deadline ?st Moved (?st\<lparr>ls_receiver := snd (loopback_callback q rc),
      ls_phase := Finished (callback_result q), ls_listening := False\<rparr>)"
    by (intro login_step.head_end) (simp_all add: waiting_def)
  with called have "login_run deadline (waiting rc now) [Moved, Called q] (?st\<lparr>ls_receiver := snd (loopback_callback q rc),
      ls_phase := Finished (callback_result q), ls_listening := False\<rparr>)"
    by (intro login_run.run_step [OF login_run.run_step [OF login_run.run_start]])
  then show ?thesis by (intro exI, intro conjI, assumption) simp
qed

theorem login_code_from_callback_witness:
  "\<exists>st. login_run 100 (waiting (expecting ''st4te'') 0) [Moved, Called [(''state'', ''st4te''), (''code'', ''c0de'')]] st
    \<and> ls_phase st = Finished (login_result0\<lparr>lr_code := ''c0de''\<rparr>)
    \<and> came_from ''st4te'' [Moved, Called [(''state'', ''st4te''), (''code'', ''c0de'')]] (login_result0\<lparr>lr_code := ''c0de''\<rparr>)"
proof -
  let ?q = "[(''state'', ''st4te''), (''code'', ''c0de'')]"
  have result: "callback_result ?q = login_result0\<lparr>lr_code := ''c0de''\<rparr>" by code_simp
  have new: "\<not> rc_done (expecting ''st4te'')" "rc_expected (expecting ''st4te'') = ''st4te''"
    by (simp_all add: expecting_def LoopbackRedirect_Expect_def receiver0_def)
  have "param_value ?q ''state'' = ''st4te''" by code_simp
  from prompt_run [OF _ new this, of 100 0] obtain st where
      run: "login_run 100 (waiting (expecting ''st4te'') 0) [Moved, Called ?q] st"
    and fin: "ls_phase st = Finished (login_result0\<lparr>lr_code := ''c0de''\<rparr>)" by (auto simp: result)
  from login_code_from_callback [OF run new(1) fin] run fin new(2) show ?thesis by auto
qed

text \<open>A receiver has one end: once a wait has returned, every later callback is refused and every later wait
  returns the same.\<close>

theorem login_one_end:
  assumes "login_run deadline (waiting rc now) es st" and "\<not> rc_done rc" and "ls_phase st = Finished out"
    and "login_run deadline' st es' st'"
  shows "fst (loopback_callback q (ls_receiver st')) = (Some 400, CallbackPage False)
    \<and> (\<forall>out'. ls_phase st' = Finished out' \<longrightarrow> out' = out)
    \<and> wait_head now' deadline' (ls_receiver st') = (Some out, ls_receiver st')"
proof -
  note inv = login_run_inv [OF assms(1) waiting_inv [OF assms(2)]]
  with assms(3) have ended: "rc_done (ls_receiver st)" "out = rc_result (ls_receiver st)" by (auto simp: login_inv_def)
  from login_run_done [OF assms(4) inv ended(1)]
  have inv': "login_inv (rc_expected rc) (es' @ es) st'" and done': "rc_done (ls_receiver st')"
    and same: "rc_result (ls_receiver st') = out" using ended(2) by auto
  from inv' done' have "complete (rc_result (ls_receiver st'))"
    using came_from_complete by (auto simp: login_inv_def)
  with wait_head_done [OF done'] inv' done' same show ?thesis
    by (auto simp: loopback_callback_def login_inv_def)
qed

theorem login_one_end_witness:
  "\<exists>st. login_run 100 (waiting (expecting ''st4te'') 0) [Moved, Called [(''state'', ''st4te''), (''code'', ''c0de'')]] st
    \<and> fst (loopback_callback [(''state'', ''st4te''), (''code'', ''other'')] (ls_receiver st)) = (Some 400, CallbackPage False)"
proof -
  let ?q = "[(''state'', ''st4te''), (''code'', ''c0de'')]"
  have new: "\<not> rc_done (expecting ''st4te'')" "rc_expected (expecting ''st4te'') = ''st4te''"
    by (simp_all add: expecting_def LoopbackRedirect_Expect_def receiver0_def)
  have "param_value ?q ''state'' = ''st4te''" by code_simp
  from prompt_run [OF _ new this, of 100 0] obtain st where
      run: "login_run 100 (waiting (expecting ''st4te'') 0) [Moved, Called ?q] st"
    and fin: "ls_phase st = Finished (callback_result ?q)" by blast
  from login_one_end [OF run new(1) fin login_run.run_start] run show ?thesis by blast
qed



text \<open>An issuer that answers with tokens, and a browser that comes back with the state it was sent.\<close>

definition login_env :: "(unit, int) env" where
  "login_env = ticking_env\<lparr>http_client := (\<lambda>c. ret (Inr (200, ''tokens''))), random_device := (\<lambda>w. (Returns 7, w))\<rparr>"

definition login_yy :: "((string \<times> jval) list, jval) yyjson" where
  "login_yy = table_yyjson [(''tokens'', [(''access_token'', JStr ''at'')])]"

definition login_endpoints :: Endpoints where
  "login_endpoints = device_endpoints\<lparr>authorization_endpoint := ''http://idp/a''\<rparr>"

definition login_browser :: "(unit, int) browser" where
  "login_browser = \<lparr>bind_port = ret 4242, present = None,
     await = (\<lambda>rc deadline. if rc_done rc \<or> rc_expected rc = [] then (\<lambda>s. (Throws, s))
       else ret (callback_result [(''state'', rc_expected rc), (''code'', ''c0de'')]))\<rparr>"

lemma login_exchange:
  assumes "CurrentTransport s = None"
  shows "PostGrant login_env login_yy login_endpoints params [] s = (Returns (TokenSet0\<lparr>access_token := ''at''\<rparr>), s)"
proof -
  have "url_error (ParseUrl ''http://idp/t'') = []" and "\<not> url_https (ParseUrl ''http://idp/t'')" by code_simp+
  then have "HttpPostForm login_env ''http://idp/t'' params s = (Returns (HttpResult0\<lparr>hr_status := 200, hr_body := ''tokens''\<rparr>), s)"
    using assms by (simp add: HttpPostForm_def HttpSend_def form_request_def BuiltInSend_def Run_def Let_def login_env_def
        ticking_env_def outp_def bindp_def client_answer_def)
  moreover have "token_endpoint login_endpoints = ''http://idp/t''" and "Endpoints_Ok login_endpoints" by code_simp+
  moreover have "HttpResult_Ok (HttpResult0\<lparr>hr_status := 200, hr_body := ''tokens''\<rparr>)" by code_simp
  moreover have "ParseTokenResponse login_yy now (HttpResult0\<lparr>hr_status := 200, hr_body := ''tokens''\<rparr>)
      = TokenSet0\<lparr>access_token := ''at''\<rparr>" for now
    by (simp add: ParseTokenResponse_def HttpResult0_def HttpResult_Ok_def Let_def login_yy_def json_accessors A_YEAR_def TokenSet0_def)
  ultimately show ?thesis by (simp add: PostGrant_def NowSeconds_def bindp_def)
qed

lemma random_raw_stays:
  "\<forall>s. \<exists>v. device s = (Returns v, s) \<Longrightarrow> random_raw device n raw s = (r, s') \<Longrightarrow> s' = s"
proof (induction device n raw s rule: random_raw.induct)
  case (1 device n raw s)
  from "1.prems"(1) obtain v where "device s = (Returns v, s)" by blast
  with 1 show ?case by (subst (asm) (2) random_raw.simps) (auto split: if_splits)
qed

lemma login_builds:
  "\<exists>request. BuildAuthorizationRequest login_env login_endpoints ''app'' uri [] [] s = (Returns request, s)
    \<and> AuthorizationRequest_Ok request \<and> ar_state request \<noteq> []"
proof -
  have "\<forall>w. \<exists>v w'. random_device login_env w = (Returns v, w')" by (simp add: login_env_def)
  from RandomUrlSafe_returns [OF this] obtain r w where
      r: "RandomUrlSafe (random_device login_env) 32 (outside s) = (Returns r, w)" by blast
  moreover have "\<forall>w. \<exists>v. random_device login_env w = (Returns v, w)" by (simp add: login_env_def)
  then have "w = outside s" using random_raw_stays r by (auto simp: RandomUrlSafe_def elim!: bindp_ReturnsE)
  ultimately have rand: "outp (RandomUrlSafe (random_device login_env) 32) s = (Returns r, s)" by (simp add: outp_def)
  have "r \<noteq> []" using RandomUrlSafe_spec(1) [OF r] by auto
  moreover have "Endpoints_Ok login_endpoints" and "authorization_endpoint login_endpoints = ''http://idp/a''" by code_simp+
  ultimately show ?thesis
    by (simp add: BuildAuthorizationRequest_def rand AuthorizationRequest_Ok_def AuthorizationRequest0_def
        bindp_Returns [of "outp (RandomUrlSafe (random_device login_env) 32)", OF rand])
qed



end
