(* ===== verification/Cleartext.thy ===== *)
theory Cleartext
  imports Login
begin

text \<open>
  The flows of \<open>oidc/src/oidc_core.cpp\<close> over discovered endpoints: what \<open>ParseDiscoveryDocument\<close> promises of the
  endpoints it accepts for an https issuer, and what every grant, the revocation, the device flow and the browser login
  make of that promise. That no cleartext request is made is stated as indifference: a flow does the same in two
  surroundings that differ only in what becomes of requests that are not https.
\<close>


section \<open>Surroundings that differ in cleartext requests only\<close>

definition diverted :: "('t \<Rightarrow> request \<Rightarrow> (('t, 'w) process, HttpResult) prog) \<Rightarrow>
    (client_request \<Rightarrow> ('w, string + int \<times> string) prog) \<Rightarrow> ('t, 'w) env \<Rightarrow> ('t, 'w) env" where
  "diverted transport client env = env\<lparr>
     run_transport := (\<lambda>t rq. if prefix ''https://'' (rq_url rq) then run_transport env t rq else transport t rq),
     http_client := (\<lambda>c. if cr_https c then http_client env c else client c)\<rparr>"

lemma diverted_same [simp]:
  "build (diverted t c env) = build env" "stat_file (diverted t c env) = stat_file env"
  "open_file (diverted t c env) = open_file env" "pem_infos (diverted t c env) = pem_infos env"
  "clock (diverted t c env) = clock env" "random_device (diverted t c env) = random_device env"
  "getenv (diverted t c env) = getenv env" "sleep_second (diverted t c env) = sleep_second env"
  by (simp_all add: diverted_def)

lemma diverted_NowSeconds [simp]: "NowSeconds (diverted t c env) = NowSeconds env"
  by (intro ext) (simp add: NowSeconds_def)

lemma diverted_ReadCaBundle [simp]: "ReadCaBundle (diverted t c env) = ReadCaBundle env"
proof -
  have "ReadRegularFile (diverted t c env) = ReadRegularFile env"
    by (intro ext) (simp add: ReadRegularFile_def cong: option.case_cong prod.case_cong if_cong)
  then show ?thesis
    by (intro ext) (simp add: ReadCaBundle_def Let_def cong: option.case_cong)
qed

lemma cr_https_fill_request [simp]: "cr_https (fill_request rq parts c) = cr_https c"
  by (simp add: fill_request_def Let_def)

lemma diverted_http_client: "cr_https r \<Longrightarrow> http_client (diverted t c env) r = http_client env r"
  by (simp add: diverted_def)

lemma diverted_Run:
  assumes "url_error url \<noteq> [] \<or> url_https url"
  shows "Run (diverted t c env) url timeout (fill_request rq parts) s = Run env url timeout (fill_request rq parts) s"
  using assms by (simp add: Run_def client_for_def diverted_http_client Let_def split: prod.split)

lemma ParseUrl_https:
  assumes "prefix ''https://'' url"
  shows "url_error (ParseUrl url) \<noteq> [] \<or> url_https (ParseUrl url)"
proof (rule ccontr)
  assume "\<not> ?thesis"
  with ParseUrl_accepts [of url] obtain authority tail where "url = scheme_text False @ authority @ tail"
    by (auto simp: url_shape_def)
  with assms show False by (simp add: scheme_text_def)
qed

lemma diverted_HttpSend:
  assumes "prefix ''https://'' (rq_url rq)"
  shows "HttpSend (diverted t c env) rq = HttpSend env rq"
proof
  fix s
  have "BuiltInSend (diverted t c env) rq = BuiltInSend env rq"
    using ParseUrl_https [OF assms] by (intro ext) (simp add: BuiltInSend_def diverted_Run Let_def)
  moreover have "run_transport (diverted t c env) transport rq = run_transport env transport rq" for transport
    using assms by (simp add: diverted_def)
  ultimately show "HttpSend (diverted t c env) rq s = HttpSend env rq s"
    by (simp add: HttpSend_def Let_def split: option.split)
qed

lemma diverted_HttpPostForm: "prefix ''https://'' url \<Longrightarrow> HttpPostForm (diverted t c env) url = HttpPostForm env url"
  by (intro ext) (simp add: HttpPostForm_def form_request_def diverted_HttpSend)

lemma diverted_HttpGet: "prefix ''https://'' url \<Longrightarrow> HttpGet (diverted t c env) url = HttpGet env url"
  by (intro ext) (simp add: HttpGet_def diverted_HttpSend)


section \<open>The flows over encrypted endpoints\<close>

definition encrypted :: "Endpoints \<Rightarrow> bool" where
  "encrypted ep \<longleftrightarrow> list_all (\<lambda>e. e = [] \<or> prefix ''https://'' e) (endpoint_list ep)"

lemma encrypted_endpoints:
  assumes "encrypted ep"
  shows "token_endpoint ep \<noteq> [] \<Longrightarrow> prefix ''https://'' (token_endpoint ep)"
    and "device_authorization_endpoint ep \<noteq> [] \<Longrightarrow> prefix ''https://'' (device_authorization_endpoint ep)"
    and "authorization_endpoint ep \<noteq> [] \<Longrightarrow> prefix ''https://'' (authorization_endpoint ep)"
    and "revocation_endpoint ep \<noteq> [] \<Longrightarrow> prefix ''https://'' (revocation_endpoint ep)"
  using assms by (auto simp: encrypted_def endpoint_list_def)

lemma accepted_encrypted:
  assumes "Endpoints_Ok (ParseDiscoveryDocument yy issuer r)" and "prefix ''https://'' issuer"
  shows "encrypted (ParseDiscoveryDocument yy issuer r)"
proof -
  have "cleartext_endpoint (ParseDiscoveryDocument yy issuer r) = None"
    using assms by (auto simp: ParseDiscoveryDocument_def Let_def Endpoints_Ok_def Endpoints0_def
        split: if_splits option.splits)
  then show ?thesis by (simp add: cleartext_endpoint_None encrypted_def list_all_iff)
qed

lemma diverted_PostGrant:
  assumes "encrypted ep"
  shows "PostGrant (diverted t c env) yy ep = PostGrant env yy ep"
  using encrypted_endpoints(1) [OF assms]
  by (intro ext) (simp add: PostGrant_def Endpoints_Ok_def diverted_HttpPostForm)

lemma diverted_AddClientAuth: "AddClientAuth (diverted t c env) ssl = AddClientAuth env ssl"
proof -
  have "SignClientAssertion (diverted t c env) ssl = SignClientAssertion env ssl"
    by (intro ext) (unfold SignClientAssertion_def diverted_same diverted_NowSeconds, rule refl)
  then show ?thesis by (intro ext) (simp add: AddClientAuth_def client_assertion_def Let_def)
qed

lemmas diverted_grant = diverted_PostGrant diverted_AddClientAuth

lemma diverted_exchange_end: "encrypted ep \<Longrightarrow> exchange_end (diverted t c env) yy ep = exchange_end env yy ep"
  by (intro ext) (simp add: exchange_end_def diverted_grant)

lemma diverted_grants:
  assumes "encrypted ep"
  shows "ClientCredentials (diverted t c env) yy ssl ep = ClientCredentials env yy ssl ep"
    and "PasswordGrant (diverted t c env) yy ep = PasswordGrant env yy ep"
    and "RefreshGrant (diverted t c env) yy ep = RefreshGrant env yy ep"
    and "ExchangeAuthorizationCode (diverted t c env) yy ep = ExchangeAuthorizationCode env yy ep"
    and "TokenExchange (diverted t c env) yy ssl ep = TokenExchange env yy ssl ep"
    and "OnBehalfOf (diverted t c env) yy ssl ep = OnBehalfOf env yy ssl ep"
  by (unfold ClientCredentials_def PasswordGrant_def RefreshGrant_def ExchangeAuthorizationCode_def TokenExchange_def
      OnBehalfOf_def fun_eq_iff diverted_PostGrant [OF assms] diverted_AddClientAuth diverted_exchange_end [OF assms])
    (intro allI refl)+

lemma diverted_Revoke:
  assumes "encrypted ep"
  shows "Revoke (diverted t c env) yy ep = Revoke env yy ep"
  using encrypted_endpoints(4) [OF assms] by (intro ext) (simp add: Revoke_def diverted_HttpPostForm)

lemma diverted_DeviceBegin:
  assumes "encrypted ep"
  shows "DeviceBegin (diverted t c env) yy ep = DeviceBegin env yy ep"
proof -
  have "device_verifier (diverted t c env) ep = device_verifier env ep" by (simp add: device_verifier_def)
  then show ?thesis
    using encrypted_endpoints(2) [OF assms] by (intro ext) (simp add: DeviceBegin_def diverted_HttpPostForm)
qed


section \<open>The device loop\<close>

lemma diverted_device_sleep: "device_sleep (diverted t c env) cancelled n = device_sleep env cancelled n"
proof (induction n)
  case (Suc n)
  show ?case unfolding device_sleep.simps diverted_same Suc by (rule refl)
qed simp

lemma diverted_device_turn:
  "encrypted ep \<Longrightarrow> device_turn (diverted t c env) yy ep = device_turn env yy ep"
  by (intro ext) (simp add: device_turn_def diverted_PostGrant diverted_device_sleep cong: option.case_cong if_cong)

text \<open>A loop whose turns are those of another ends where that one ends.\<close>

lemma device_loop_same:
  assumes "device_loop env yy ep client_id device_code code_verifier deadline cancelled interval s = Some r"
    and "device_turn env' yy ep = device_turn env yy ep"
  shows "device_loop env' yy ep client_id device_code code_verifier deadline cancelled interval s = Some r"
proof -
  have "device_turn env' yy ep = device_turn env yy ep \<longrightarrow>
      device_loop env' yy ep client_id device_code code_verifier deadline cancelled interval s = Some r"
  proof (rule device_loop.raw_induct [OF _ assms(1), of "\<lambda>env yy ep client_id device_code code_verifier deadline cancelled interval s r.
        device_turn env' yy ep = device_turn env yy ep \<longrightarrow>
        device_loop env' yy ep client_id device_code code_verifier deadline cancelled interval s = Some r"], goal_cases)
    case (1 loop env yy ep client_id device_code code_verifier deadline cancelled interval s r)
    from 1(2) show ?case
      by (subst device_loop.simps) (auto split: prod.splits outcome.splits sum.splits dest!: 1(1))
  qed
  with assms(2) show ?thesis by blast
qed

lemma diverted_DevicePoll:
  assumes "encrypted ep"
  shows "DevicePoll (diverted t c env) yy ep = DevicePoll env yy ep"
proof -
  note turn = diverted_device_turn [OF assms]
  have "device_loop (diverted t c env) yy ep client_id device_code code_verifier deadline cancelled interval s
      = device_loop env yy ep client_id device_code code_verifier deadline cancelled interval s"
    for client_id device_code code_verifier deadline cancelled interval s
    using device_loop_same [OF _ turn] device_loop_same [OF _ turn [symmetric]] by (metis option.exhaust)
  then show ?thesis by (intro ext) (simp add: DevicePoll_def)
qed

lemma diverted_Login:
  assumes "encrypted ep"
  shows "AuthorizationCodeLogin (diverted t c env) yy br ep = AuthorizationCodeLogin env yy br ep"
proof -
  have "BuildAuthorizationRequest (diverted t c env) = BuildAuthorizationRequest env"
    by (intro ext) (simp add: BuildAuthorizationRequest_def)
  then show ?thesis
    by (intro ext) (unfold AuthorizationCodeLogin_def diverted_same diverted_grants [OF assms], simp only:)
qed


section \<open>Property\<close>


definition sample_idp :: "request \<Rightarrow> HttpResult" where
  "sample_idp rq = HttpResult0\<lparr>hr_status := 200,
     hr_body := (if rq_url rq = ''https://i/.well-known/openid-configuration'' then ''d'' else [])\<rparr>"

definition idp_yy :: "((string \<times> jval) list, jval) yyjson" where
  "idp_yy = table_yyjson [(''d'', [(''issuer'', JStr ''https://i''), (''token_endpoint'', JStr ''https://i/t''),
     (''revocation_endpoint'', JStr ''https://i/r'')])]"

lemma ReturnsE:
  assumes "case m of (Returns x, s) \<Rightarrow> P x s | _ \<Rightarrow> False"
  obtains x s where "m = (Returns x, s)" and "P x s"
proof (cases m)
  case (Pair r s)
  with assms that show thesis by (cases r) simp_all
qed


end
