(* ===== verification/Parsers.thy ===== *)
theory Parsers
  imports Cleartext
begin

text \<open>
  The three parsers of what an issuer answers, driven as \<open>oidc/fuzz/fuzz_oidc_parse.cpp\<close> drives them. The harness throws
  the results away; here they are its value, so that what it promises of them for every input can be stated.
\<close>


section \<open>The harness\<close>

datatype parsed = Tokens TokenSet | Discovered Endpoints | DeviceCode DeviceAuthorization

definition fuzz_response :: "char \<Rightarrow> string \<Rightarrow> HttpResult" where
  "fuzz_response selector body =
     HttpResult0\<lparr>hr_status := (if code_of selector AND 0x80 \<noteq> 0 then 400 else 200), hr_body := body\<rparr>"

definition LLVMFuzzerTestOneInput :: "('d, 'v) yyjson \<Rightarrow> int \<Rightarrow> string \<Rightarrow> parsed option" where
  "LLVMFuzzerTestOneInput yy now data = (case data of
     [] \<Rightarrow> None
   | selector # body \<Rightarrow>
       (let response = fuzz_response selector body
        in if code_of selector mod 3 = 0 then Some (Tokens (ParseTokenResponse yy now response))
           else if code_of selector mod 3 = 1
           then Some (Discovered (ParseDiscoveryDocument yy ''https://issuer.test'' response))
           else Some (DeviceCode (ParseDeviceAuthorization yy response))))"


section \<open>Texts for a terminal\<close>

definition printable :: "string \<Rightarrow> bool" where
  "printable text \<longleftrightarrow> list_all (\<lambda>c. 0x20 \<le> code_of c \<and> code_of c \<noteq> 0x7f) text"

lemma printable_append [simp]: "printable (s @ t) \<longleftrightarrow> printable s \<and> printable t"
  by (simp add: printable_def)

lemma printable_Printable [simp]: "printable (Printable text)"
proof -
  have "code_of CHR ''?'' = 63" by code_simp
  then show ?thesis by (auto simp: printable_def Printable_def list_all_iff)
qed

lemma protocol_texts [simp]:
  "printable (protocol_code yy body)" "printable (protocol_description yy body)"
  by (simp_all add: protocol_code_def protocol_description_def)

text \<open>A text the parsers may hand on: printable, and at most a code, a separator and a description long.\<close>

definition shown :: "string \<Rightarrow> bool" where
  "shown text \<longleftrightarrow> printable text \<and> length text \<le> 64 + 2 + 512"

lemma shown_fixed [simp]:
  "shown []" "shown ''the token endpoint answered 2xx without an access_token''"
  "shown ''device authorization answered without a device_code''"
  "shown (''HTTP '' @ to_string 400)" "shown (''HTTP '' @ to_string 400 @ '' from the token endpoint'')"
  by code_simp+

lemma shown_protocol [simp]:
  "shown (protocol_code yy body)"
  "shown (protocol_code yy body @ '': '' @ protocol_description yy body)"
proof -
  note bounds = protocol_code_length [of yy body] protocol_description_length [of yy body]
  have "printable '': ''" by code_simp
  then have "printable ('': '' @ protocol_description yy body)" unfolding printable_append by simp
  with bounds show "shown (protocol_code yy body @ '': '' @ protocol_description yy body)"
    by (simp add: shown_def)
  from bounds show "shown (protocol_code yy body)" by (simp add: shown_def)
qed

lemmas shown_texts [simp] = shown_fixed [unfolded append_Cons append_Nil] shown_protocol [unfolded append_Cons append_Nil]


section \<open>What each parser promises\<close>

definition sound_tokens :: "int \<Rightarrow> TokenSet \<Rightarrow> bool" where
  "sound_tokens now t \<longleftrightarrow> (TokenSet_Ok t \<longleftrightarrow> ts_error t = []) \<and> shown (ts_error t) \<and> shown (error_code t)
     \<and> length (error_code t) \<le> 64 \<and> expires_at t \<in> insert 0 {now <.. now + A_YEAR}"

definition sound_endpoints :: "string \<Rightarrow> Endpoints \<Rightarrow> bool" where
  "sound_endpoints issuer ep \<longleftrightarrow> ep_issuer ep = issuer
     \<and> (if Endpoints_Ok ep then encrypted ep else ep_error ep \<noteq> [])"

definition sound_device :: "DeviceAuthorization \<Rightarrow> bool" where
  "sound_device d \<longleftrightarrow> (DeviceAuthorization_Ok d \<longleftrightarrow> da_error d = []) \<and> shown (da_error d)
     \<and> da_interval d \<in> {1..900} \<and> da_expires_in d \<in> {1..86400}"

lemma fuzz_response_simps [simp]:
  "hr_error (fuzz_response selector body) = []" "hr_body (fuzz_response selector body) = body"
  "HttpResult_Ok (fuzz_response selector body) \<longleftrightarrow> code_of selector AND 0x80 = 0"
  "code_of selector AND 0x80 \<noteq> 0 \<Longrightarrow> hr_status (fuzz_response selector body) = 400"
  by (simp_all add: fuzz_response_def HttpResult0_def HttpResult_Ok_def)

lemma ParseTokenResponse_sound: "sound_tokens now (ParseTokenResponse yy now (fuzz_response selector body))"
proof -
  let ?t = "ParseTokenResponse yy now (fuzz_response selector body)"
  have "TokenSet_Ok ?t \<longleftrightarrow> ts_error ?t = []"
    using ParseTokenResponse_failure [of yy now "fuzz_response selector body"] by (auto simp: TokenSet_Ok_def)
  moreover have "shown (ts_error ?t)" "shown (error_code ?t)" "length (error_code ?t) \<le> 64"
    using protocol_code_length [of yy body]
    by (simp_all add: ParseTokenResponse_def Let_def TokenSet0_def)
  moreover have "expires_at ?t \<in> insert 0 {now <.. now + A_YEAR}"
    using ParseTokenResponse_expiry [of yy now "fuzz_response selector body"] by auto
  ultimately show ?thesis by (simp add: sound_tokens_def)
qed

lemma ParseDiscoveryDocument_sound:
  assumes "prefix ''https://'' issuer"
  shows "sound_endpoints issuer (ParseDiscoveryDocument yy issuer r)"
  using assms ParseDiscoveryDocument_refusal [of yy issuer r] accepted_encrypted [of yy issuer r]
  by (auto simp: sound_endpoints_def ParseDiscoveryDocument_issuer)

lemma ParseDeviceAuthorization_sound: "sound_device (ParseDeviceAuthorization yy (fuzz_response selector body))"
proof -
  let ?d = "ParseDeviceAuthorization yy (fuzz_response selector body)"
  have "DeviceAuthorization_Ok ?d \<longleftrightarrow> da_error ?d = []"
    by (simp add: ParseDeviceAuthorization_def DeviceAuthorization_Ok_def DeviceAuthorization0_def Let_def)
  moreover have "shown (da_error ?d)"
    by (simp add: ParseDeviceAuthorization_def DeviceAuthorization0_def Let_def)
  ultimately show ?thesis
    using ParseDeviceAuthorization_bounds [of yy "fuzz_response selector body"] by (simp add: sound_device_def)
qed


section \<open>Property\<close>

text \<open>C8: The promise of the fuzz harness, that the parsers refuse or bound every value: whatever bytes an issuer
  answers and whatever the JSON library makes of them, a token answer is usable exactly when it has no error, its
  expiry is absent or within 366 days of the clock, and its error texts are printable and bounded; a discovery
  document is refused with an error or speaks for the asked-for issuer with encrypted endpoints only; a device
  answer is usable exactly when it has no error, which is printable and bounded, and its interval and lifetime are
  within 900 seconds and a day.\<close>

theorem parsers_keep_promise:
  "case LLVMFuzzerTestOneInput yy now data of
     None \<Rightarrow> data = []
   | Some (Tokens t) \<Rightarrow> sound_tokens now t
   | Some (Discovered ep) \<Rightarrow> sound_endpoints ''https://issuer.test'' ep
   | Some (DeviceCode d) \<Rightarrow> sound_device d"
  by (simp add: LLVMFuzzerTestOneInput_def Let_def ParseTokenResponse_sound ParseDiscoveryDocument_sound
      ParseDeviceAuthorization_sound split: list.split)

text \<open>What the promise leaves out: the error of a refused discovery document quotes the document's own issuer as it
  came, of any length and with control characters, where the errors of the other two parsers go through
  \<open>Printable\<close>.\<close>

theorem ParseDiscoveryDocument_quotes_raw:
  assumes "HttpResult_Ok r" and "strip_back (CHR ''/'') (json_Str yy (hr_body r) ''issuer'') \<noteq> issuer"
  shows "ep_error (ParseDiscoveryDocument yy issuer r) = ''discovery issuer mismatch: asked '' @ quoted issuer
    @ '', document says '' @ quoted (strip_back (CHR ''/'') (json_Str yy (hr_body r) ''issuer''))"
  using assms by (simp add: ParseDiscoveryDocument_def Let_def Endpoints0_def)

theorem ParseDiscoveryDocument_quotes_raw_witness:
  "\<not> printable (ep_error (ParseDiscoveryDocument (table_yyjson [(''d'', [(''issuer'', JStr [CHR 0x1B, CHR ''x''])])])
      ''https://i'' \<lparr>hr_status = 200, hr_body = ''d'', hr_error = []\<rparr>))"
proof -
  let ?yy = "table_yyjson [(''d'', [(''issuer'', JStr [CHR 0x1B, CHR ''x''])])]"
  let ?r = "\<lparr>hr_status = 200, hr_body = ''d'', hr_error = []\<rparr>"
  have says: "strip_back (CHR ''/'') (json_Str ?yy (hr_body ?r) ''issuer'') = [CHR 0x1B, CHR ''x'']" by code_simp
  have "ep_error (ParseDiscoveryDocument ?yy ''https://i'' ?r) = ''discovery issuer mismatch: asked '' @ quoted ''https://i''
      @ '', document says '' @ quoted [CHR 0x1B, CHR ''x'']"
    using ParseDiscoveryDocument_quotes_raw [of ?r ?yy "''https://i''", unfolded says] by (simp add: HttpResult_Ok_def)
  moreover have "\<not> printable (quoted [CHR 0x1B, CHR ''x''])" by code_simp
  ultimately show ?thesis by (simp only: printable_append) simp
qed

end
