(* ===== verification/Cache.thy ===== *)
theory Cache
  imports Tokens
begin

text \<open>
  The token cache (\<open>TokenCache\<close> of \<open>oidc/src/oidc_core.cpp\<close>): a map from an owner and a key to a token set, a
  stale entry of which is erased when it is read. Owners are opaque pointers. \<open>now\<close> is the value
  \<open>NowSeconds()\<close> gives where \<open>Get\<close> reads the clock.
\<close>

type_synonym 'o cache = "'o \<times> string \<rightharpoonup> TokenSet"

definition TokenCache_Get :: "int \<Rightarrow> 'o \<Rightarrow> string \<Rightarrow> int \<Rightarrow> 'o cache \<Rightarrow> TokenSet \<times> 'o cache" where
  "TokenCache_Get now owner key margin_seconds cache = (case cache (owner, key) of
     None \<Rightarrow> (TokenSet0, cache)
   | Some entry \<Rightarrow>
       if expires_at entry \<noteq> 0 \<and> expires_at entry - margin_seconds \<le> now
       then (TokenSet0, cache((owner, key) := None))
       else (entry, cache))"

definition TokenCache_Set :: "'o \<Rightarrow> string \<Rightarrow> TokenSet \<Rightarrow> 'o cache \<Rightarrow> 'o cache" where
  "TokenCache_Set owner key token cache = cache((owner, key) \<mapsto> token)"

definition TokenCache_Invalidate :: "'o \<Rightarrow> string \<Rightarrow> 'o cache \<Rightarrow> 'o cache" where
  "TokenCache_Invalidate owner key cache = cache((owner, key) := None)"

definition TokenCache_Clear :: "'o cache \<Rightarrow> 'o cache" where
  "TokenCache_Clear cache = Map.empty"


section \<open>What a cache promises\<close>

text \<open>A consumer's calls; a \<open>GetCall\<close> carries the time of the call and its margin.\<close>

datatype 'o cache_call =
    GetCall 'o string int int
  | SetCall 'o string TokenSet
  | InvalidateCall 'o string
  | ClearCall

fun cache_step :: "'o cache_call \<Rightarrow> 'o cache \<Rightarrow> TokenSet option \<times> 'o cache" where
  "cache_step (GetCall owner key margin now) cache =
     (case TokenCache_Get now owner key margin cache of (t, cache) \<Rightarrow> (Some t, cache))"
| "cache_step (SetCall owner key t) cache = (None, TokenCache_Set owner key t cache)"
| "cache_step (InvalidateCall owner key) cache = (None, TokenCache_Invalidate owner key cache)"
| "cache_step ClearCall cache = (None, TokenCache_Clear cache)"

definition fresh :: "int \<Rightarrow> int \<Rightarrow> TokenSet \<Rightarrow> bool" where
  "fresh margin now t \<longleftrightarrow> expires_at t = 0 \<or> now + margin < expires_at t"

text \<open>The promise: the last token set under the owner and key, as long as it has more than the margin left to
  live. Nothing is ever erased here but by the caller.\<close>

fun promised_step :: "'o cache_call \<Rightarrow> 'o cache \<Rightarrow> TokenSet option \<times> 'o cache" where
  "promised_step (GetCall owner key margin now) m =
     (Some (case m (owner, key) of Some t \<Rightarrow> if fresh margin now t then t else TokenSet0 | None \<Rightarrow> TokenSet0), m)"
| "promised_step (SetCall owner key t) m = (None, m((owner, key) \<mapsto> t))"
| "promised_step (InvalidateCall owner key) m = (None, m((owner, key) := None))"
| "promised_step ClearCall m = (None, Map.empty)"

text \<open>Calls of a consumer that uses one margin, on a clock that does not go back.\<close>

fun steady :: "int \<Rightarrow> int \<Rightarrow> 'o cache_call list \<Rightarrow> bool" where
  "steady margin t [] \<longleftrightarrow> True"
| "steady margin t (GetCall owner key margin' now # calls) \<longleftrightarrow> margin' = margin \<and> t \<le> now \<and> steady margin now calls"
| "steady margin t (call # calls) \<longleftrightarrow> steady margin t calls"

text \<open>The concrete cache lacks entries of the promised one only where they are past their life.\<close>

definition agrees :: "int \<Rightarrow> int \<Rightarrow> 'o cache \<Rightarrow> 'o cache \<Rightarrow> bool" where
  "agrees margin t cache m \<longleftrightarrow>
     (\<forall>k. cache k = m k \<or> cache k = None \<and> (\<exists>e. m k = Some e \<and> \<not> fresh margin t e))"

lemma stale_later: "\<not> fresh margin t e \<Longrightarrow> t \<le> now \<Longrightarrow> \<not> fresh margin now e"
  by (auto simp: fresh_def)

lemma agrees_later: "agrees margin t cache m \<Longrightarrow> t \<le> now \<Longrightarrow> agrees margin now cache m"
  unfolding agrees_def using stale_later by metis

lemma agrees_upd: "agrees margin t cache m \<Longrightarrow> agrees margin t (cache(k := v)) (m(k := v))"
  by (simp add: agrees_def)

lemma agrees_Get:
  assumes "agrees margin now cache m"
  shows "\<exists>cache'. cache_step (GetCall owner key margin now) cache
      = (fst (promised_step (GetCall owner key margin now) m), cache') \<and> agrees margin now cache' m"
proof (cases "cache (owner, key)")
  case None
  with assms have "m (owner, key) = None \<or> (\<exists>e. m (owner, key) = Some e \<and> \<not> fresh margin now e)"
    by (metis agrees_def)
  with None assms show ?thesis by (auto simp: TokenCache_Get_def)
next
  case (Some e)
  with assms have m: "m (owner, key) = Some e" by (metis agrees_def option.distinct(1))
  show ?thesis
  proof (cases "fresh margin now e")
    case True
    with Some m assms show ?thesis by (auto simp: TokenCache_Get_def fresh_def)
  next
    case False
    with assms m have "agrees margin now (cache((owner, key) := None)) m"
      by (simp add: agrees_def)
    with Some m False show ?thesis by (auto simp: TokenCache_Get_def fresh_def)
  qed
qed

lemma cache_simulates:
  "agrees margin t cache m \<Longrightarrow> steady margin t calls \<Longrightarrow> run_calls cache_step calls cache = run_calls promised_step calls m"
proof (induction margin t calls arbitrary: cache m rule: steady.induct)
  case (2 margin t owner key margin' now calls)
  then have "agrees margin now cache m" by (auto intro: agrees_later)
  from agrees_Get [OF this, of owner key] obtain cache' where
      "cache_step (GetCall owner key margin now) cache
        = (fst (promised_step (GetCall owner key margin now) m), cache')" and "agrees margin now cache' m" by blast
  with 2 show ?case by (simp del: cache_step.simps)
qed (simp_all add: TokenCache_Set_def TokenCache_Invalidate_def TokenCache_Clear_def agrees_upd, simp_all add: agrees_def)


section \<open>Properties\<close>

text \<open>C25: The token cache keeps its promise: for a consumer with one margin on a clock that does not go back, every
  \<open>Get\<close> gives the last token set under that owner and key when it has more than the margin left to live (or no
  expiry), and an empty set otherwise; the entries erased on reading are never missed.\<close>

theorem TokenCache_refines:
  assumes "steady margin t calls"
  shows "run_calls cache_step calls Map.empty = run_calls promised_step calls Map.empty"
  by (rule cache_simulates [OF _ assms]) (simp add: agrees_def)

theorem TokenCache_refines_witness:
  "run_calls cache_step [SetCall () ''k'' (TokenSet0\<lparr>access_token := ''at'', expires_at := 1000\<rparr>),
      GetCall () ''k'' 300 600, GetCall () ''k'' 300 700, GetCall () ''k'' 300 800] Map.empty
   = [None, Some (TokenSet0\<lparr>access_token := ''at'', expires_at := 1000\<rparr>), Some TokenSet0, Some TokenSet0]"
  by (subst TokenCache_refines [of 300 0]) (simp_all add: fresh_def TokenSet0_def)

end
