(* ===== verification/Wipe.thy ===== *)
theory Wipe
  imports Prelude
begin

text \<open>
  Overwriting a secret before its memory is given back: \<open>WipeString\<close> and \<open>WipeParam\<close> of \<open>oidc/src/oidc_core.cpp\<close> and
  \<open>KeychainWipe\<close> of \<open>keychain/src/keychain.cpp\<close>. The other theories take a \<open>std::string\<close> as its value; here it is its
  storage, which keeps its bytes when the string gets shorter, and the size. The writes go through a \<open>volatile\<close>
  pointer, so each of them is made. A value has its size and the closing NUL in its storage (\<open>stored\<close>).
\<close>

record cxx_string =
  storage :: string
  size_of :: nat

definition stored :: "cxx_string \<Rightarrow> bool" where
  "stored t \<longleftrightarrow> size_of t < length (storage t) \<and> storage t ! size_of t = CHR 0x00"

definition value_of :: "cxx_string \<Rightarrow> string" where
  "value_of t = take (size_of t) (storage t)"

text \<open>\<open>std::string::clear\<close>: the size is 0, and the byte at the size is the closing NUL.\<close>

definition clear_string :: "cxx_string \<Rightarrow> cxx_string" where
  "clear_string t = t\<lparr>storage := (storage t)[0 := CHR 0x00], size_of := 0\<rparr>"

text \<open>The loop that writes.\<close>

fun zero_bytes :: "nat \<Rightarrow> nat \<Rightarrow> string \<Rightarrow> string" where
  "zero_bytes i 0 bytes = bytes"
| "zero_bytes i (Suc n) bytes = zero_bytes (Suc i) n (bytes[i := CHR 0x00])"

definition WipeString :: "cxx_string \<Rightarrow> cxx_string" where
  "WipeString t = clear_string (t\<lparr>storage := zero_bytes 0 (size_of t) (storage t)\<rparr>)"

definition KeychainWipe :: "cxx_string \<Rightarrow> cxx_string" where
  "KeychainWipe t = clear_string (t\<lparr>storage := zero_bytes 0 (size_of t) (storage t)\<rparr>)"

definition WipeParam :: "(string \<times> cxx_string) list \<Rightarrow> string \<Rightarrow> (string \<times> cxx_string) list" where
  "WipeParam params key = map (\<lambda>(k, v). if k = key
     then (k, clear_string (v\<lparr>storage := zero_bytes 0 (size_of v) (storage v)\<rparr>)) else (k, v)) params"


section \<open>What is left\<close>

lemma zero_bytes_replicate:
  "i + n \<le> length bytes \<Longrightarrow>
     zero_bytes i n bytes = take i bytes @ replicate n (CHR 0x00) @ drop (i + n) bytes"
proof (induction n arbitrary: i bytes)
  case (Suc n)
  then have "i < length bytes" by simp
  then have "take (Suc i) (bytes[i := CHR 0x00]) = take i bytes @ [CHR 0x00]"
    by (simp add: take_Suc_conv_app_nth)
  with Suc show ?case by simp
qed simp

text \<open>Every byte of the value is overwritten, none beyond it is touched, the storage keeps its length, and the
  string is empty.\<close>

theorem WipeString_overwrites:
  assumes "stored t"
  shows "storage (WipeString t) = replicate (size_of t) (CHR 0x00) @ drop (size_of t) (storage t)
    \<and> value_of (WipeString t) = [] \<and> stored (WipeString t)"
proof -
  from assms have bound: "size_of t < length (storage t)" and closing: "storage t ! size_of t = CHR 0x00"
    by (simp_all add: stored_def)
  have zeroed: "zero_bytes 0 (size_of t) (storage t) = replicate (size_of t) (CHR 0x00) @ drop (size_of t) (storage t)"
    using bound by (simp add: zero_bytes_replicate)
  have first: "(replicate (size_of t) (CHR 0x00) @ drop (size_of t) (storage t)) ! 0 = CHR 0x00"
    using bound closing by (cases "size_of t") (simp_all add: nth_append)
  then have "storage (WipeString t) = replicate (size_of t) (CHR 0x00) @ drop (size_of t) (storage t)"
    using zeroed by (simp add: WipeString_def clear_string_def) (metis list_update_id)
  moreover from bound have "storage t \<noteq> []" by auto
  ultimately show ?thesis using bound first
    by (simp add: WipeString_def clear_string_def value_of_def stored_def)
qed

lemma KeychainWipe_eq: "KeychainWipe t = WipeString t"
  by (simp add: KeychainWipe_def WipeString_def)

lemma WipeParam_eq: "WipeParam params key = map (\<lambda>(k, v). (k, if k = key then WipeString v else v)) params"
  by (auto simp: WipeParam_def WipeString_def)

text \<open>What a grant does with its form at its end: neither the assertion nor the secret is left in the form's own
  strings, and every other parameter is as it was.\<close>

theorem WipeParam_wipes:
  assumes "map_of params key = Some v" and "stored v"
  shows "\<exists>w. map_of (WipeParam params key) key = Some w
      \<and> storage w = replicate (size_of v) (CHR 0x00) @ drop (size_of v) (storage v) \<and> value_of w = []"
    and "k \<noteq> key \<Longrightarrow> map_of (WipeParam params key) k = map_of params k"
    and "map fst (WipeParam params key) = map fst params"
proof -
  have at: "map_of (WipeParam params key) k = map_option (\<lambda>v. if k = key then WipeString v else v) (map_of params k)" for k
    unfolding WipeParam_eq by (induction params) auto
  with assms WipeString_overwrites [of v] show "\<exists>w. map_of (WipeParam params key) key = Some w
      \<and> storage w = replicate (size_of v) (CHR 0x00) @ drop (size_of v) (storage v) \<and> value_of w = []"
    by simp
  show "k \<noteq> key \<Longrightarrow> map_of (WipeParam params key) k = map_of params k"
    by (simp add: at option.map_ident)
  show "map fst (WipeParam params key) = map fst params"
    by (auto simp: WipeParam_eq)
qed

lemma WipeParam_example:
  "map_of (WipeParam [(''client_secret'', \<lparr>storage = ''s3cret'' @ [CHR 0x00], size_of = 6\<rparr>)] ''client_secret'') ''client_secret''
     = Some \<lparr>storage = replicate 7 (CHR 0x00), size_of = 0\<rparr>"
  by code_simp

end
