(* ===== verification/Utf8.thy ===== *)
theory Utf8
  imports Prelude
begin

text \<open>
  \<open>ValidUtf8\<close> of \<open>keychain/src/keychain.cpp\<close>, and the UTF-8 of the Unicode standard (table 3-6) it is
  shown to accept exactly. Also here: UTF-16, what Windows makes of such a text.
\<close>

unbundle bit_operations_syntax

section \<open>\<open>ValidUtf8\<close>\<close>

text \<open>The first byte of a sequence of several: how many bytes follow, and its own bits.\<close>

definition utf8_lead :: "nat \<Rightarrow> (nat \<times> nat) option" where
  "utf8_lead c =
     (if c AND 0xE0 = 0xC0 then Some (1, c AND 0x1F)
      else if c AND 0xF0 = 0xE0 then Some (2, c AND 0x0F)
      else if c AND 0xF8 = 0xF0 then Some (3, c AND 0x07)
      else None)"

fun utf8_continue :: "nat \<Rightarrow> string \<Rightarrow> nat option" where
  "utf8_continue cp [] = Some cp"
| "utf8_continue cp (b # bs) =
     (if code_of b AND 0xC0 \<noteq> 0x80 then None
      else utf8_continue (push_bit 6 cp OR (code_of b AND 0x3F)) bs)"

definition utf8_refused :: "nat \<Rightarrow> nat \<Rightarrow> bool" where
  "utf8_refused extra cp \<longleftrightarrow> extra = 1 \<and> cp < 0x80 \<or> extra = 2 \<and> cp < 0x800 \<or> extra = 3 \<and> cp < 0x10000
     \<or> cp > 0x10FFFF \<or> 0xD800 \<le> cp \<and> cp \<le> 0xDFFF"

text \<open>One turn of the loop: the code point read and the text behind it, or \<open>None\<close> for \<open>return false\<close>.\<close>

definition utf8_next :: "char \<Rightarrow> string \<Rightarrow> (nat \<times> string) option" where
  "utf8_next c s =
     (if code_of c < 0x80 then Some (code_of c, s)
      else (case utf8_lead (code_of c) of
          None \<Rightarrow> None
        | Some (extra, cp) \<Rightarrow>
            if length s < extra then None
            else (case utf8_continue cp (take extra s) of
                None \<Rightarrow> None
              | Some cp \<Rightarrow> if utf8_refused extra cp then None else Some (cp, drop extra s))))"

lemma utf8_next_length: "utf8_next c s = Some (cp, rest) \<Longrightarrow> length rest \<le> length s"
  by (auto simp: utf8_next_def split: if_splits option.splits)

function utf8_decode :: "string \<Rightarrow> nat list option" where
  "utf8_decode [] = Some []"
| "utf8_decode (c # s) = (case utf8_next c s of
     None \<Rightarrow> None
   | Some (cp, rest) \<Rightarrow> map_option (Cons cp) (utf8_decode rest))"
  by pat_completeness auto
termination
  by (relation "measure length") (auto dest: utf8_next_length)

text \<open>The code keeps no code points: \<open>ValidUtf8\<close> is whether the loop reaches the end.\<close>

function ValidUtf8 :: "string \<Rightarrow> bool" where
  "ValidUtf8 [] \<longleftrightarrow> True"
| "ValidUtf8 (c # s) \<longleftrightarrow> (case utf8_next c s of None \<Rightarrow> False | Some (cp, rest) \<Rightarrow> ValidUtf8 rest)"
  by pat_completeness auto
termination
  by (relation "measure length") (auto dest: utf8_next_length)


section \<open>The standard's encodings\<close>

definition scalar_value :: "nat \<Rightarrow> bool" where
  "scalar_value cp \<longleftrightarrow> cp \<le> 0x10FFFF \<and> \<not> (0xD800 \<le> cp \<and> cp \<le> 0xDFFF)"

definition utf8_char :: "nat \<Rightarrow> string" where
  "utf8_char cp =
     (if cp < 0x80 then [char_of cp]
      else if cp < 0x800 then [char_of (0xC0 + cp div 0x40), char_of (0x80 + cp mod 0x40)]
      else if cp < 0x10000 then [char_of (0xE0 + cp div 0x1000), char_of (0x80 + cp div 0x40 mod 0x40),
        char_of (0x80 + cp mod 0x40)]
      else [char_of (0xF0 + cp div 0x40000), char_of (0x80 + cp div 0x1000 mod 0x40),
        char_of (0x80 + cp div 0x40 mod 0x40), char_of (0x80 + cp mod 0x40)])"

definition utf8 :: "nat list \<Rightarrow> string" where
  "utf8 cps = concat (map utf8_char cps)"

definition utf16_char :: "nat \<Rightarrow> 16 word list" where
  "utf16_char cp =
     (if cp < 0x10000 then [of_nat cp]
      else [of_nat (0xD800 + (cp - 0x10000) div 0x400), of_nat (0xDC00 + (cp - 0x10000) mod 0x400)])"

definition utf16 :: "nat list \<Rightarrow> 16 word list" where
  "utf16 cps = concat (map utf16_char cps)"


section \<open>\<open>ValidUtf8\<close> accepts exactly the standard's encodings\<close>

text \<open>The masks of the code, as ranges of bytes.\<close>

lemma and_push_bit: "n AND push_bit k m = push_bit k (drop_bit k n AND (m :: nat))"
  by (rule bit_eqI) (auto simp: bit_simps)

lemma div_window:
  assumes "0 < (k :: nat)"
  shows "n div k * k = q * k \<longleftrightarrow> q * k \<le> n \<and> n < q * k + k"
proof
  assume "n div k * k = q * k"
  with assms have "n div k = q" by simp
  then show "q * k \<le> n \<and> n < q * k + k"
    using assms by (metis add.commute div_times_less_eq_dividend mult.commute dividend_less_div_times)
next
  assume "q * k \<le> n \<and> n < q * k + k"
  then have "n div k = q" by (intro div_nat_eqI) (simp_all add: mult.commute add.commute)
  then show "n div k * k = q * k" by simp
qed

lemma byte_mask:
  assumes "n < (256 :: nat)"
  shows "n AND 0xC0 = 0x80 \<longleftrightarrow> 0x80 \<le> n \<and> n < 0xC0"
    and "n AND 0xE0 = 0xC0 \<longleftrightarrow> 0xC0 \<le> n \<and> n < 0xE0"
    and "n AND 0xF0 = 0xE0 \<longleftrightarrow> 0xE0 \<le> n \<and> n < 0xF0"
    and "n AND 0xF8 = 0xF0 \<longleftrightarrow> 0xF0 \<le> n \<and> n < 0xF8"
proof -
  have small: "m AND (2 ^ k - 1) = m" if "m < 2 ^ k" for m k :: nat
    using that take_bit_nat_eq_self [of m k] by (simp add: take_bit_eq_mask mask_eq_exp_minus_1)
  have "n div 64 < 4" and "n div 32 < 8" and "n div 16 < 16" and "n div 8 < 32" using assms by simp_all
  note * = small [of "n div 64" 2] small [of "n div 32" 3] small [of "n div 16" 4] small [of "n div 8" 5]
  have "n AND 0xC0 = n div 64 * 64" and "n AND 0xE0 = n div 32 * 32" and "n AND 0xF0 = n div 16 * 16"
    and "n AND 0xF8 = n div 8 * 8"
    using and_push_bit [of n 6 3] and_push_bit [of n 5 7] and_push_bit [of n 4 15] and_push_bit [of n 3 31]
      * \<open>n div 64 < 4\<close> \<open>n div 32 < 8\<close> \<open>n div 16 < 16\<close> \<open>n div 8 < 32\<close>
    by (simp_all add: push_bit_eq_mult drop_bit_eq_div)
  then show "n AND 0xC0 = 0x80 \<longleftrightarrow> 0x80 \<le> n \<and> n < 0xC0" and "n AND 0xE0 = 0xC0 \<longleftrightarrow> 0xC0 \<le> n \<and> n < 0xE0"
    and "n AND 0xF0 = 0xE0 \<longleftrightarrow> 0xE0 \<le> n \<and> n < 0xF0" and "n AND 0xF8 = 0xF0 \<longleftrightarrow> 0xF0 \<le> n \<and> n < 0xF8"
    using div_window [of 64 n 2] div_window [of 32 n 6] div_window [of 16 n 14] div_window [of 8 n 30]
    by simp_all
qed

lemma mask_mod: "n AND 0x3F = n mod (0x40 :: nat)" "n AND 0x1F = n mod (0x20 :: nat)"
    "n AND 0x0F = n mod (0x10 :: nat)" "n AND 0x07 = n mod (0x08 :: nat)"
proof -
  have "n AND (2 ^ k - 1) = n mod 2 ^ k" for k
    by (simp add: take_bit_eq_mod [symmetric] take_bit_eq_mask mask_eq_exp_minus_1)
  from this [of 6] this [of 5] this [of 4] this [of 3]
  show "n AND 0x3F = n mod 0x40" "n AND 0x1F = n mod 0x20" "n AND 0x0F = n mod 0x10" "n AND 0x07 = n mod 0x08"
    by simp_all
qed

lemma push_or: "push_bit 6 cp OR (b mod 0x40) = cp * 0x40 + b mod (0x40 :: nat)"
proof -
  have "push_bit 6 cp AND (b mod 0x40) = 0"
    by (rule bit_eqI)
      (auto simp: bit_simps take_bit_eq_mod [of 6, symmetric, simplified] bit_take_bit_iff [of 6])
  then have "push_bit 6 cp + b mod 0x40 = push_bit 6 cp OR (b mod 0x40)"
    by (rule disjunctive_add_eq_or)
  then show ?thesis by (simp add: push_bit_eq_mult)
qed

lemma mod_window:
  assumes "m dvd a" and "a \<le> n" and "n < a + m"
  shows "n mod m = n - (a :: nat)"
proof -
  from assms have "n mod m = (n - a) mod m" by (metis dvd_eq_mod_eq_0 le_add_diff_inverse mod_add_left_eq add_0)
  with assms show ?thesis by simp
qed

lemma utf8_lead_eq:
  assumes "n < 256"
  shows "utf8_lead n =
     (if 0xC0 \<le> n \<and> n < 0xE0 then Some (1, n - 0xC0)
      else if 0xE0 \<le> n \<and> n < 0xF0 then Some (2, n - 0xE0)
      else if 0xF0 \<le> n \<and> n < 0xF8 then Some (3, n - 0xF0)
      else None)"
proof -
  have "n mod 0x20 = n - 0xC0" if "0xC0 \<le> n" "n < 0xE0"
    using that by (intro mod_window) simp_all
  moreover have "n mod 0x10 = n - 0xE0" if "0xE0 \<le> n" "n < 0xF0"
    using that by (intro mod_window) simp_all
  moreover have "n mod 0x08 = n - 0xF0" if "0xF0 \<le> n" "n < 0xF8"
    using that by (intro mod_window) simp_all
  ultimately show ?thesis
    by (simp add: utf8_lead_def byte_mask [OF assms] mask_mod)
qed

text \<open>A continuation byte, and the six bits it carries.\<close>

definition continues :: "char \<Rightarrow> bool" where
  "continues b \<longleftrightarrow> 0x80 \<le> code_of b \<and> code_of b < 0xC0"

definition low_bits :: "char \<Rightarrow> nat" where
  "low_bits b = code_of b - 0x80"

lemma low_bits: "continues b \<Longrightarrow> low_bits b < 0x40 \<and> code_of b = 0x80 + low_bits b"
  by (auto simp: continues_def low_bits_def)

lemma low_bits_char [simp]: "continues b \<Longrightarrow> char_of (0x80 + low_bits b) = b"
  by (metis char_of_code_of low_bits)

lemma continues_char [simp]: "d < 0x40 \<Longrightarrow> continues (char_of (0x80 + d))" "d < 0x40 \<Longrightarrow> low_bits (char_of (0x80 + d)) = d"
  by (simp_all add: continues_def low_bits_def)

lemma continuation_byte:
  "utf8_continue cp (b # bs) =
     (if continues b then utf8_continue (cp * 0x40 + low_bits b) bs else None)"
proof (cases "continues b")
  case True
  then have "code_of b mod 0x40 = low_bits b"
    unfolding low_bits_def continues_def by (intro mod_window) simp_all
  with True show ?thesis
    using push_or [of cp "code_of b"] by (simp add: continues_def byte_mask [OF code_of_less] mask_mod)
qed (auto simp: continues_def byte_mask [OF code_of_less])

lemma digit64:
  assumes "d < 0x40"
  shows "(q * 0x40 + d) div 0x40 = q" and "(q * 0x40 + d) mod 0x40 = (d :: nat)"
  using assms by simp_all

lemma below_three:
  assumes "(e :: nat) < 0x10" and "a < 0x40" and "b < 0x40"
  shows "(e * 0x40 + a) * 0x40 + b < 0x10000"
proof -
  define m where "m = e * 0x40 + a"
  from assms have "m < 0x400" unfolding m_def by simp
  with assms(3) show ?thesis unfolding m_def [symmetric] by simp
qed

lemma div64: "n div 0x1000 = n div 0x40 div (0x40 :: nat)" "n div 0x40000 = n div 0x40 div 0x40 div (0x40 :: nat)"
  by (simp_all add: div_mult2_eq [symmetric])

text \<open>The three multi-byte cases, as numbers.\<close>

lemma utf8_next_ascii: "code_of c < 0x80 \<Longrightarrow> utf8_next c s = Some (code_of c, s)"
  by (simp add: utf8_next_def)

lemma utf8_next_some:
  assumes "utf8_next c s = Some (cp, rest)"
  obtains "code_of c < 0x80" and "cp = code_of c" and "rest = s"
  | b1 where "0xC0 \<le> code_of c" and "code_of c < 0xE0" and "s = b1 # rest"
      and "continues b1"
      and "cp = (code_of c - 0xC0) * 0x40 + low_bits b1" and "\<not> utf8_refused 1 cp"
  | b1 b2 where "0xE0 \<le> code_of c" and "code_of c < 0xF0" and "s = b1 # b2 # rest"
      and "continues b1" and "continues b2"
      and "cp = ((code_of c - 0xE0) * 0x40 + low_bits b1) * 0x40 + low_bits b2"
      and "\<not> utf8_refused 2 cp"
  | b1 b2 b3 where "0xF0 \<le> code_of c" and "code_of c < 0xF8" and "s = b1 # b2 # b3 # rest"
      and "continues b1" and "continues b2"
      and "continues b3"
      and "cp = (((code_of c - 0xF0) * 0x40 + low_bits b1) * 0x40 + low_bits b2) * 0x40
        + low_bits b3" and "\<not> utf8_refused 3 cp"
proof -
  have take1: "\<exists>b1 t. s = b1 # t" if "1 \<le> length s" using that by (cases s) auto
  have take2: "\<exists>b1 b2 t. s = b1 # b2 # t" if "2 \<le> length s"
    using that by (cases s; cases "tl s") auto
  have take3: "\<exists>b1 b2 b3 t. s = b1 # b2 # b3 # t" if "3 \<le> length s"
    using that by (cases s; cases "tl s"; cases "tl (tl s)") auto
  consider "code_of c < 0x80" | "0xC0 \<le> code_of c" "code_of c < 0xE0"
    | "0xE0 \<le> code_of c" "code_of c < 0xF0" | "0xF0 \<le> code_of c" "code_of c < 0xF8"
    | "0x80 \<le> code_of c \<and> code_of c < 0xC0 \<or> 0xF8 \<le> code_of c" by linarith
  then show thesis
  proof cases
    case 1
    with assms have "cp = code_of c \<and> rest = s" by (simp add: utf8_next_def)
    with 1 that(1) show thesis by blast
  next
    case 2
    have "\<not> length s < 1"
      by (rule notI) (use assms 2 in \<open>simp add: utf8_next_def utf8_lead_eq [OF code_of_less]\<close>)
    then have "1 \<le> length s" by linarith
    then obtain b1 t where s: "s = b1 # t" using take1 by blast
    from assms 2 have "rest = t \<and> continues b1 \<and> cp = (code_of c - 0xC0) * 0x40 + low_bits b1
      \<and> \<not> utf8_refused 1 cp"
      by (simp add: s utf8_next_def utf8_lead_eq [OF code_of_less] continuation_byte del: utf8_continue.simps(2)
          split: if_split_asm)
    with 2 s that(2) [of b1] show thesis by blast
  next
    case 3
    have "\<not> length s < 2"
      by (rule notI) (use assms 3 in \<open>simp add: utf8_next_def utf8_lead_eq [OF code_of_less]\<close>)
    then have "2 \<le> length s" by linarith
    then obtain b1 b2 t where s: "s = b1 # b2 # t" using take2 by blast
    from assms 3 have "rest = t \<and> continues b1 \<and> continues b2 \<and> cp = ((code_of c - 0xE0) * 0x40 + low_bits b1) * 0x40 + low_bits b2
      \<and> \<not> utf8_refused 2 cp"
      by (simp add: s utf8_next_def utf8_lead_eq [OF code_of_less] continuation_byte del: utf8_continue.simps(2)
          split: if_split_asm)
    with 3 s that(3) [of b1 b2] show thesis by blast
  next
    case 4
    have "\<not> length s < 3"
      by (rule notI) (use assms 4 in \<open>simp add: utf8_next_def utf8_lead_eq [OF code_of_less]\<close>)
    then have "3 \<le> length s" by linarith
    then obtain b1 b2 b3 t where s: "s = b1 # b2 # b3 # t" using take3 by blast
    from assms 4 have "rest = t \<and> continues b1 \<and> continues b2 \<and> continues b3 \<and> cp = (((code_of c - 0xF0) * 0x40 + low_bits b1) * 0x40 + low_bits b2) * 0x40 + low_bits b3
      \<and> \<not> utf8_refused 3 cp"
      by (simp add: s utf8_next_def utf8_lead_eq [OF code_of_less] continuation_byte del: utf8_continue.simps(2)
          split: if_split_asm)
    with 4 s that(4) [of b1 b2 b3] show thesis by blast
  next
    case 5
    with assms show thesis by (auto simp: utf8_next_def utf8_lead_eq [OF code_of_less] split: if_splits)
  qed
qed


text \<open>What is read is the standard's encoding of a scalar value, in front of the rest.\<close>

lemma utf8_next_sound:
  assumes "utf8_next c s = Some (cp, rest)"
  shows "scalar_value cp \<and> c # s = utf8_char cp @ rest"
  using assms
proof (cases rule: utf8_next_some)
  case 1
  then show ?thesis by (simp add: scalar_value_def utf8_char_def)
next
  case (2 b1)
  note d = low_bits [OF 2(4)]
  from 2(1) have c: "code_of c = 0xC0 + (code_of c - 0xC0)" by simp
  from d have digits: "cp div 0x40 = code_of c - 0xC0" "cp mod 0x40 = low_bits b1"
    unfolding 2(5) by (simp_all only: digit64)
  have "0x80 \<le> cp" using 2(6) by (simp add: utf8_refused_def)
  moreover have "cp < 0x800" using d 2(2) unfolding 2(5) by arith
  ultimately show ?thesis
    using digits 2(1,3,4) by (simp add: utf8_char_def scalar_value_def)
next
  case (3 b1 b2)
  note d = low_bits [OF 3(4)] low_bits [OF 3(5)]
  from d have digits: "cp div 0x40 = (code_of c - 0xE0) * 0x40 + low_bits b1" "cp mod 0x40 = low_bits b2"
    unfolding 3(6) by (simp_all only: digit64)
  with d have digits': "cp div 0x1000 = code_of c - 0xE0" "cp div 0x40 mod 0x40 = low_bits b1"
    by (simp_all only: div64 digit64)
  have "0x800 \<le> cp" and "\<not> (0xD800 \<le> cp \<and> cp \<le> 0xDFFF)" using 3(7) by (auto simp: utf8_refused_def)
  moreover have "cp < 0x10000"
  proof -
    have "code_of c - 0xE0 < 0x10" using 3(1,2) by linarith
    then show ?thesis using conjunct1 [OF d(1)] conjunct1 [OF d(2)] below_three unfolding 3(6) by blast
  qed
  ultimately show ?thesis
    using digits(2) digits' 3(1,3,4,5) by (simp add: utf8_char_def scalar_value_def)
next
  case (4 b1 b2 b3)
  note d = low_bits [OF 4(4)] low_bits [OF 4(5)] low_bits [OF 4(6)]
  from d have digits: "cp div 0x40 = ((code_of c - 0xF0) * 0x40 + low_bits b1) * 0x40 + low_bits b2"
      "cp mod 0x40 = low_bits b3"
    unfolding 4(7) by (simp_all only: digit64)
  with d have digits': "cp div 0x40 mod 0x40 = low_bits b2"
      "cp div 0x40 div 0x40 = (code_of c - 0xF0) * 0x40 + low_bits b1"
    by (simp_all only: digit64)
  with d have digits'': "cp div 0x40000 = code_of c - 0xF0" "cp div 0x1000 mod 0x40 = low_bits b1"
    by (simp_all only: div64 digit64)
  have "0x10000 \<le> cp" and "cp \<le> 0x10FFFF" using 4(8) by (auto simp: utf8_refused_def)
  then show ?thesis
    using digits(2) digits'(1) digits'' 4(1,3-6) by (simp add: utf8_char_def scalar_value_def)
qed

text \<open>And every scalar value's encoding is read back.\<close>

lemma utf8_next_char:
  assumes "scalar_value cp"
  shows "\<exists>c t. utf8_char cp = c # t \<and> utf8_next c (t @ s) = Some (cp, s)"
proof -
  note eval = utf8_next_def utf8_lead_eq continuation_byte utf8_refused_def
  from assms have cp: "cp \<le> 0x10FFFF" "\<not> (0xD800 \<le> cp \<and> cp \<le> 0xDFFF)" by (auto simp: scalar_value_def)
  consider "cp < 0x80" | "0x80 \<le> cp" "cp < 0x800" | "0x800 \<le> cp" "cp < 0x10000" | "0x10000 \<le> cp" by linarith
  then show ?thesis
  proof cases
    case 1
    then show ?thesis by (simp add: utf8_char_def utf8_next_ascii)
  next
    case 2
    then have "cp div 0x40 < 0x20" by simp
    with 2 show ?thesis
      by (simp add: utf8_char_def eval code_of_char_of del: utf8_continue.simps(2))
  next
    case 3
    then have "cp div 0x1000 < 0x10" by simp
    have "(cp div 0x1000 * 0x40 + cp div 0x40 mod 0x40) * 0x40 + cp mod 0x40 = cp"
      by (simp only: div64 div_mult_mod_eq)
    with 3 cp(2) \<open>cp div 0x1000 < 0x10\<close> show ?thesis
      by (simp add: utf8_char_def eval code_of_char_of del: utf8_continue.simps(2))
  next
    case 4
    with cp(1) have "cp div 0x40000 < 8" by simp
    have "((cp div 0x40000 * 0x40 + cp div 0x1000 mod 0x40) * 0x40 + cp div 0x40 mod 0x40) * 0x40 + cp mod 0x40 = cp"
      by (simp only: div64 div_mult_mod_eq)
    with 4 cp \<open>cp div 0x40000 < 8\<close> show ?thesis
      by (simp add: utf8_char_def eval code_of_char_of del: utf8_continue.simps(2))
  qed
qed

lemma ValidUtf8_decode: "ValidUtf8 s \<longleftrightarrow> utf8_decode s \<noteq> None"
  by (induction s rule: ValidUtf8.induct) (auto split: option.splits)

lemma utf8_decode_sound: "utf8_decode s = Some cps \<Longrightarrow> list_all scalar_value cps \<and> s = utf8 cps"
proof (induction s arbitrary: cps rule: utf8_decode.induct)
  case (2 c s)
  then obtain cp rest cps' where next_cp: "utf8_next c s = Some (cp, rest)"
    and "utf8_decode rest = Some cps'" and cps: "cps = cp # cps'"
    by (auto split: option.splits)
  with 2 have "list_all scalar_value cps' \<and> rest = utf8 cps'" by blast
  with utf8_next_sound [OF next_cp] cps show ?case by (simp add: utf8_def)
qed (simp add: utf8_def)

lemma utf8_decode_utf8: "list_all scalar_value cps \<Longrightarrow> utf8_decode (utf8 cps) = Some cps"
proof (induction cps)
  case (Cons cp cps)
  then have "scalar_value cp" by simp
  then obtain c t where "utf8_char cp = c # t" and "utf8_next c (t @ utf8 cps) = Some (cp, utf8 cps)"
    using utf8_next_char by blast
  with Cons show ?case by (simp add: utf8_def)
qed (simp add: utf8_def)

text \<open>C33: \<open>ValidUtf8\<close> accepts exactly the UTF-8 of the Unicode standard: the byte strings that encode a sequence
  of scalar values (no surrogate, nothing past U+10FFFF, no overlong form, nothing truncated).\<close>

theorem ValidUtf8_standard: "ValidUtf8 s \<longleftrightarrow> (\<exists>cps. list_all scalar_value cps \<and> s = utf8 cps)"
  unfolding ValidUtf8_decode using utf8_decode_sound utf8_decode_utf8 by fastforce

lemma utf8_inject: "list_all scalar_value a \<Longrightarrow> list_all scalar_value b \<Longrightarrow> utf8 a = utf8 b \<Longrightarrow> a = b"
  by (metis option.inject utf8_decode_utf8)


section \<open>Concatenation, and UTF-16\<close>

lemma utf8_append [simp]: "utf8 (a @ b) = utf8 a @ utf8 b"
  by (simp add: utf8_def)

lemma utf8_ascii: "c < 0x80 \<Longrightarrow> utf8 [c] = [char_of c]"
  by (simp add: utf8_def utf8_char_def)

lemma utf8_high_bytes:
  assumes "scalar_value cp" and "0x80 \<le> cp" and "c \<in> set (utf8_char cp)"
  shows "0x80 \<le> code_of c"
proof -
  have high: "0x80 \<le> code_of (char_of (k + m))" if "0x80 \<le> k" "k + m < 0x100" for k m :: nat
    using that by simp
  from assms(1) have cp: "cp \<le> 0x10FFFF" by (simp add: scalar_value_def)
  have digit: "0x80 \<le> code_of (char_of (0x80 + m mod 0x40))" for m :: nat
  proof (rule high)
    have "m mod 0x40 < 0x40" by simp
    then show "0x80 + m mod 0x40 < 0x100" by linarith
  qed simp
  consider "cp < 0x800" | "0x800 \<le> cp" "cp < 0x10000" | "0x10000 \<le> cp" by linarith
  then show ?thesis
  proof cases
    case 1
    then have "cp div 0x40 < 0x20" by simp
    then have "0x80 \<le> code_of (char_of (0xC0 + cp div 0x40))" by (intro high) simp_all
    with 1 assms(2,3) digit show ?thesis by (auto simp: utf8_char_def)
  next
    case 2
    then have "cp div 0x1000 < 0x10" by simp
    then have "0x80 \<le> code_of (char_of (0xE0 + cp div 0x1000))" by (intro high) simp_all
    with 2 assms(2,3) digit show ?thesis by (auto simp: utf8_char_def)
  next
    case 3
    with cp have "cp div 0x40000 < 8" by simp
    then have "0x80 \<le> code_of (char_of (0xF0 + cp div 0x40000))" by (intro high) simp_all
    with 3 assms(2,3) digit show ?thesis by (auto simp: utf8_char_def)
  qed
qed

lemma utf8_byte:
  assumes "scalar_value cp" and "n < 0x80"
  shows "char_of n \<in> set (utf8_char cp) \<longleftrightarrow> cp = n"
proof (cases "cp < 0x80")
  case True
  then have "char_of n = (char_of cp :: char) \<longleftrightarrow> cp = n"
    using arg_cong [of "char_of n" "char_of cp :: char" code_of] assms(2) by auto
  with True show ?thesis by (simp add: utf8_char_def)
next
  case False
  then have "char_of n \<notin> set (utf8_char cp)" using utf8_high_bytes [OF assms(1), of "char_of n"] assms(2) by auto
  with False assms(2) show ?thesis by auto
qed

lemma utf8_has_ascii:
  assumes "list_all scalar_value cps" and "n < 0x80"
  shows "char_of n \<in> set (utf8 cps) \<longleftrightarrow> n \<in> set cps"
  using assms(1) utf8_byte [OF _ assms(2)] by (induction cps) (auto simp: utf8_def)

lemma unit_inject: "m < 0x10000 \<Longrightarrow> n < 0x10000 \<Longrightarrow> (of_nat m :: 16 word) = of_nat n \<longleftrightarrow> m = n"
  by (simp add: word_of_nat_eq_iff take_bit_nat_eq_self)

lemma high_digit: "scalar_value n \<Longrightarrow> (n - 0x10000) div 0x400 < 0x400"
  by (rule less_mult_imp_div_less) (auto simp: scalar_value_def)

lemma utf16_char_inject:
  assumes "scalar_value a" and "scalar_value b" and eq: "utf16_char a @ x = utf16_char b @ y"
  shows "a = b \<and> x = y"
proof -
  have hi: "0xD800 + (n - 0x10000) div 0x400 \<ge> 0xD800" "0xD800 + (n - 0x10000) div 0x400 < 0xDC00"
      "0xDC00 + (n - 0x10000) mod 0x400 < 0x10000"
    if "scalar_value n" for n
  proof -
    from that have "(n - 0x10000) div 0x400 < 0x400" by (rule high_digit)
    then show "0xD800 + (n - 0x10000) div 0x400 < 0xDC00" by simp
    have "(n - 0x10000) mod 0x400 < 0x400" by simp
    then show "0xDC00 + (n - 0x10000) mod 0x400 < 0x10000" by linarith
  qed simp
  have bmp: "m \<noteq> 0xD800 + (n - 0x10000) div 0x400" if "scalar_value m" "scalar_value n" for m n
    using hi [OF that(2)] that(1) by (auto simp: scalar_value_def)
  have different: False if "scalar_value m" "scalar_value n" "m < 0x10000" "\<not> n < 0x10000"
      "utf16_char m @ x' = utf16_char n @ y'" for m n x' y'
  proof -
    from that(3-5) have "(of_nat m :: 16 word) = of_nat (0xD800 + (n - 0x10000) div 0x400)"
      by (simp add: utf16_char_def)
    then have "m = 0xD800 + (n - 0x10000) div 0x400"
      using that(3) hi(2) [OF that(2)] by (subst (asm) unit_inject) simp_all
    with bmp that show False by blast
  qed
  consider "a < 0x10000" "b < 0x10000" | "a < 0x10000" "\<not> b < 0x10000" | "\<not> a < 0x10000" "b < 0x10000"
    | "\<not> a < 0x10000" "\<not> b < 0x10000" by blast
  then show ?thesis
  proof cases
    case 1
    with eq show ?thesis by (simp add: utf16_char_def unit_inject)
  next
    case 2
    with different assms show ?thesis by blast
  next
    case 3
    with different [OF assms(2,1), of y x] eq show ?thesis by simp
  next
    case 4
    with eq have "x = y"
      and high: "(of_nat (0xD800 + (a - 0x10000) div 0x400) :: 16 word) = of_nat (0xD800 + (b - 0x10000) div 0x400)"
      and low: "(of_nat (0xDC00 + (a - 0x10000) mod 0x400) :: 16 word) = of_nat (0xDC00 + (b - 0x10000) mod 0x400)"
      by (simp_all add: utf16_char_def)
    from high have "(a - 0x10000) div 0x400 = (b - 0x10000) div 0x400"
      using hi(2) [OF assms(1)] hi(2) [OF assms(2)] by (subst (asm) unit_inject) simp_all
    moreover from low have "(a - 0x10000) mod 0x400 = (b - 0x10000) mod 0x400"
      using hi(3) [OF assms(1)] hi(3) [OF assms(2)] by (subst (asm) unit_inject) simp_all
    ultimately have "a - 0x10000 = b - 0x10000" by (metis div_mult_mod_eq)
    with 4 \<open>x = y\<close> show ?thesis by simp
  qed
qed

lemma utf16_inject:
  "list_all scalar_value a \<Longrightarrow> list_all scalar_value b \<Longrightarrow> utf16 a = utf16 b \<Longrightarrow> a = b"
proof (induction a arbitrary: b)
  case Nil
  then show ?case by (cases b) (auto simp: utf16_def utf16_char_def split: if_splits)
next
  case (Cons m a)
  then obtain n b' where b: "b = n # b'"
    by (cases b) (auto simp: utf16_def utf16_char_def split: if_splits)
  from Cons.prems b have "m = n \<and> utf16 a = utf16 b'"
    by (intro utf16_char_inject) (simp_all add: utf16_def)
  with Cons b show ?case by simp
qed

lemma utf16_append [simp]: "utf16 (a @ b) = utf16 a @ utf16 b"
  by (simp add: utf16_def)

lemma utf16_zero:
  assumes "list_all scalar_value cps"
  shows "0 \<in> set (utf16 cps) \<longleftrightarrow> 0 \<in> set cps"
proof -
  have "0 \<in> set (utf16_char n) \<longleftrightarrow> n = 0" if "scalar_value n" for n
  proof (cases "n < 0x10000")
    case True
    then show ?thesis using unit_inject [of 0 n] by (auto simp: utf16_char_def)
  next
    case False
    from that have "(n - 0x10000) div 0x400 < 0x400" by (rule high_digit)
    moreover have "(n - 0x10000) mod 0x400 < 0x400" by simp
    ultimately have "0xD800 + (n - 0x10000) div 0x400 < 0x10000" and "0xDC00 + (n - 0x10000) mod 0x400 < 0x10000"
      by linarith+
    with False show ?thesis
      using unit_inject [of 0 "0xD800 + (n - 0x10000) div 0x400"] unit_inject [of 0 "0xDC00 + (n - 0x10000) mod 0x400"]
      by (auto simp: utf16_char_def)
  qed
  with assms show ?thesis by (induction cps) (auto simp: utf16_def)
qed

end
