(* ===== verification/Keychain.thy ===== *)
theory Keychain
  imports Utf8 Json
begin

text \<open>
  The keychain module (\<open>keychain/src/keychain.cpp\<close>), what its platforms share: the result of a call, the
  checks on names and secrets, and the contract of the module's three operations. Each platform's
  section of the file is a theory of its own (\<open>KeychainMac\<close>, \<open>KeychainWindows\<close>, \<open>KeychainLinux\<close>) that
  interprets the contract on that section's definitions; the section of a platform with no store is here.
\<close>


section \<open>Results and checks\<close>

record KeychainResult =
  result_ok :: bool
  result_found :: bool
  result_error :: string

definition Failed :: "string \<Rightarrow> KeychainResult" where
  "Failed error = \<lparr>result_ok = False, result_found = False, result_error = error\<rparr>"

definition Done :: "bool \<Rightarrow> KeychainResult" where
  "Done found = \<lparr>result_ok = True, result_found = found, result_error = []\<rparr>"

definition names_not_text :: string where
  "names_not_text = ''the keychain: the service and account must be UTF-8 text, the service non-empty''"

definition service_has_slash :: string where
  "service_has_slash = ''the keychain: a service name has no '' @ [CHR 0x27] @ ''/'' @ [CHR 0x27]"

definition secret_has_nul :: string where
  "secret_has_nul = ''the keychain holds text: the secret has a NUL byte''"

text \<open>\<open>None\<close> is \<open>true\<close>; \<open>Some why\<close> is \<open>false\<close>, with the text left in \<open>why\<close>.\<close>

definition NamesOk :: "string \<Rightarrow> string \<Rightarrow> string option" where
  "NamesOk service account =
     (if service = [] \<or> \<not> ValidUtf8 service \<or> \<not> ValidUtf8 account then Some names_not_text
      else if find_at ''/'' service \<noteq> None then Some service_has_slash
      else None)"

definition SecretOk :: "string \<Rightarrow> string option" where
  "SecretOk secret = (if find_at [CHR 0x00] secret \<noteq> None then Some secret_has_nul else None)"

lemma result_simps [simp]:
  "result_ok (Failed e) = False" "result_error (Failed e) = e" "result_found (Failed e) = False"
  "result_ok (Done b) = True" "result_error (Done b) = []" "result_found (Done b) = b"
  by (simp_all add: Failed_def Done_def)

lemma result_inject [simp]:
  "Failed e = Failed e' \<longleftrightarrow> e = e'" "Done b = Done b' \<longleftrightarrow> b = b'" "Failed e \<noteq> Done b" "Done b \<noteq> Failed e"
  by (simp_all add: Failed_def Done_def)

lemma NamesOk_None:
  "NamesOk service account = None \<longleftrightarrow>
     service \<noteq> [] \<and> ValidUtf8 service \<and> ValidUtf8 account \<and> CHR ''/'' \<notin> set service"
  by (auto simp: NamesOk_def find_at_single)

lemma NamesOk_cases: "NamesOk s a = None \<or> NamesOk s a = Some names_not_text \<or> NamesOk s a = Some service_has_slash"
  by (simp add: NamesOk_def)

lemma SecretOk_None: "SecretOk secret = None \<longleftrightarrow> CHR 0x00 \<notin> set secret"
  by (simp add: SecretOk_def find_at_single)

lemma SecretOk_cases: "SecretOk x = None \<or> SecretOk x = Some secret_has_nul"
  by (simp add: SecretOk_def)

lemma c_string_id: "CHR 0x00 \<notin> set s \<Longrightarrow> c_string s = s"
  by (auto simp: c_string_def takeWhile_eq_all_conv)


text \<open>A call's answer and the state it leaves, from what is known of each.\<close>

lemma answer_and_state: "fst p = r \<Longrightarrow> Q (snd p) \<Longrightarrow> \<exists>st'. p = (r, st') \<and> Q st'"
  by (cases p) auto


text \<open>Removal from the lists that stand for a system's store in the witnesses.\<close>

lemma map_of_filter_other: "map_of (filter (\<lambda>e. fst e \<noteq> k) w) = (map_of w)(k := None)"
  by (induction w) (auto simp: fun_eq_iff)


section \<open>A platform with no store\<close>

definition no_store :: string where
  "no_store = ''no credential store on this platform''"

definition NoKeychainAvailable :: "string option" where
  "NoKeychainAvailable = Some ''this platform has no credential store this module knows''"

definition NoKeychainStore :: "string \<Rightarrow> string \<Rightarrow> string \<Rightarrow> KeychainResult" where
  "NoKeychainStore service account secret = Failed no_store"

definition NoKeychainLoad :: "string \<Rightarrow> string \<Rightarrow> KeychainResult \<times> string" where
  "NoKeychainLoad service account = (Failed no_store, [])"

definition NoKeychainRemove :: "string \<Rightarrow> string \<Rightarrow> KeychainResult" where
  "NoKeychainRemove service account = Failed no_store"


section \<open>What the module promises: one small secret per (service, account)\<close>

text \<open>
  A consumer's calls, and the abstract store they are calls on: a map from the two names to the secret.
  A load's answer is the result and the text left in \<open>secret\<close>; the other calls leave no text.
\<close>

datatype keychain_call =
    StoreCall string string string
  | LoadCall string string
  | RemoveCall string string

type_synonym secrets = "string \<times> string \<rightharpoonup> string"

fun promised :: "keychain_call \<Rightarrow> secrets \<Rightarrow> (KeychainResult \<times> string) \<times> secrets" where
  "promised (StoreCall s a x) m = ((Done False, []), m((s, a) \<mapsto> x))"
| "promised (LoadCall s a) m =
     (case m (s, a) of None \<Rightarrow> ((Done False, []), m) | Some x \<Rightarrow> ((Done True, x), m))"
| "promised (RemoveCall s a) m = ((Done False, []), m((s, a) := None))"

text \<open>A platform's operations, as one function of the call.\<close>

fun keychain :: "(string \<Rightarrow> string \<Rightarrow> string \<Rightarrow> 's \<Rightarrow> KeychainResult \<times> 's)
    \<Rightarrow> (string \<Rightarrow> string \<Rightarrow> 's \<Rightarrow> (KeychainResult \<times> string) \<times> 's)
    \<Rightarrow> (string \<Rightarrow> string \<Rightarrow> 's \<Rightarrow> KeychainResult \<times> 's)
    \<Rightarrow> keychain_call \<Rightarrow> 's \<Rightarrow> (KeychainResult \<times> string) \<times> 's" where
  "keychain store load remove (StoreCall s a x) st = (case store s a x st of (r, st') \<Rightarrow> ((r, []), st'))"
| "keychain store load remove (LoadCall s a) st = load s a st"
| "keychain store load remove (RemoveCall s a) st = (case remove s a st of (r, st') \<Rightarrow> ((r, []), st'))"

text \<open>The calls a platform can keep the promise for: names it keys by, and a secret it can hold.\<close>

fun within :: "(string \<Rightarrow> string \<Rightarrow> bool) \<Rightarrow> (string \<Rightarrow> bool) \<Rightarrow> keychain_call \<Rightarrow> bool" where
  "within names holds (StoreCall s a x) \<longleftrightarrow> names s a \<and> holds x"
| "within names holds (LoadCall s a) \<longleftrightarrow> names s a"
| "within names holds (RemoveCall s a) \<longleftrightarrow> names s a"

text \<open>
  The contract. A platform keys its entries by what its system makes of the two names (\<open>key\<close>); as long as
  the system answers as documented (\<open>healthy\<close>), the operations read and write the entry of that key.
\<close>

locale vault =
  fixes store :: "string \<Rightarrow> string \<Rightarrow> string \<Rightarrow> 's \<Rightarrow> KeychainResult \<times> 's"
    and load :: "string \<Rightarrow> string \<Rightarrow> 's \<Rightarrow> (KeychainResult \<times> string) \<times> 's"
    and remove :: "string \<Rightarrow> string \<Rightarrow> 's \<Rightarrow> KeychainResult \<times> 's"
    and healthy :: "'s \<Rightarrow> bool"
    and names :: "string \<Rightarrow> string \<Rightarrow> bool"
    and holds :: "string \<Rightarrow> bool"
    and key :: "string \<Rightarrow> string \<Rightarrow> 'k"
    and entries :: "'s \<Rightarrow> 'k \<rightharpoonup> string"
  assumes key_inject: "names s a \<Longrightarrow> names s' a' \<Longrightarrow> key s a = key s' a' \<Longrightarrow> s = s' \<and> a = a'"
    and store_law: "healthy st \<Longrightarrow> names s a \<Longrightarrow> holds x \<Longrightarrow>
      \<exists>st'. store s a x st = (Done False, st') \<and> healthy st' \<and> entries st' = (entries st)(key s a \<mapsto> x)"
    and load_law: "healthy st \<Longrightarrow> names s a \<Longrightarrow>
      \<exists>st'. load s a st = ((case entries st (key s a) of None \<Rightarrow> (Done False, []) | Some x \<Rightarrow> (Done True, x)), st')
        \<and> healthy st' \<and> entries st' = entries st"
    and remove_law: "healthy st \<Longrightarrow> names s a \<Longrightarrow>
      \<exists>st'. remove s a st = (Done False, st') \<and> healthy st' \<and> entries st' = (entries st)(key s a := None)"
begin

definition kept :: "'s \<Rightarrow> secrets" where
  "kept st = (\<lambda>(s, a). if names s a then entries st (key s a) else None)"

lemma kept_key: "names s a \<Longrightarrow> kept st (s, a) = entries st (key s a)"
  by (simp add: kept_def)

lemma kept_upd:
  assumes "names s a" and "entries st' = (entries st)(key s a := v)"
  shows "kept st' = (kept st)((s, a) := v)"
proof (rule ext)
  fix sa :: "string \<times> string"
  obtain s' a' where sa: "sa = (s', a')" by (cases sa)
  show "kept st' sa = ((kept st)((s, a) := v)) sa"
  proof (cases "names s' a' \<and> key s' a' = key s a")
    case True
    with assms(1) key_inject have "s' = s \<and> a' = a" by blast
    with assms sa show ?thesis by (simp add: kept_key)
  next
    case False
    with assms sa show ?thesis by (auto simp: kept_def)
  qed
qed

lemma kept_cong: "entries st' = entries st \<Longrightarrow> kept st' = kept st"
  by (rule ext) (auto simp: kept_def)

lemma step:
  assumes "healthy st" and "within names holds c"
  shows "\<exists>st'. keychain store load remove c st = (fst (promised c (kept st)), st') \<and> healthy st'
    \<and> kept st' = snd (promised c (kept st))"
proof (cases c)
  case (StoreCall s a x)
  with assms have "names s a" and "holds x" by simp_all
  with store_law [OF assms(1) this] StoreCall show ?thesis by (auto simp: kept_upd)
next
  case (LoadCall s a)
  with assms have "names s a" by simp
  from load_law [OF assms(1) this] obtain st' where
      loaded: "load s a st = ((case entries st (key s a) of None \<Rightarrow> (Done False, []) | Some x \<Rightarrow> (Done True, x)), st')"
    and "healthy st'" and "entries st' = entries st" by blast
  moreover from this have "kept st' = kept st" by (intro kept_cong)
  ultimately show ?thesis
    by (cases "entries st (key s a)") (simp_all add: LoadCall kept_key [OF \<open>names s a\<close>])
next
  case (RemoveCall s a)
  with assms have "names s a" by simp
  with remove_law [OF assms(1) this] RemoveCall show ?thesis by (auto simp: kept_upd)
qed

lemma simulates:
  "healthy st \<Longrightarrow> list_all (within names holds) cs \<Longrightarrow>
     run_calls (keychain store load remove) cs st = run_calls promised cs (kept st)"
proof (induction cs arbitrary: st)
  case (Cons c cs)
  from Cons.prems have "within names holds c" by simp
  from step [OF Cons.prems(1) this] obtain st' where
      "keychain store load remove c st = (fst (promised c (kept st)), st')"
    and "healthy st'" and "kept st' = snd (promised c (kept st))" by blast
  with Cons show ?case by (simp add: split_beta)
qed simp

end

end
