(* ===== verification/KeychainMac.thy ===== *)
theory KeychainMac
  imports Keychain
begin

text \<open>
  The macOS section of \<open>keychain/src/keychain.cpp\<close>: one generic password of Keychain Services per
  (service, account).
\<close>


section \<open>Keychain Services, as far as the section calls it\<close>

text \<open>
  A parameter of the model, over the system's state \<open>'w\<close>. A status is an \<open>OSStatus\<close>; \<open>cf_string\<close> says whether
  CoreFoundation makes a string of the bytes, \<open>cf_data\<close> and \<open>cf_dictionary\<close> whether it makes a data and a
  dictionary; \<open>status_message\<close> is the text \<open>SecCopyErrorMessageString\<close> gives, when it fits the buffer.
  Names cross whole, with their length.
\<close>

type_synonym osstatus = int

record 'w security =
  copy_default :: "'w \<Rightarrow> osstatus"
  cf_string :: "string \<Rightarrow> bool"
  cf_data :: "string \<Rightarrow> bool"
  cf_dictionary :: bool
  status_message :: "osstatus \<Rightarrow> string option"
  item_copy :: "string \<Rightarrow> string \<Rightarrow> 'w \<Rightarrow> (osstatus \<times> string) \<times> 'w"
  item_update :: "string \<Rightarrow> string \<Rightarrow> string \<Rightarrow> 'w \<Rightarrow> osstatus \<times> 'w"
  item_add :: "string \<Rightarrow> string \<Rightarrow> string \<Rightarrow> 'w \<Rightarrow> osstatus \<times> 'w"
  item_delete :: "string \<Rightarrow> string \<Rightarrow> 'w \<Rightarrow> osstatus \<times> 'w"

definition errSecSuccess :: osstatus where "errSecSuccess = 0"
definition errSecUserCanceled :: osstatus where "errSecUserCanceled = -128"
definition errSecAuthFailed :: osstatus where "errSecAuthFailed = -25293"
definition errSecItemNotFound :: osstatus where "errSecItemNotFound = -25300"
definition errSecNoDefaultKeychain :: osstatus where "errSecNoDefaultKeychain = -25307"
definition errSecInteractionNotAllowed :: osstatus where "errSecInteractionNotAllowed = -25308"

lemmas status_codes = errSecSuccess_def errSecUserCanceled_def errSecAuthFailed_def errSecItemNotFound_def
  errSecNoDefaultKeychain_def errSecInteractionNotAllowed_def


section \<open>The section's functions\<close>

definition Status :: "'w security \<Rightarrow> string \<Rightarrow> osstatus \<Rightarrow> string" where
  "Status api what status =
     (if status = errSecInteractionNotAllowed
      then ''the macOS keychain: '' @ what
        @ '' failed - the keychain is locked, or asks the user and cannot here (an SSH session)''
      else if status = errSecUserCanceled \<or> status = errSecAuthFailed
      then ''the macOS keychain: '' @ what @ '' failed - access was denied''
      else ''the macOS keychain: '' @ what @ '' failed ('' @ to_string status
        @ (case status_message api status of Some m \<Rightarrow> '': '' @ m | None \<Rightarrow> []) @ '')'')"

text \<open>\<open>Query\<close>: the item's identity, where CoreFoundation can describe it. The names are the whole of it.\<close>

definition Query :: "'w security \<Rightarrow> string \<Rightarrow> string \<Rightarrow> (string \<times> string) option" where
  "Query api service account =
     (if \<not> cf_string api service \<or> \<not> cf_string api account then None
      else if \<not> cf_dictionary api then None
      else Some (service, account))"

definition no_default_keychain :: string where
  "no_default_keychain = ''the macOS keychain: no default keychain in this session''"

definition MacKeychainAvailable :: "'w security \<Rightarrow> 'w \<Rightarrow> string option \<times> 'w" where
  "MacKeychainAvailable api w =
     (if copy_default api w \<noteq> errSecSuccess then (Some no_default_keychain, w)
      else (case Query api ''org.duckdb.ext-common.probe'' [] of
          None \<Rightarrow> (Some ''the macOS keychain could not be queried'', w)
        | Some (s, a) \<Rightarrow> (case item_copy api s a w of
              ((status, _), w) \<Rightarrow>
                (if status = errSecSuccess \<or> status = errSecItemNotFound then None
                 else Some (if status = errSecNoDefaultKeychain then no_default_keychain
                   else Status api ''probing'' status), w))))"

definition not_described :: string where
  "not_described = ''the macOS keychain: the item could not be described''"

text \<open>Update where the item is, add where it is not.\<close>

definition update_or_add :: "'w security \<Rightarrow> string \<Rightarrow> string \<Rightarrow> string \<Rightarrow> 'w \<Rightarrow> osstatus \<times> 'w" where
  "update_or_add api s a secret w =
     (case item_update api s a secret w of
        (status, w) \<Rightarrow> if status = errSecItemNotFound then item_add api s a secret w else (status, w))"

definition MacKeychainStore ::
    "'w security \<Rightarrow> string \<Rightarrow> string \<Rightarrow> string \<Rightarrow> 'w \<Rightarrow> KeychainResult \<times> 'w" where
  "MacKeychainStore api service account secret w =
     (case NamesOk service account of
        Some why \<Rightarrow> (Failed why, w)
      | None \<Rightarrow> (case SecretOk secret of
            Some why \<Rightarrow> (Failed why, w)
          | None \<Rightarrow> (case MacKeychainAvailable api w of
                (Some why, w) \<Rightarrow> (Failed why, w)
              | (None, w) \<Rightarrow> (case Query api service account of
                    None \<Rightarrow> (Failed not_described, w)
                  | Some (s, a) \<Rightarrow>
                      if \<not> cf_data api secret \<or> \<not> cf_dictionary api then (Failed not_described, w)
                      else (case update_or_add api s a secret w of
                          (status, w) \<Rightarrow>
                            (if status = errSecSuccess then Done False else Failed (Status api ''storing'' status), w))))))"

definition MacKeychainLoad ::
    "'w security \<Rightarrow> string \<Rightarrow> string \<Rightarrow> 'w \<Rightarrow> (KeychainResult \<times> string) \<times> 'w" where
  "MacKeychainLoad api service account w =
     (case NamesOk service account of
        Some why \<Rightarrow> ((Failed why, []), w)
      | None \<Rightarrow> (case Query api service account of
            None \<Rightarrow> ((Failed not_described, []), w)
          | Some (s, a) \<Rightarrow> (case item_copy api s a w of
                ((status, bytes), w) \<Rightarrow>
                  (if status = errSecItemNotFound then (Done False, [])
                   else if status \<noteq> errSecSuccess then (Failed (Status api ''reading'' status), [])
                   else (Done True, bytes), w))))"

definition MacKeychainRemove ::
    "'w security \<Rightarrow> string \<Rightarrow> string \<Rightarrow> 'w \<Rightarrow> KeychainResult \<times> 'w" where
  "MacKeychainRemove api service account w =
     (case NamesOk service account of
        Some why \<Rightarrow> (Failed why, w)
      | None \<Rightarrow> (case Query api service account of
            None \<Rightarrow> (Failed not_described, w)
          | Some (s, a) \<Rightarrow> (case item_delete api s a w of
                (status, w) \<Rightarrow>
                  (if status = errSecSuccess \<or> status = errSecItemNotFound then Done False
                   else Failed (Status api ''removing'' status), w))))"


section \<open>A keychain that answers, and the contract\<close>

text \<open>
  What the documentation says of the calls on an unlocked default keychain: CoreFoundation makes a string of
  any UTF-8; a copy finds the item of the two attributes or gives \<open>errSecItemNotFound\<close>, an update changes it or
  gives the same, an add makes it, a delete removes it or finds none.
\<close>

definition security_laws :: "'w security \<Rightarrow> ('w \<Rightarrow> string \<times> string \<rightharpoonup> string) \<Rightarrow> bool" where
  "security_laws api entries \<longleftrightarrow>
     (\<forall>s. ValidUtf8 s \<longrightarrow> cf_string api s) \<and> (\<forall>x. cf_data api x) \<and> cf_dictionary api
     \<and> (\<forall>w. copy_default api w = errSecSuccess)
     \<and> (\<forall>s a w. case entries w (s, a) of
          None \<Rightarrow> fst (fst (item_copy api s a w)) = errSecItemNotFound
        | Some x \<Rightarrow> fst (item_copy api s a w) = (errSecSuccess, x))
     \<and> (\<forall>s a w. entries (snd (item_copy api s a w)) = entries w)
     \<and> (\<forall>s a x w. case entries w (s, a) of
          None \<Rightarrow> fst (item_update api s a x w) = errSecItemNotFound
            \<and> entries (snd (item_update api s a x w)) = entries w
        | Some y \<Rightarrow> fst (item_update api s a x w) = errSecSuccess
            \<and> entries (snd (item_update api s a x w)) = (entries w)((s, a) \<mapsto> x))
     \<and> (\<forall>s a x w. entries w (s, a) = None \<longrightarrow> fst (item_add api s a x w) = errSecSuccess
        \<and> entries (snd (item_add api s a x w)) = (entries w)((s, a) \<mapsto> x))
     \<and> (\<forall>s a w. fst (item_delete api s a w) = (if entries w (s, a) = None then errSecItemNotFound else errSecSuccess)
        \<and> entries (snd (item_delete api s a w)) = (entries w)((s, a) := None))"

lemma law_Query:
  "security_laws api entries \<Longrightarrow> ValidUtf8 s \<Longrightarrow> ValidUtf8 a \<Longrightarrow> Query api s a = Some (s, a)"
  by (simp add: security_laws_def Query_def)

lemma law_copy:
  assumes "security_laws api entries"
  obtains x w' where "item_copy api s a w
      = ((case entries w (s, a) of None \<Rightarrow> (errSecItemNotFound, x) | Some y \<Rightarrow> (errSecSuccess, y)), w')"
    and "entries w' = entries w"
proof -
  obtain status x w' where copy: "item_copy api s a w = ((status, x), w')"
    by (metis prod.exhaust)
  from assms have "case entries w (s, a) of
          None \<Rightarrow> fst (fst (item_copy api s a w)) = errSecItemNotFound
        | Some x \<Rightarrow> fst (item_copy api s a w) = (errSecSuccess, x)"
    and "entries (snd (item_copy api s a w)) = entries w"
    unfolding security_laws_def by blast+
  with copy that [of x w'] show thesis by (cases "entries w (s, a)") simp_all
qed

lemma law_update_or_add:
  assumes "security_laws api entries"
  shows "\<exists>w'. update_or_add api s a x w = (errSecSuccess, w') \<and> entries w' = (entries w)((s, a) \<mapsto> x)"
proof -
  obtain status w1 where update: "item_update api s a x w = (status, w1)" by (metis prod.exhaust)
  obtain status' w2 where add: "item_add api s a x w1 = (status', w2)" by (metis prod.exhaust)
  from assms have "case entries w (s, a) of
          None \<Rightarrow> fst (item_update api s a x w) = errSecItemNotFound
            \<and> entries (snd (item_update api s a x w)) = entries w
        | Some y \<Rightarrow> fst (item_update api s a x w) = errSecSuccess
            \<and> entries (snd (item_update api s a x w)) = (entries w)((s, a) \<mapsto> x)"
    and "entries w1 (s, a) = None \<longrightarrow> fst (item_add api s a x w1) = errSecSuccess
        \<and> entries (snd (item_add api s a x w1)) = (entries w1)((s, a) \<mapsto> x)"
    unfolding security_laws_def by blast+
  with update add show ?thesis
    by (cases "entries w (s, a)") (simp_all add: update_or_add_def status_codes)
qed

lemma mac_law_delete:
  assumes "security_laws api entries"
  shows "\<exists>w'. item_delete api s a w = ((if entries w (s, a) = None then errSecItemNotFound else errSecSuccess), w')
    \<and> entries w' = (entries w)((s, a) := None)"
  using assms by (intro answer_and_state) (simp_all add: security_laws_def)

lemma law_Available:
  assumes "security_laws api entries"
  shows "\<exists>w'. MacKeychainAvailable api w = (None, w') \<and> entries w' = entries w"
proof -
  have "ValidUtf8 ''org.duckdb.ext-common.probe''" and "ValidUtf8 []" by code_simp+
  then have "Query api ''org.duckdb.ext-common.probe'' [] = Some (''org.duckdb.ext-common.probe'', [])"
    by (rule law_Query [OF assms])
  moreover have "copy_default api w = errSecSuccess" using assms unfolding security_laws_def by blast
  moreover obtain x w' where "item_copy api ''org.duckdb.ext-common.probe'' [] w
      = ((case entries w (''org.duckdb.ext-common.probe'', []) of None \<Rightarrow> (errSecItemNotFound, x)
          | Some y \<Rightarrow> (errSecSuccess, y)), w')" and "entries w' = entries w"
    by (rule law_copy [OF assms])
  ultimately show ?thesis
    by (cases "entries w (''org.duckdb.ext-common.probe'', [])") (simp_all add: MacKeychainAvailable_def)
qed

definition mac_names :: "string \<Rightarrow> string \<Rightarrow> bool" where
  "mac_names s a \<longleftrightarrow> NamesOk s a = None"

definition mac_holds :: "string \<Rightarrow> bool" where
  "mac_holds x \<longleftrightarrow> SecretOk x = None"

interpretation security: vault "MacKeychainStore api" "MacKeychainLoad api" "MacKeychainRemove api"
    "\<lambda>w. security_laws api entries" mac_names mac_holds "\<lambda>s a. (s, a)" entries
  for api :: "'w security" and entries :: "'w \<Rightarrow> string \<times> string \<rightharpoonup> string"
proof unfold_locales
  fix w :: 'w and s a x
  assume laws: "security_laws api entries" and names: "mac_names s a" and x: "mac_holds x"
  from names have "Query api s a = Some (s, a)"
    by (intro law_Query [OF laws]) (simp_all add: mac_names_def NamesOk_None)
  moreover obtain w1 where "MacKeychainAvailable api w = (None, w1)" and "entries w1 = entries w"
    using law_Available [OF laws] by blast
  moreover obtain w2 where "update_or_add api s a x w1 = (errSecSuccess, w2)"
    and "entries w2 = (entries w1)((s, a) \<mapsto> x)" using law_update_or_add [OF laws] by blast
  moreover have "cf_data api x" and "cf_dictionary api" using laws unfolding security_laws_def by blast+
  ultimately show "\<exists>w'. MacKeychainStore api s a x w = (Done False, w') \<and> security_laws api entries
      \<and> entries w' = (entries w)((s, a) \<mapsto> x)"
    using laws names x by (simp add: MacKeychainStore_def mac_names_def mac_holds_def)
next
  fix w :: 'w and s a
  assume laws: "security_laws api entries" and names: "mac_names s a"
  from names have "Query api s a = Some (s, a)"
    by (intro law_Query [OF laws]) (simp_all add: mac_names_def NamesOk_None)
  moreover obtain x w' where "item_copy api s a w
      = ((case entries w (s, a) of None \<Rightarrow> (errSecItemNotFound, x) | Some y \<Rightarrow> (errSecSuccess, y)), w')"
    and "entries w' = entries w" by (rule law_copy [OF laws])
  ultimately show "\<exists>w'. MacKeychainLoad api s a w = ((case entries w (s, a) of None \<Rightarrow> (Done False, [])
      | Some x \<Rightarrow> (Done True, x)), w') \<and> security_laws api entries \<and> entries w' = entries w"
    using laws names by (cases "entries w (s, a)") (simp_all add: MacKeychainLoad_def mac_names_def status_codes)
next
  fix w :: 'w and s a
  assume laws: "security_laws api entries" and names: "mac_names s a"
  from names have "Query api s a = Some (s, a)"
    by (intro law_Query [OF laws]) (simp_all add: mac_names_def NamesOk_None)
  with mac_law_delete [OF laws, of s a w] laws names
  show "\<exists>w'. MacKeychainRemove api s a w = (Done False, w') \<and> security_laws api entries
      \<and> entries w' = (entries w)((s, a) := None)"
    by (auto simp: MacKeychainRemove_def mac_names_def split: if_splits)
qed auto


section \<open>Properties\<close>

definition sample_security :: "((string \<times> string) \<times> string) list security" where
  "sample_security =
     \<lparr>copy_default = (\<lambda>w. errSecSuccess), cf_string = ValidUtf8, cf_data = (\<lambda>x. True), cf_dictionary = True,
      status_message = (\<lambda>s. None),
      item_copy = (\<lambda>s a w. case map_of w (s, a) of None \<Rightarrow> ((errSecItemNotFound, []), w) | Some x \<Rightarrow> ((errSecSuccess, x), w)),
      item_update = (\<lambda>s a x w. if map_of w (s, a) = None then (errSecItemNotFound, w)
        else (errSecSuccess, ((s, a), x) # w)),
      item_add = (\<lambda>s a x w. (errSecSuccess, ((s, a), x) # w)),
      item_delete = (\<lambda>s a w. (if map_of w (s, a) = None then errSecItemNotFound else errSecSuccess,
        filter (\<lambda>e. fst e \<noteq> (s, a)) w))\<rparr>"

text \<open>On macOS with an unlocked default keychain, any sequence of stores, loads and removes under names
  \<open>NamesOk\<close> accepts answers exactly as the promised map does; a NUL in a name is kept apart there.\<close>

theorem MacKeychain_refines:
  assumes "security_laws api entries" and "list_all (within mac_names mac_holds) calls"
  shows "run_calls (keychain (MacKeychainStore api) (MacKeychainLoad api) (MacKeychainRemove api)) calls w
    = run_calls promised calls (\<lambda>(s, a). if mac_names s a then entries w (s, a) else None)"
  using security.simulates [OF assms] by (simp only: security.kept_def)

lemma sample_security_laws: "security_laws sample_security map_of"
  by (auto simp: security_laws_def sample_security_def map_of_filter_other split: option.split)

theorem MacKeychain_refines_witness:
  "run_calls (keychain (MacKeychainStore sample_security) (MacKeychainLoad sample_security)
      (MacKeychainRemove sample_security))
      [StoreCall ''tresor'' (''alice'' @ CHR 0x00 # ''x'') ''first'', LoadCall ''tresor'' ''alice''] []
   = [(Done False, []), (Done False, [])]"
proof -
  have "list_all (within mac_names mac_holds)
      [StoreCall ''tresor'' (''alice'' @ CHR 0x00 # ''x'') ''first'', LoadCall ''tresor'' ''alice'']" by code_simp
  from MacKeychain_refines [OF sample_security_laws this, of "[]"] show ?thesis by simp
qed

end
