(* ===== verification/KeychainWindows.thy ===== *)
theory KeychainWindows
  imports Keychain
begin

text \<open>
  The Windows section of \<open>keychain/src/keychain.cpp\<close>: one generic credential of the Credential Manager per
  (service, account), under the target name \<open>service/account\<close> in UTF-16.
\<close>


section \<open>The Windows API, as far as the section calls it\<close>

text \<open>
  A parameter of the model: \<open>'w\<close> is the system's state. \<open>multi_byte\<close> is \<open>MultiByteToWideChar\<close> with
  \<open>MB_ERR_INVALID_CHARS\<close> (\<open>None\<close> where it returns 0), \<open>session_types\<close> the persistence
  \<open>CredGetSessionTypes\<close> gives each type (\<open>None\<close> where it fails), and a credential call that fails gives
  what \<open>GetLastError\<close> returns after it. The calls take names as C strings.
\<close>

type_synonym wide = "16 word list"

record credential =
  target_name :: wide
  user_name :: "wide option"
  blob :: string
  persist :: nat

record 'w wincred =
  multi_byte :: "string \<Rightarrow> wide option"
  session_types :: "'w \<Rightarrow> (nat \<Rightarrow> nat) option"
  cred_write :: "credential \<Rightarrow> 'w \<Rightarrow> nat option \<times> 'w"
  cred_read :: "wide \<Rightarrow> 'w \<Rightarrow> (nat + string) \<times> 'w"
  cred_delete :: "wide \<Rightarrow> 'w \<Rightarrow> nat option \<times> 'w"

definition CRED_TYPE_GENERIC :: nat where "CRED_TYPE_GENERIC = 1"
definition CRED_PERSIST_LOCAL_MACHINE :: nat where "CRED_PERSIST_LOCAL_MACHINE = 2"
definition CRED_MAX_USERNAME_LENGTH :: nat where "CRED_MAX_USERNAME_LENGTH = 513"
definition ERROR_NOT_FOUND :: nat where "ERROR_NOT_FOUND = 1168"
definition ERROR_NO_SUCH_LOGON_SESSION :: nat where "ERROR_NO_SUCH_LOGON_SESSION = 1312"

definition wide_c_string :: "wide \<Rightarrow> wide" where
  "wide_c_string s = takeWhile (\<lambda>u. u \<noteq> 0) s"


section \<open>The section's functions\<close>

definition Wide :: "'w wincred \<Rightarrow> string \<Rightarrow> wide option" where
  "Wide api s =
     (if s = [] then Some []
      else (case multi_byte api s of
          None \<Rightarrow> None
        | Some out \<Rightarrow> if out = [] then None else Some out))"

definition target_not_text :: string where
  "target_not_text = ''the keychain: the service and account must be UTF-8 text''"

definition Target :: "'w wincred \<Rightarrow> string \<Rightarrow> string \<Rightarrow> string + wide" where
  "Target api service account =
     (case NamesOk service account of
        Some why \<Rightarrow> Inl why
      | None \<Rightarrow> (case Wide api (service @ ''/'' @ account) of
            None \<Rightarrow> Inl target_not_text
          | Some target \<Rightarrow> Inr target))"

definition MAX_BLOB_BYTES :: nat where "MAX_BLOB_BYTES = 5 * 512"

definition LastError :: "string \<Rightarrow> nat \<Rightarrow> string" where
  "LastError what code =
     (if code = ERROR_NO_SUCH_LOGON_SESSION
      then ''the Windows Credential Manager: '' @ what
        @ '' failed - this logon session keeps no credentials (a service, or an SSH key logon)''
      else ''the Windows Credential Manager: '' @ what @ '' failed ('' @ dec code @ '')'')"

definition WindowsKeychainAvailable :: "'w wincred \<Rightarrow> 'w \<Rightarrow> string option" where
  "WindowsKeychainAvailable api w =
     (case session_types api w of
        None \<Rightarrow> Some ''the Windows Credential Manager keeps no credentials in this logon session''
      | Some types \<Rightarrow>
          if types CRED_TYPE_GENERIC < CRED_PERSIST_LOCAL_MACHINE
          then Some ''the Windows Credential Manager keeps no credentials in this logon session''
          else None)"

definition blob_too_long :: string where
  "blob_too_long = ''the Windows Credential Manager holds at most '' @ dec MAX_BLOB_BYTES @ '' bytes per credential''"

definition account_too_long :: string where
  "account_too_long = ''the Windows Credential Manager: the account name is too long''"

text \<open>\<open>Wide(account, user)\<close> is called for its output alone: where it fails, \<open>user\<close> stays empty.\<close>

definition WindowsKeychainStore ::
    "'w wincred \<Rightarrow> string \<Rightarrow> string \<Rightarrow> string \<Rightarrow> 'w \<Rightarrow> KeychainResult \<times> 'w" where
  "WindowsKeychainStore api service account secret w =
     (case Target api service account of
        Inl why \<Rightarrow> (Failed why, w)
      | Inr target \<Rightarrow> (case SecretOk secret of
            Some why \<Rightarrow> (Failed why, w)
          | None \<Rightarrow>
              if length secret > MAX_BLOB_BYTES then (Failed blob_too_long, w)
              else
                let user = (case Wide api account of None \<Rightarrow> [] | Some u \<Rightarrow> u)
                in if length user > CRED_MAX_USERNAME_LENGTH then (Failed account_too_long, w)
                  else (case cred_write api
                      \<lparr>target_name = wide_c_string target,
                       user_name = (if user = [] then None else Some (wide_c_string user)),
                       blob = secret, persist = CRED_PERSIST_LOCAL_MACHINE\<rparr> w of
                      (None, w) \<Rightarrow> (Done False, w)
                    | (Some code, w) \<Rightarrow> (Failed (LastError ''storing'' code), w))))"

definition WindowsKeychainLoad ::
    "'w wincred \<Rightarrow> string \<Rightarrow> string \<Rightarrow> 'w \<Rightarrow> (KeychainResult \<times> string) \<times> 'w" where
  "WindowsKeychainLoad api service account w =
     (case Target api service account of
        Inl why \<Rightarrow> ((Failed why, []), w)
      | Inr target \<Rightarrow> (case cred_read api (wide_c_string target) w of
            (Inl code, w) \<Rightarrow>
              ((if code = ERROR_NOT_FOUND then Done False else Failed (LastError ''reading'' code), []), w)
          | (Inr bytes, w) \<Rightarrow> ((Done True, bytes), w)))"

definition WindowsKeychainRemove ::
    "'w wincred \<Rightarrow> string \<Rightarrow> string \<Rightarrow> 'w \<Rightarrow> KeychainResult \<times> 'w" where
  "WindowsKeychainRemove api service account w =
     (case Target api service account of
        Inl why \<Rightarrow> (Failed why, w)
      | Inr target \<Rightarrow> (case cred_delete api (wide_c_string target) w of
            (Some code, w) \<Rightarrow>
              (if code \<noteq> ERROR_NOT_FOUND then Failed (LastError ''removing'' code) else Done False, w)
          | (None, w) \<Rightarrow> (Done False, w)))"


section \<open>The target name tells the entries apart\<close>

definition code_points :: "string \<Rightarrow> nat list" where
  "code_points s = (case utf8_decode s of None \<Rightarrow> [] | Some cps \<Rightarrow> cps)"

lemma ValidUtf8_code_points:
  assumes "ValidUtf8 s"
  shows "list_all scalar_value (code_points s)" and "utf8 (code_points s) = s"
    and "utf8_decode s = Some (code_points s)"
  using assms utf8_decode_sound by (auto simp: ValidUtf8_decode code_points_def)

lemma code_points_utf8 [simp]: "list_all scalar_value cps \<Longrightarrow> code_points (utf8 cps) = cps"
  by (simp add: code_points_def utf8_decode_utf8)

lemma slash_char: "char_of (47 :: nat) = CHR ''/''"
  by code_simp

lemma scalar_slash [simp]: "scalar_value 47"
  by (simp add: scalar_value_def)

lemma code_points_target:
  assumes "ValidUtf8 s" and "ValidUtf8 a"
  shows "utf8_decode (s @ ''/'' @ a) = Some (code_points s @ 47 # code_points a)"
proof -
  have "utf8 (code_points s @ 47 # code_points a) = s @ ''/'' @ a"
    using ValidUtf8_code_points [OF assms(1)] ValidUtf8_code_points [OF assms(2)]
    by (simp add: utf8_def utf8_char_def slash_char)
  moreover have "utf8_decode (utf8 (code_points s @ 47 # code_points a)) = Some (code_points s @ 47 # code_points a)"
    using ValidUtf8_code_points [OF assms(1)] ValidUtf8_code_points [OF assms(2)]
    by (intro utf8_decode_utf8) simp
  ultimately show ?thesis by simp
qed

lemma code_points_has:
  assumes "ValidUtf8 s" and "n < 0x80"
  shows "n \<in> set (code_points s) \<longleftrightarrow> char_of n \<in> set s"
  using utf8_has_ascii [OF ValidUtf8_code_points(1) assms(2)] ValidUtf8_code_points(2) assms by metis

lemma code_points_slash: "ValidUtf8 s \<Longrightarrow> 47 \<in> set (code_points s) \<longleftrightarrow> CHR ''/'' \<in> set s"
  using code_points_has [of s 47] unfolding slash_char by simp

text \<open>The target name as the Credential Manager reads it, and the names that reach it whole.\<close>

definition windows_key :: "string \<Rightarrow> string \<Rightarrow> wide" where
  "windows_key s a = wide_c_string (utf16 (code_points (s @ ''/'' @ a)))"

definition windows_names :: "string \<Rightarrow> string \<Rightarrow> bool" where
  "windows_names s a \<longleftrightarrow> NamesOk s a = None \<and> CHR 0x00 \<notin> set s \<and> CHR 0x00 \<notin> set a
     \<and> length (windows_key s a) \<le> 32767 \<and> length (utf16 (code_points a)) \<le> CRED_MAX_USERNAME_LENGTH"

lemma windows_key_eq:
  assumes "windows_names s a"
  shows "windows_key s a = utf16 (code_points s @ 47 # code_points a)"
proof -
  from assms have valid: "ValidUtf8 s" "ValidUtf8 a" and nul: "CHR 0x00 \<notin> set s" "CHR 0x00 \<notin> set a"
    by (auto simp: windows_names_def NamesOk_None)
  have zero: "char_of (0 :: nat) = CHR 0x00" by (simp add: char_of_def)
  have "0 \<notin> set (code_points s @ 47 # code_points a)"
    using code_points_has [OF valid(1), of 0] code_points_has [OF valid(2), of 0] nul zero by auto
  then have "0 \<notin> set (utf16 (code_points s @ 47 # code_points a))"
    using ValidUtf8_code_points(1) [OF valid(1)] ValidUtf8_code_points(1) [OF valid(2)]
    by (subst utf16_zero) simp_all
  then have "wide_c_string (utf16 (code_points s @ 47 # code_points a)) = utf16 (code_points s @ 47 # code_points a)"
    unfolding wide_c_string_def takeWhile_eq_all_conv by blast
  moreover have "code_points (s @ ''/'' @ a) = code_points s @ 47 # code_points a"
    using code_points_target [OF valid] by (simp add: code_points_def)
  ultimately show ?thesis by (simp add: windows_key_def)
qed

lemma windows_key_inject:
  assumes "windows_names s a" and "windows_names s' a'" and "windows_key s a = windows_key s' a'"
  shows "s = s' \<and> a = a'"
proof -
  from assms(1,2) have valid: "ValidUtf8 s" "ValidUtf8 a" "ValidUtf8 s'" "ValidUtf8 a'"
    and slash: "CHR ''/'' \<notin> set s" "CHR ''/'' \<notin> set s'"
    by (auto simp: windows_names_def NamesOk_None)
  note points = ValidUtf8_code_points [OF valid(1)] ValidUtf8_code_points [OF valid(2)]
    ValidUtf8_code_points [OF valid(3)] ValidUtf8_code_points [OF valid(4)]
  from assms(3) have "code_points s @ 47 # code_points a = code_points s' @ 47 # code_points a'"
    unfolding windows_key_eq [OF assms(1)] windows_key_eq [OF assms(2)]
    using points by (intro utf16_inject) simp_all
  moreover have "47 \<notin> set (code_points s)" and "47 \<notin> set (code_points s')"
    using slash by (simp_all add: code_points_slash valid)
  ultimately have "code_points s = code_points s' \<and> code_points a = code_points a'"
    by (simp add: separator_inject)
  then have "utf8 (code_points s) = utf8 (code_points s')" and "utf8 (code_points a) = utf8 (code_points a')" by simp_all
  then show ?thesis by (simp only: ValidUtf8_code_points(2) valid simp_thms)
qed


section \<open>A logon session that keeps credentials\<close>

text \<open>
  What the API documents of its calls, for credentials within its limits: \<open>MultiByteToWideChar\<close> with
  \<open>MB_ERR_INVALID_CHARS\<close> converts UTF-8 and refuses anything else; a write replaces the credential of its
  target name, a read gives its blob or \<open>ERROR_NOT_FOUND\<close>, a delete removes it or finds none.
  \<open>entries\<close> is the session's set of generic credentials.
\<close>

definition wincred_laws :: "'w wincred \<Rightarrow> ('w \<Rightarrow> wide \<rightharpoonup> string) \<Rightarrow> bool" where
  "wincred_laws api entries \<longleftrightarrow>
     (\<forall>s. multi_byte api s = map_option utf16 (utf8_decode s))
     \<and> (\<forall>c w. length (target_name c) \<le> 32767 \<longrightarrow> length (blob c) \<le> MAX_BLOB_BYTES \<longrightarrow>
          fst (cred_write api c w) = None
          \<and> entries (snd (cred_write api c w)) = (entries w)(target_name c \<mapsto> blob c))
     \<and> (\<forall>t w. fst (cred_read api t w) = (case entries w t of None \<Rightarrow> Inl ERROR_NOT_FOUND | Some b \<Rightarrow> Inr b)
          \<and> entries (snd (cred_read api t w)) = entries w)
     \<and> (\<forall>t w. fst (cred_delete api t w) = (if entries w t = None then Some ERROR_NOT_FOUND else None)
          \<and> entries (snd (cred_delete api t w)) = (entries w)(t := None))"

lemma law_multi_byte: "wincred_laws api entries \<Longrightarrow> multi_byte api s = map_option utf16 (utf8_decode s)"
  by (simp add: wincred_laws_def)

lemma law_write:
  assumes "wincred_laws api entries" and "length (target_name c) \<le> 32767" and "length (blob c) \<le> MAX_BLOB_BYTES"
  shows "\<exists>w'. cred_write api c w = (None, w') \<and> entries w' = (entries w)(target_name c \<mapsto> blob c)"
  using assms by (intro answer_and_state) (simp_all add: wincred_laws_def)

lemma law_read:
  assumes "wincred_laws api entries"
  shows "\<exists>w'. cred_read api t w = ((case entries w t of None \<Rightarrow> Inl ERROR_NOT_FOUND | Some b \<Rightarrow> Inr b), w')
    \<and> entries w' = entries w"
  using assms by (intro answer_and_state) (simp_all add: wincred_laws_def)

lemma windows_law_delete:
  assumes "wincred_laws api entries"
  shows "\<exists>w'. cred_delete api t w = ((if entries w t = None then Some ERROR_NOT_FOUND else None), w')
    \<and> entries w' = (entries w)(t := None)"
  using assms by (intro answer_and_state) (simp_all add: wincred_laws_def)

lemma law_Wide:
  assumes "wincred_laws api entries" and "ValidUtf8 s"
  shows "Wide api s = Some (utf16 (code_points s))"
proof (cases s)
  case Nil
  then show ?thesis by (simp add: Wide_def code_points_def utf16_def)
next
  case (Cons c s')
  have "utf16_char cp \<noteq> []" for cp by (simp add: utf16_char_def)
  moreover from Cons ValidUtf8_code_points(2) [OF assms(2)] have "code_points s \<noteq> []"
    by (auto simp: utf8_def)
  ultimately have "utf16 (code_points s) \<noteq> []" by (cases "code_points s") (simp_all add: utf16_def)
  with Cons show ?thesis
    using ValidUtf8_code_points(3) [OF assms(2)] by (simp add: Wide_def law_multi_byte [OF assms(1)])
qed

lemma law_Target:
  assumes "wincred_laws api entries" and "NamesOk s a = None"
  shows "\<exists>target. Target api s a = Inr target \<and> wide_c_string target = windows_key s a"
proof -
  from assms(2) have "ValidUtf8 (s @ ''/'' @ a)"
    using code_points_target [of s a] by (simp add: NamesOk_None ValidUtf8_decode)
  from law_Wide [OF assms(1) this] assms(2) show ?thesis by (simp add: Target_def windows_key_def)
qed


section \<open>The contract, kept\<close>

definition windows_holds :: "string \<Rightarrow> bool" where
  "windows_holds x \<longleftrightarrow> CHR 0x00 \<notin> set x \<and> length x \<le> MAX_BLOB_BYTES"

lemma windows_store:
  assumes laws: "wincred_laws api entries" and ok: "NamesOk s a = None" and x: "windows_holds x"
    and lengths: "length (windows_key s a) \<le> 32767" "length (utf16 (code_points a)) \<le> CRED_MAX_USERNAME_LENGTH"
  shows "\<exists>w'. WindowsKeychainStore api s a x w = (Done False, w') \<and> entries w' = (entries w)(windows_key s a \<mapsto> x)"
proof -
  from law_Target [OF laws ok] obtain target where target: "Target api s a = Inr target"
    and key: "wide_c_string target = windows_key s a" by blast
  from ok have "ValidUtf8 a" by (simp add: NamesOk_None)
  from law_Wide [OF laws this] have user: "Wide api a = Some (utf16 (code_points a))" .
  define c where "c = \<lparr>target_name = windows_key s a,
    user_name = (if utf16 (code_points a) = [] then None else Some (wide_c_string (utf16 (code_points a)))),
    blob = x, persist = CRED_PERSIST_LOCAL_MACHINE\<rparr>"
  with lengths x have "length (target_name c) \<le> 32767" and "length (blob c) \<le> MAX_BLOB_BYTES"
    by (simp_all add: windows_holds_def)
  from law_write [OF laws this] obtain w' where "cred_write api c w = (None, w')"
    and "entries w' = (entries w)(windows_key s a \<mapsto> x)" by (auto simp: c_def)
  moreover from x have "SecretOk x = None" by (simp add: windows_holds_def SecretOk_None)
  ultimately show ?thesis
    using lengths x target key user by (simp add: WindowsKeychainStore_def windows_holds_def c_def)
qed

lemma windows_load:
  assumes "wincred_laws api entries" and "NamesOk s a = None"
  shows "\<exists>w'. WindowsKeychainLoad api s a w = ((case entries w (windows_key s a) of None \<Rightarrow> (Done False, [])
      | Some x \<Rightarrow> (Done True, x)), w') \<and> entries w' = entries w"
  using law_Target [OF assms] law_read [OF assms(1), of "windows_key s a" w]
  by (cases "entries w (windows_key s a)") (auto simp: WindowsKeychainLoad_def)

lemma windows_remove:
  assumes "wincred_laws api entries" and "NamesOk s a = None"
  shows "\<exists>w'. WindowsKeychainRemove api s a w = (Done False, w') \<and> entries w' = (entries w)(windows_key s a := None)"
  using law_Target [OF assms] windows_law_delete [OF assms(1), of "windows_key s a" w]
  by (cases "entries w (windows_key s a)") (auto simp: WindowsKeychainRemove_def)

interpretation wincred: vault "WindowsKeychainStore api" "WindowsKeychainLoad api" "WindowsKeychainRemove api"
    "\<lambda>w. wincred_laws api entries" windows_names windows_holds windows_key entries
  for api :: "'w wincred" and entries :: "'w \<Rightarrow> wide \<rightharpoonup> string"
  by (unfold_locales; (rule windows_key_inject; assumption)?)
    (auto simp: windows_names_def intro!: windows_store windows_load windows_remove)


section \<open>Properties\<close>

text \<open>A session's credentials as a list: the instance the witnesses use.\<close>

definition sample_wincred :: "(wide \<times> string) list wincred" where
  "sample_wincred =
     \<lparr>multi_byte = (\<lambda>s. map_option utf16 (utf8_decode s)),
      session_types = (\<lambda>w. Some (\<lambda>t. if t = CRED_TYPE_GENERIC then 3 else 0)),
      cred_write = (\<lambda>c w. (None, (target_name c, blob c) # w)),
      cred_read = (\<lambda>t w. (case map_of w t of None \<Rightarrow> Inl ERROR_NOT_FOUND | Some b \<Rightarrow> Inr b, w)),
      cred_delete = (\<lambda>t w. (if map_of w t = None then Some ERROR_NOT_FOUND else None, filter (\<lambda>e. fst e \<noteq> t) w))\<rparr>"

lemma sample_wincred_laws: "wincred_laws sample_wincred map_of"
  by (simp add: wincred_laws_def sample_wincred_def map_of_filter_other)


definition sample_calls :: "keychain_call list" where
  "sample_calls = [StoreCall ''tresor'' ''alice'' ''first'', StoreCall ''tresor'' ''bob'' ''other'',
     StoreCall ''tresor'' ''alice'' ''second'', LoadCall ''tresor'' ''alice'', RemoveCall ''tresor'' ''bob'',
     LoadCall ''tresor'' ''bob'']"


lemma Target_refused:
  "Target api s a = Inl why \<Longrightarrow> why = names_not_text \<or> why = service_has_slash \<or> why = target_not_text"
  using NamesOk_cases [of s a] by (auto simp: Target_def split: option.splits)

text \<open>Whatever the Credential Manager answers, an error of \<open>KeychainStore\<close> is one of the module's own
  texts or a status code: it never holds the secret, and no error means stored.\<close>

theorem WindowsKeychainStore_error:
  "fst (WindowsKeychainStore api service account secret w)
   \<in> {Done False} \<union> Failed ` ({names_not_text, service_has_slash, target_not_text, secret_has_nul,
       blob_too_long, account_too_long} \<union> range (LastError ''storing''))"
proof (cases "Target api service account")
  case (Inl why)
  with Target_refused [OF this] show ?thesis by (auto simp: WindowsKeychainStore_def)
next
  case (Inr target)
  then show ?thesis
    using SecretOk_cases [of secret]
    by (auto simp: WindowsKeychainStore_def Let_def split: option.split prod.split)
qed

lemma ValidUtf8_append:
  assumes "ValidUtf8 s" and "ValidUtf8 t"
  shows "ValidUtf8 (s @ t)" and "code_points (s @ t) = code_points s @ code_points t"
proof -
  note points = ValidUtf8_code_points [OF assms(1)] ValidUtf8_code_points [OF assms(2)]
  then have eq: "s @ t = utf8 (code_points s @ code_points t)" by simp
  with points(1,4) have "utf8_decode (s @ t) = Some (code_points s @ code_points t)"
    by (simp only: eq utf8_decode_utf8 list_all_append simp_thms)
  then show "ValidUtf8 (s @ t)" and "code_points (s @ t) = code_points s @ code_points t"
    by (simp_all add: ValidUtf8_decode code_points_def)
qed

lemma nul_key:
  assumes "windows_names s a" and "ValidUtf8 b"
  shows "NamesOk s (a @ CHR 0x00 # b) = None \<and> windows_key s (a @ CHR 0x00 # b) = windows_key s a"
proof -
  from assms(1) have ok: "NamesOk s a = None" by (simp add: windows_names_def)
  then have valid: "ValidUtf8 s" "ValidUtf8 a" by (simp_all add: NamesOk_None)
  have nul: "ValidUtf8 [CHR 0x00]" "code_points [CHR 0x00] = [0]" by code_simp+
  have slash: "ValidUtf8 ''/''" "code_points ''/'' = [47]" by code_simp+
  note tail = ValidUtf8_append [OF nul(1) assms(2)]
  note account = ValidUtf8_append [OF valid(2) tail(1)]
  note rest = ValidUtf8_append [OF slash(1) account(1)] ValidUtf8_append [OF slash(1) valid(2)]
  have "utf16 (code_points (s @ ''/'' @ a @ [CHR 0x00] @ b))
      = utf16 (code_points (s @ ''/'' @ a)) @ 0 # utf16 (code_points b)"
    using ValidUtf8_append(2) [OF valid(1) rest(1)] ValidUtf8_append(2) [OF valid(1) rest(3)] rest(2,4) account(2) tail(2)
    by (simp add: nul(2) utf16_def utf16_char_def)
  moreover have "wide_c_string (u @ 0 # v) = wide_c_string u" for u v
    by (induction u) (simp_all add: wide_c_string_def)
  ultimately have "windows_key s (a @ CHR 0x00 # b) = windows_key s a" by (simp add: windows_key_def)
  with ok account(1) show ?thesis by (simp add: NamesOk_None)
qed

text \<open>a NUL in an account name that \<open>NamesOk\<close> accepts ends the target name on Windows: the secret stored
  under such a name is what a load under the name's part before the NUL gives. The names are distinct; the
  entry is one.\<close>

theorem WindowsKeychain_nul_collides:
  assumes "wincred_laws api entries" and "windows_names s a" and "ValidUtf8 b" and "windows_holds x"
    and "length (utf16 (code_points (a @ CHR 0x00 # b))) \<le> CRED_MAX_USERNAME_LENGTH"
  shows "NamesOk s (a @ CHR 0x00 # b) = None \<and>
    fst (WindowsKeychainLoad api s a (snd (WindowsKeychainStore api s (a @ CHR 0x00 # b) x w))) = (Done True, x)"
proof -
  note key = nul_key [OF assms(2,3)]
  from assms(2) have "length (windows_key s a) \<le> 32767" and ok: "NamesOk s a = None"
    by (simp_all add: windows_names_def)
  with key have "length (windows_key s (a @ CHR 0x00 # b)) \<le> 32767" by simp
  from windows_store [OF assms(1) conjunct1 [OF key] assms(4) this assms(5), of w] obtain w' where
      "WindowsKeychainStore api s (a @ CHR 0x00 # b) x w = (Done False, w')"
    and "entries w' = (entries w)(windows_key s a \<mapsto> x)" using key by auto
  with windows_load [OF assms(1) ok, of w'] key show ?thesis by auto
qed

theorem WindowsKeychain_nul_collides_witness:
  "fst (WindowsKeychainLoad sample_wincred ''tresor'' ''alice''
      (snd (WindowsKeychainStore sample_wincred ''tresor'' (''alice'' @ CHR 0x00 # ''x'') ''secret'' []))) = (Done True, ''secret'')"
proof -
  have "windows_names ''tresor'' ''alice''" and "ValidUtf8 ''x''" and "windows_holds ''secret''"
    and "length (utf16 (code_points (''alice'' @ CHR 0x00 # ''x''))) \<le> CRED_MAX_USERNAME_LENGTH" by code_simp+
  from WindowsKeychain_nul_collides [OF sample_wincred_laws this, of "[]"] show ?thesis by simp
qed

end
