(* ===== verification/KeychainLinux.thy ===== *)
theory KeychainLinux
  imports Keychain
begin

text \<open>
  The Linux section of \<open>keychain/src/keychain.cpp\<close>: the Secret Service through libsecret, loaded at run time.
  The process keeps two things between calls: the library, loaded once, and the outcome of one probe.
\<close>


section \<open>What the section calls\<close>

text \<open>
  Parameters of the model, over the system's state \<open>'w\<close>: the loader, the environment, and libsecret's three
  calls with the schema's two attributes. Strings cross as C strings. A call that reports fills the \<open>GError\<close>
  (\<open>message\<close> may be null). The watchdog that cancels a call after \<open>CALL_TIMEOUT_SECONDS\<close> shows in the
  model as what it makes of the call: an error.
\<close>

record gerror =
  message :: "string option"

record 'w linux =
  dlopen :: "string \<Rightarrow> bool"
  dlsym :: "string \<Rightarrow> bool"
  getenv :: "string \<Rightarrow> 'w \<Rightarrow> string option"
  stat_ok :: "string \<Rightarrow> 'w \<Rightarrow> bool"
  secret_store :: "string \<Rightarrow> string \<Rightarrow> string \<Rightarrow> string \<Rightarrow> 'w \<Rightarrow> (bool \<times> gerror option) \<times> 'w"
  secret_lookup :: "string \<Rightarrow> string \<Rightarrow> 'w \<Rightarrow> (string option \<times> gerror option) \<times> 'w"
  secret_clear :: "string \<Rightarrow> string \<Rightarrow> 'w \<Rightarrow> gerror option \<times> 'w"


section \<open>The library\<close>

text \<open>\<open>Libsecret\<close>: its function pointers as the names that resolved.\<close>

record Libsecret =
  loaded :: bool
  library_why :: string
  resolved :: "string list"

definition Libsecret0 :: Libsecret where
  "Libsecret0 = \<lparr>loaded = False, library_why = [], resolved = []\<rparr>"

definition needed :: "string list" where
  "needed = [''secret_password_store_sync'', ''secret_password_lookup_sync'', ''secret_password_clear_sync'',
     ''secret_password_free'', ''g_error_free'', ''g_cancellable_new'', ''g_cancellable_cancel'', ''g_object_unref'']"

definition load_library :: "'w linux \<Rightarrow> Libsecret" where
  "load_library api =
     (if \<not> dlopen api ''libsecret-1.so.0''
      then Libsecret0\<lparr>library_why := ''libsecret-1.so.0 is not installed (the Secret Service client library)''\<rparr>
      else
        let library = Libsecret0\<lparr>resolved := filter (dlsym api) needed\<rparr>
        in if list_ex (\<lambda>f. f \<notin> set (resolved library)) needed
          then library\<lparr>library_why := ''libsecret-1.so.0 lacks the calls this module uses''\<rparr>
          else library\<lparr>loaded := True\<rparr>)"

text \<open>The process: the statics of \<open>Library\<close> and \<open>KeychainAvailable\<close>, and the system.\<close>

record 'w secret_process =
  library :: "Libsecret option"
  probed :: bool
  available :: bool
  reason :: string
  system :: 'w

definition new_process :: "'w \<Rightarrow> 'w secret_process" where
  "new_process w = \<lparr>library = None, probed = False, available = False, reason = [], system = w\<rparr>"

definition Library :: "'w linux \<Rightarrow> 'w secret_process \<Rightarrow> Libsecret \<times> 'w secret_process" where
  "Library api p = (case library p of
     Some l \<Rightarrow> (l, p)
   | None \<Rightarrow> let l = load_library api in (l, p\<lparr>library := Some l\<rparr>))"

text \<open>
  A call through a pointer: where the symbol did not resolve the pointer is null, and the call has no value
  (\<open>None\<close>). Every guarded call below goes with a \<open>Deadline\<close>, whose construction, watchdog and destruction
  call through three pointers of their own.
\<close>

definition through :: "Libsecret \<Rightarrow> string list \<Rightarrow> 'a \<Rightarrow> 'a option" where
  "through l names x = (if list_all (\<lambda>f. f \<in> set (resolved l)) names then Some x else None)"

definition deadline_calls :: "string list" where
  "deadline_calls = [''g_cancellable_new'', ''g_cancellable_cancel'', ''g_object_unref'']"

definition SessionBus :: "'w linux \<Rightarrow> 'w \<Rightarrow> string option" where
  "SessionBus api w =
     (case getenv api ''DBUS_SESSION_BUS_ADDRESS'' w of
        Some (c # address) \<Rightarrow> None
      | _ \<Rightarrow>
          if (case getenv api ''XDG_RUNTIME_DIR'' w of
                Some (c # runtime) \<Rightarrow> stat_ok api ((c # runtime) @ ''/bus'') w
              | _ \<Rightarrow> False)
          then None
          else Some ''no D-Bus session bus (DBUS_SESSION_BUS_ADDRESS) to reach a Secret Service on'')"

definition error_message :: "gerror \<Rightarrow> string" where
  "error_message e = (case message e of Some m \<Rightarrow> c_string m | None \<Rightarrow> [])"

definition GFailed :: "string \<Rightarrow> gerror option \<Rightarrow> KeychainResult" where
  "GFailed what e = (let t = ''the Secret Service: '' @ what @ '' failed''
     in case e of None \<Rightarrow> Failed t | Some e \<Rightarrow> Failed (t @ '' ('' @ error_message e @ '')''))"


section \<open>\<open>KeychainAvailable\<close>\<close>

text \<open>The lookup of a name nobody stores, and what it says of the Secret Service.\<close>

definition probe :: "'w linux \<Rightarrow> Libsecret \<Rightarrow> 'w secret_process \<Rightarrow> 'w secret_process option" where
  "probe api l p = (case secret_lookup api ''org.duckdb.ext-common.probe'' [] (system p) of ((found, err), w) \<Rightarrow>
     through l (deadline_calls @ ''secret_password_lookup_sync''
         # (if found \<noteq> None then [''secret_password_free''] else [])
         @ (if err \<noteq> None then [''g_error_free''] else []))
       (case err of
          Some e \<Rightarrow> p\<lparr>system := w, reason := ''no Secret Service answers ('' @ error_message e @ '')''\<rparr>
        | None \<Rightarrow> p\<lparr>system := w, available := True\<rparr>))"

definition probe_once :: "'w linux \<Rightarrow> 'w secret_process \<Rightarrow> 'w secret_process option" where
  "probe_once api p =
     (case Library api (p\<lparr>probed := True\<rparr>) of (l, p) \<Rightarrow>
        if \<not> loaded l then Some (p\<lparr>reason := library_why l\<rparr>)
        else (case SessionBus api (system p) of
            Some why \<Rightarrow> Some (p\<lparr>reason := why\<rparr>)
          | None \<Rightarrow> probe api l p))"

text \<open>\<open>None\<close> in the answer is \<open>true\<close> (and \<open>why\<close> emptied), \<open>Some why\<close> is \<open>false\<close>.\<close>

definition LinuxKeychainAvailable ::
    "'w linux \<Rightarrow> 'w secret_process \<Rightarrow> (string option \<times> 'w secret_process) option" where
  "LinuxKeychainAvailable api p =
     map_option (\<lambda>p. (if available p then None else Some (reason p), p))
       (if probed p then Some p else probe_once api p)"


section \<open>Store, load, remove\<close>

text \<open>What all three begin with: the checks in the code's order, then the availability.\<close>

definition checked :: "'w linux \<Rightarrow> string option list \<Rightarrow> 'w secret_process
    \<Rightarrow> (string \<Rightarrow> 'a) \<Rightarrow> (Libsecret \<Rightarrow> 'w secret_process \<Rightarrow> ('a \<times> 'w secret_process) option)
    \<Rightarrow> ('a \<times> 'w secret_process) option" where
  "checked api checks p refuse go =
     (case List.find (\<lambda>c. c \<noteq> None) checks of
        Some why \<Rightarrow> Some (refuse (the why), p)
      | None \<Rightarrow> (case LinuxKeychainAvailable api p of
            None \<Rightarrow> None
          | Some (Some why, p) \<Rightarrow> Some (refuse why, p)
          | Some (None, p) \<Rightarrow> (case Library api p of (l, p) \<Rightarrow> go l p)))"

definition LinuxKeychainStore :: "'w linux \<Rightarrow> string \<Rightarrow> string \<Rightarrow> string \<Rightarrow> 'w secret_process
    \<Rightarrow> (KeychainResult \<times> 'w secret_process) option" where
  "LinuxKeychainStore api service account secret p =
     checked api [NamesOk service account, SecretOk secret] p Failed (\<lambda>l p.
       case secret_store api (c_string service) (c_string account) (c_string (service @ '' '' @ account))
           (c_string secret) (system p) of
         ((stored, err), w) \<Rightarrow>
           through l (deadline_calls @ ''secret_password_store_sync'' # (if err \<noteq> None then [''g_error_free''] else []))
             (if stored \<and> err = None then Done False else GFailed ''storing'' err, p\<lparr>system := w\<rparr>))"

definition LinuxKeychainLoad :: "'w linux \<Rightarrow> string \<Rightarrow> string \<Rightarrow> 'w secret_process
    \<Rightarrow> ((KeychainResult \<times> string) \<times> 'w secret_process) option" where
  "LinuxKeychainLoad api service account p =
     checked api [NamesOk service account] p (\<lambda>why. (Failed why, [])) (\<lambda>l p.
       case secret_lookup api (c_string service) (c_string account) (system p) of
         ((found, err), w) \<Rightarrow>
           through l (deadline_calls @ ''secret_password_lookup_sync'' # (if err \<noteq> None then [''g_error_free'']
               else if found \<noteq> None then [''secret_password_free''] else []))
             ((case err of
                 Some _ \<Rightarrow> (GFailed ''reading'' err, [])
               | None \<Rightarrow> (case found of
                     None \<Rightarrow> (Done False, [])
                   | Some secret \<Rightarrow> (Done True, c_string secret))), p\<lparr>system := w\<rparr>))"

definition LinuxKeychainRemove :: "'w linux \<Rightarrow> string \<Rightarrow> string \<Rightarrow> 'w secret_process
    \<Rightarrow> (KeychainResult \<times> 'w secret_process) option" where
  "LinuxKeychainRemove api service account p =
     checked api [NamesOk service account] p Failed (\<lambda>l p.
       case secret_clear api (c_string service) (c_string account) (system p) of
         (err, w) \<Rightarrow>
           through l (deadline_calls @ ''secret_password_clear_sync'' # (if err \<noteq> None then [''g_error_free''] else []))
             (if err \<noteq> None then GFailed ''removing'' err else Done False, p\<lparr>system := w\<rparr>))"


section \<open>No call through a null pointer\<close>

text \<open>What every reachable process has: a library marked loaded resolved every name, and the store counts as
  available only behind a probe that went through such a library.\<close>

definition whole :: "Libsecret \<Rightarrow> bool" where
  "whole l \<longleftrightarrow> set needed \<subseteq> set (resolved l)"

definition process_ok :: "'w secret_process \<Rightarrow> bool" where
  "process_ok p \<longleftrightarrow>
     (library p = None \<longrightarrow> \<not> probed p)
     \<and> (\<forall>l. library p = Some l \<longrightarrow> loaded l \<longrightarrow> whole l)
     \<and> (available p \<longrightarrow> probed p \<and> (\<exists>l. library p = Some l \<and> loaded l))"

lemma load_library_whole: "loaded (load_library api) \<Longrightarrow> whole (load_library api)"
  by (auto simp: load_library_def whole_def Libsecret0_def Let_def list_ex_iff split: if_splits)

lemma through_whole: "whole l \<Longrightarrow> list_all (\<lambda>f. f \<in> set needed) names \<Longrightarrow> through l names x = Some x"
  by (auto simp: through_def whole_def list_all_iff)

lemma needed_names [simp]:
  "list_all (\<lambda>f. f \<in> set needed) deadline_calls" "''secret_password_store_sync'' \<in> set needed"
  "''secret_password_lookup_sync'' \<in> set needed" "''secret_password_clear_sync'' \<in> set needed"
  "''secret_password_free'' \<in> set needed" "''g_error_free'' \<in> set needed"
  by (simp_all add: needed_def deadline_calls_def)

lemma new_process_ok [simp]: "process_ok (new_process w)"
  by (simp add: process_ok_def new_process_def)

lemma system_ok [simp]: "process_ok (p\<lparr>system := w\<rparr>) \<longleftrightarrow> process_ok p"
  by (simp add: process_ok_def)

lemma same_system: "\<exists>w. p = p\<lparr>system := w\<rparr>"
  by (rule exI [of _ "system p"]) simp

lemma probe_ok:
  assumes "whole l" and "library p = Some l" and "loaded l" and "probed p"
  shows "\<exists>p'. probe api l p = Some p' \<and> process_ok p' \<and> probed p'"
  using assms by (cases p) (auto simp: probe_def through_whole process_ok_def split: prod.split option.split)

lemma probe_once_ok:
  assumes "process_ok p" and "\<not> probed p"
  shows "\<exists>p'. probe_once api p = Some p' \<and> process_ok p' \<and> probed p'"
proof (cases "library p")
  case None
  then have "Library api (p\<lparr>probed := True\<rparr>) = (load_library api, p\<lparr>probed := True, library := Some (load_library api)\<rparr>)"
    by (simp add: Library_def Let_def)
  with assms None show ?thesis
    using load_library_whole [of api]
    by (auto simp: probe_once_def split: option.split intro!: probe_ok) (auto simp: process_ok_def)
next
  case (Some l)
  then have "Library api (p\<lparr>probed := True\<rparr>) = (l, p\<lparr>probed := True\<rparr>)" by (simp add: Library_def)
  with assms Some show ?thesis
    by (auto simp: probe_once_def split: option.split intro!: probe_ok) (auto simp: process_ok_def)
qed

lemma Available_ok:
  assumes "process_ok p"
  shows "\<exists>why p'. LinuxKeychainAvailable api p = Some (why, p') \<and> process_ok p' \<and> probed p'
    \<and> (why = None \<longleftrightarrow> available p') \<and> (probed p \<longrightarrow> p' = p)"
  using assms probe_once_ok [OF assms, of api]
  by (cases "probed p") (auto simp: LinuxKeychainAvailable_def)

lemma checked_ok:
  assumes "process_ok p"
    and "\<And>l p. process_ok p \<Longrightarrow> probed p \<Longrightarrow> available p \<Longrightarrow> library p = Some l \<Longrightarrow> loaded l \<Longrightarrow> whole l \<Longrightarrow>
      \<exists>x w. go l p = Some (x, p\<lparr>system := w\<rparr>)"
  shows "\<exists>x p'. checked api checks p refuse go = Some (x, p') \<and> process_ok p'
    \<and> (probed p \<longrightarrow> (\<exists>w. p' = p\<lparr>system := w\<rparr>))"
proof (cases "List.find (\<lambda>c. c \<noteq> None) checks")
  case None
  from Available_ok [OF assms(1)] obtain why p1 where av: "LinuxKeychainAvailable api p = Some (why, p1)"
    and p1: "process_ok p1" "probed p1" "why = None \<longleftrightarrow> available p1" "probed p \<longrightarrow> p1 = p" by blast
  show ?thesis
  proof (cases why)
    case (Some e)
    with None av p1 same_system [of p] show ?thesis by (auto simp: checked_def)
  next
    case why: None
    with p1 obtain l where l: "library p1 = Some l" "loaded l" "whole l"
      by (auto simp: process_ok_def split: option.splits)
    with assms(2) [OF p1(1,2) _ l] p1 why obtain x w where "go l p1 = Some (x, p1\<lparr>system := w\<rparr>)" by auto
    with None av why l p1 show ?thesis by (auto simp: checked_def Library_def)
  qed
next
  case (Some e)
  with assms(1) same_system [of p] show ?thesis by (auto simp: checked_def)
qed


section \<open>The process over time\<close>

text \<open>A call of the module, or the rest of the system moving on.\<close>

inductive linux_step :: "'w linux \<Rightarrow> 'w secret_process \<Rightarrow> 'w secret_process \<Rightarrow> bool" for api where
  step_available: "LinuxKeychainAvailable api p = Some (why, p') \<Longrightarrow> linux_step api p p'"
| step_store: "LinuxKeychainStore api service account secret p = Some (r, p') \<Longrightarrow> linux_step api p p'"
| step_load: "LinuxKeychainLoad api service account p = Some (r, p') \<Longrightarrow> linux_step api p p'"
| step_remove: "LinuxKeychainRemove api service account p = Some (r, p') \<Longrightarrow> linux_step api p p'"
| step_system: "linux_step api p (p\<lparr>system := w\<rparr>)"

inductive linux_reachable :: "'w linux \<Rightarrow> 'w secret_process \<Rightarrow> bool" for api where
  reach_new: "linux_reachable api (new_process w)"
| reach_step: "linux_reachable api p \<Longrightarrow> linux_step api p p' \<Longrightarrow> linux_reachable api p'"

text \<open>What each operation leaves: a sound process, and where the probe has been, only the system changed.\<close>

definition leaves :: "'w secret_process \<Rightarrow> ('a \<times> 'w secret_process) option \<Rightarrow> bool" where
  "leaves p r \<longleftrightarrow> (\<exists>x p'. r = Some (x, p') \<and> process_ok p' \<and> (probed p \<longrightarrow> (\<exists>w. p' = p\<lparr>system := w\<rparr>)))"

lemma leaves_some: "leaves p r \<Longrightarrow> r \<noteq> None"
  by (auto simp: leaves_def)

lemma operations_leave:
  assumes "process_ok p"
  shows "leaves p (LinuxKeychainAvailable api p)"
    and "leaves p (LinuxKeychainStore api service account secret p)"
    and "leaves p (LinuxKeychainLoad api service account p)"
    and "leaves p (LinuxKeychainRemove api service account p)"
proof -
  show "leaves p (LinuxKeychainAvailable api p)"
    using Available_ok [OF assms, of api] same_system [of p] by (auto simp: leaves_def)
  show "leaves p (LinuxKeychainStore api service account secret p)"
    unfolding leaves_def LinuxKeychainStore_def
    by (rule checked_ok [OF assms]) (auto simp: through_whole split: prod.split)
  show "leaves p (LinuxKeychainLoad api service account p)"
    unfolding leaves_def LinuxKeychainLoad_def
    by (rule checked_ok [OF assms]) (auto simp: through_whole split: prod.split)
  show "leaves p (LinuxKeychainRemove api service account p)"
    unfolding leaves_def LinuxKeychainRemove_def
    by (rule checked_ok [OF assms]) (auto simp: through_whole split: prod.split)
qed

lemma linux_step_leaves:
  assumes "linux_step api p p'" and "process_ok p"
  shows "process_ok p' \<and> (probed p \<longrightarrow> (\<exists>w. p' = p\<lparr>system := w\<rparr>))"
  using assms(1)
proof cases
  case step_available
  with operations_leave(1) [OF assms(2), of api] show ?thesis by (auto simp: leaves_def)
next
  case (step_store service account secret r)
  with operations_leave(2) [OF assms(2), of api service account secret] show ?thesis by (auto simp: leaves_def)
next
  case (step_load service account r)
  with operations_leave(3) [OF assms(2), of api service account] show ?thesis by (auto simp: leaves_def)
next
  case (step_remove service account r)
  with operations_leave(4) [OF assms(2), of api service account] show ?thesis by (auto simp: leaves_def)
next
  case (step_system w)
  with assms(2) show ?thesis by auto
qed

lemma linux_reachable_ok: "linux_reachable api p \<Longrightarrow> process_ok p"
  by (induction rule: linux_reachable.induct) (auto dest: linux_step_leaves)

lemma linux_probed_stays:
  assumes "(linux_step api)\<^sup>*\<^sup>* p p'" and "process_ok p" and "probed p"
  shows "\<exists>w. p' = p\<lparr>system := w\<rparr>"
  using assms(1)
proof induction
  case base
  show ?case by (rule same_system)
next
  case (step q r)
  then obtain w where q: "q = p\<lparr>system := w\<rparr>" by blast
  with assms(2,3) have "process_ok q" and "probed q" by simp_all
  with linux_step_leaves [OF step.hyps(2)] obtain w' where "r = q\<lparr>system := w'\<rparr>" by blast
  with q have "r = p\<lparr>system := w'\<rparr>" by simp
  then show ?case by (rule exI)
qed


section \<open>A Secret Service that answers, and the contract\<close>

text \<open>
  What libsecret documents of its calls on a service that answers: a store replaces the password under the two
  attributes, a lookup gives it or nothing, a clear removes it, none with an error.
\<close>

definition secret_laws :: "'w linux \<Rightarrow> ('w \<Rightarrow> string \<times> string \<rightharpoonup> string) \<Rightarrow> bool" where
  "secret_laws api entries \<longleftrightarrow>
     (\<forall>s a label x w. CHR 0x00 \<notin> set x \<longrightarrow> fst (secret_store api s a label x w) = (True, None)
        \<and> entries (snd (secret_store api s a label x w)) = (entries w)((s, a) \<mapsto> x))
     \<and> (\<forall>s a w. fst (secret_lookup api s a w) = (entries w (s, a), None)
        \<and> entries (snd (secret_lookup api s a w)) = entries w)
     \<and> (\<forall>s a w. fst (secret_clear api s a w) = None
        \<and> entries (snd (secret_clear api s a w)) = (entries w)((s, a) := None))
     \<and> (\<forall>k w x. entries w k = Some x \<longrightarrow> CHR 0x00 \<notin> set x)"

definition linux_healthy :: "'w linux \<Rightarrow> ('w \<Rightarrow> string \<times> string \<rightharpoonup> string) \<Rightarrow> 'w secret_process \<Rightarrow> bool" where
  "linux_healthy api entries p \<longleftrightarrow> secret_laws api entries \<and> process_ok p
     \<and> (if probed p then available p
        else library p = None \<and> loaded (load_library api) \<and> SessionBus api (system p) = None)"

definition linux_names :: "string \<Rightarrow> string \<Rightarrow> bool" where
  "linux_names s a \<longleftrightarrow> NamesOk s a = None \<and> CHR 0x00 \<notin> set s \<and> CHR 0x00 \<notin> set a"

definition linux_holds :: "string \<Rightarrow> bool" where
  "linux_holds x \<longleftrightarrow> CHR 0x00 \<notin> set x"

lemma law_secret_store: "secret_laws api entries \<Longrightarrow> CHR 0x00 \<notin> set x \<Longrightarrow>
    \<exists>w'. secret_store api s a label x w = ((True, None), w') \<and> entries w' = (entries w)((s, a) \<mapsto> x)"
  by (intro answer_and_state) (simp_all add: secret_laws_def)

lemma law_secret_lookup: "secret_laws api entries \<Longrightarrow>
    \<exists>w'. secret_lookup api s a w = ((entries w (s, a), None), w') \<and> entries w' = entries w"
  by (intro answer_and_state) (simp_all add: secret_laws_def)

lemma law_secret_clear: "secret_laws api entries \<Longrightarrow>
    \<exists>w'. secret_clear api s a w = (None, w') \<and> entries w' = (entries w)((s, a) := None)"
  by (intro answer_and_state) (simp_all add: secret_laws_def)

lemma healthy_Available:
  assumes "linux_healthy api entries p"
  shows "\<exists>p' l. LinuxKeychainAvailable api p = Some (None, p') \<and> process_ok p' \<and> probed p' \<and> available p'
    \<and> library p' = Some l \<and> whole l \<and> entries (system p') = entries (system p)"
proof (cases "probed p")
  case True
  with assms show ?thesis
    by (auto simp: linux_healthy_def LinuxKeychainAvailable_def process_ok_def)
next
  case False
  define l where "l = load_library api"
  from False assms have p: "library p = None" "loaded l" "SessionBus api (system p) = None" "secret_laws api entries"
    by (simp_all add: linux_healthy_def l_def)
  from p(2) have l: "whole l" unfolding l_def by (rule load_library_whole)
  from law_secret_lookup [OF p(4)] obtain w' where
      "secret_lookup api ''org.duckdb.ext-common.probe'' [] (system p)
        = ((entries (system p) (''org.duckdb.ext-common.probe'', []), None), w')"
    and "entries w' = entries (system p)" by blast
  with False p l show ?thesis
    by (simp add: LinuxKeychainAvailable_def probe_once_def Library_def Let_def l_def [symmetric] probe_def through_whole
        process_ok_def)
qed

lemma healthy_checked:
  assumes "linux_healthy api entries p" and "list_all (\<lambda>c. c = None) checks"
    and "\<And>l q. whole l \<Longrightarrow> entries (system q) = entries (system p) \<Longrightarrow>
      \<exists>w. go l q = Some (x, q\<lparr>system := w\<rparr>) \<and> entries w = m"
  shows "\<exists>p'. the (checked api checks p refuse go) = (x, p') \<and> linux_healthy api entries p' \<and> entries (system p') = m"
proof -
  from healthy_Available [OF assms(1)] obtain q l where
      av: "LinuxKeychainAvailable api p = Some (None, q)" and q: "process_ok q" "probed q" "available q"
    and l: "library q = Some l" "whole l" and same: "entries (system q) = entries (system p)" by blast
  from assms(3) [OF l(2) same] obtain w where go: "go l q = Some (x, q\<lparr>system := w\<rparr>)" "entries w = m" by blast
  from assms(2) have "List.find (\<lambda>c. c \<noteq> None) checks = None"
    by (auto simp: find_None_iff list_all_iff)
  with av l go have "checked api checks p refuse go = Some (x, q\<lparr>system := w\<rparr>)"
    by (simp add: checked_def Library_def)
  with q go assms(1) show ?thesis by (simp add: linux_healthy_def)
qed

interpretation libsecret: vault "\<lambda>s a x p. the (LinuxKeychainStore api s a x p)"
    "\<lambda>s a p. the (LinuxKeychainLoad api s a p)" "\<lambda>s a p. the (LinuxKeychainRemove api s a p)"
    "linux_healthy api entries" linux_names linux_holds "\<lambda>s a. (s, a)" "\<lambda>p. entries (system p)"
  for api :: "'w linux" and entries :: "'w \<Rightarrow> string \<times> string \<rightharpoonup> string"
proof unfold_locales
  fix p s a x
  assume p: "linux_healthy api entries p" and names: "linux_names s a" and x: "linux_holds x"
  then have laws: "secret_laws api entries" by (simp add: linux_healthy_def)
  show "\<exists>p'. the (LinuxKeychainStore api s a x p) = (Done False, p') \<and> linux_healthy api entries p'
      \<and> entries (system p') = (entries (system p))((s, a) \<mapsto> x)"
    unfolding LinuxKeychainStore_def
  proof (rule healthy_checked [OF p], goal_cases)
    case (2 l q)
    obtain w' where "secret_store api s a (c_string (s @ '' '' @ a)) x (system q) = ((True, None), w')"
      and "entries w' = (entries (system q))((s, a) \<mapsto> x)" using law_secret_store [OF laws x [unfolded linux_holds_def]] by blast
    with 2 show ?case
      using names x by (auto simp: linux_names_def linux_holds_def c_string_id through_whole)
  qed (use names x in \<open>simp add: linux_names_def linux_holds_def SecretOk_None\<close>)
next
  fix p s a
  assume p: "linux_healthy api entries p" and names: "linux_names s a"
  then have laws: "secret_laws api entries" by (simp add: linux_healthy_def)
  show "\<exists>p'. the (LinuxKeychainLoad api s a p)
      = ((case entries (system p) (s, a) of None \<Rightarrow> (Done False, []) | Some x \<Rightarrow> (Done True, x)), p')
      \<and> linux_healthy api entries p' \<and> entries (system p') = entries (system p)"
    unfolding LinuxKeychainLoad_def
  proof (rule healthy_checked [OF p], goal_cases)
    case (2 l q)
    obtain w' where "secret_lookup api s a (system q) = ((entries (system q) (s, a), None), w')"
      and "entries w' = entries (system q)" using law_secret_lookup [OF laws] by blast
    moreover have "CHR 0x00 \<notin> set x" if "entries (system p) (s, a) = Some x" for x
      using laws that by (auto simp: secret_laws_def)
    ultimately show ?case
      using names 2 by (cases "entries (system p) (s, a)") (auto simp: linux_names_def c_string_id through_whole)
  qed (use names in \<open>simp add: linux_names_def\<close>)
next
  fix p s a
  assume p: "linux_healthy api entries p" and names: "linux_names s a"
  then have laws: "secret_laws api entries" by (simp add: linux_healthy_def)
  show "\<exists>p'. the (LinuxKeychainRemove api s a p) = (Done False, p') \<and> linux_healthy api entries p'
      \<and> entries (system p') = (entries (system p))((s, a) := None)"
    unfolding LinuxKeychainRemove_def
  proof (rule healthy_checked [OF p], goal_cases)
    case (2 l q)
    obtain w' where "secret_clear api s a (system q) = (None, w')"
      and "entries w' = (entries (system q))((s, a) := None)" using law_secret_clear [OF laws] by blast
    with names 2 show ?case by (auto simp: linux_names_def c_string_id through_whole)
  qed (use names in \<open>simp add: linux_names_def\<close>)
qed auto


section \<open>Properties\<close>

definition sample_linux :: "((string \<times> string) \<times> string) list linux" where
  "sample_linux =
     \<lparr>dlopen = (\<lambda>n. n = ''libsecret-1.so.0''), dlsym = (\<lambda>n. n \<in> set needed),
      getenv = (\<lambda>n w. if n = ''XDG_RUNTIME_DIR'' then Some ''/run/user/1000'' else None),
      stat_ok = (\<lambda>f w. f = ''/run/user/1000/bus''),
      secret_store = (\<lambda>s a label x w. ((True, None), ((s, a), x) # w)),
      secret_lookup = (\<lambda>s a w. ((map_option c_string (map_of w (s, a)), None), w)),
      secret_clear = (\<lambda>s a w. (None, filter (\<lambda>e. fst e \<noteq> (s, a)) w))\<rparr>"

text \<open>A service that answers nothing but errors.\<close>

definition deaf_linux :: "((string \<times> string) \<times> string) list linux" where
  "deaf_linux = sample_linux\<lparr>secret_lookup := (\<lambda>s a w. ((None, Some \<lparr>message = Some ''no reply''\<rparr>), w))\<rparr>"

text \<open>C18: on Linux, in every process the module's calls can bring about, no operation goes through a pointer
  that \<open>dlsym\<close> left null: each returns.\<close>

theorem LinuxKeychain_no_null_call:
  assumes "linux_reachable api p"
  shows "LinuxKeychainAvailable api p \<noteq> None \<and> LinuxKeychainStore api service account secret p \<noteq> None
    \<and> LinuxKeychainLoad api service account p \<noteq> None \<and> LinuxKeychainRemove api service account p \<noteq> None"
proof -
  note leave = operations_leave [OF linux_reachable_ok [OF assms], of api]
  show ?thesis by (intro conjI leave [THEN leaves_some])
qed

theorem LinuxKeychain_no_null_call_witness:
  "LinuxKeychainLoad (sample_linux\<lparr>dlsym := (\<lambda>n. n = ''g_object_unref'')\<rparr>) ''tresor'' ''alice'' (new_process []) \<noteq> None"
  using LinuxKeychain_no_null_call [OF linux_reachable.reach_new,
      of "sample_linux\<lparr>dlsym := (\<lambda>n. n = ''g_object_unref'')\<rparr>" "[]" "''tresor''" "''alice''"] by simp

text \<open>on Linux the store is probed once per process: after the first probe, whatever the module is asked and
  whatever becomes of the system, \<open>KeychainAvailable\<close> gives the same answer with the same reason, and asks
  nothing of the system.\<close>

theorem LinuxKeychain_probed_once:
  assumes "linux_reachable api p" and "probed p" and "(linux_step api)\<^sup>*\<^sup>* p p'"
  shows "LinuxKeychainAvailable api p' = Some (if available p then None else Some (reason p), p')"
proof -
  from linux_probed_stays [OF assms(3) linux_reachable_ok [OF assms(1)] assms(2)] obtain w where
    "p' = p\<lparr>system := w\<rparr>" by blast
  with assms(2) show ?thesis by (simp add: LinuxKeychainAvailable_def)
qed

theorem LinuxKeychain_probed_once_witness:
  "\<exists>p. linux_reachable deaf_linux p \<and> fst (the (LinuxKeychainAvailable deaf_linux (p\<lparr>system := [((''s'', ''a''), ''x'')]\<rparr>)))
    = Some ''no Secret Service answers (no reply)''"
proof -
  define p where "p = snd (the (LinuxKeychainAvailable deaf_linux (new_process [])))"
  have first: "LinuxKeychainAvailable deaf_linux (new_process []) = Some (Some ''no Secret Service answers (no reply)'', p)"
    and p: "probed p" "\<not> available p" "reason p = ''no Secret Service answers (no reply)''"
    unfolding p_def by code_simp+
  have reach: "linux_reachable deaf_linux p"
    using linux_reachable.reach_new linux_step.step_available [OF first] by (rule linux_reachable.reach_step)
  have "(linux_step deaf_linux)\<^sup>*\<^sup>* p (p\<lparr>system := [((''s'', ''a''), ''x'')]\<rparr>)"
    by (rule r_into_rtranclp) (rule linux_step.step_system)
  from LinuxKeychain_probed_once [OF reach p(1) this] p reach show ?thesis by auto
qed


lemma sample_linux_healthy:
  "linux_healthy sample_linux (\<lambda>w k. map_option c_string (map_of w k)) (new_process [])"
proof -
  have "CHR 0x00 \<notin> set (c_string x)" for x by (auto simp: c_string_def dest: set_takeWhileD)
  moreover have "loaded (load_library sample_linux)" and "SessionBus sample_linux [] = None" by code_simp+
  ultimately show ?thesis
    by (auto simp: linux_healthy_def secret_laws_def new_process_def process_ok_def sample_linux_def c_string_id map_of_filter_other fun_eq_iff)
qed


end
