(* ===== verification/Deadline.thy ===== *)
theory Deadline
  imports Main
begin

text \<open>
  The watchdog of a Secret Service call (\<open>Deadline\<close> of \<open>keychain/src/keychain.cpp\<close>): an object made around each
  call, whose thread cancels the call after a time limit unless the destructor came first. The object's lock is held
  from the wake-up of \<open>wait_for\<close> to the thread's end, so evaluating the predicate and cancelling are one step. Time
  is not counted: the limit may pass whenever the thread is asleep.
\<close>

datatype watchdog = Evaluating | Sleeping | Over

datatype caller =
    InCall        \<comment> \<open>between the constructor and the destructor\<close>
  | Marked        \<comment> \<open>\<open>finished\<close> set, \<open>notify_all\<close> still to come\<close>
  | Joins         \<comment> \<open>in \<open>watchdog.join()\<close>\<close>
  | Released      \<comment> \<open>after \<open>g_object_unref\<close>\<close>

record deadline =
  finished :: bool
  watchdog :: watchdog
  caller :: caller
  cancels :: nat
  references :: nat

definition Deadline0 :: deadline where
  "Deadline0 = \<lparr>finished = False, watchdog = Evaluating, caller = InCall, cancels = 0, references = 1\<rparr>"

text \<open>The predicate of the wait, before sleeping and after a wake-up.\<close>

definition evaluate :: "deadline \<Rightarrow> deadline" where
  "evaluate d = d\<lparr>watchdog := (if finished d then Over else Sleeping)\<rparr>"

text \<open>The limit passed: the predicate decides once more.\<close>

definition expire :: "deadline \<Rightarrow> deadline" where
  "expire d = (if finished d then d\<lparr>watchdog := Over\<rparr> else d\<lparr>watchdog := Over, cancels := cancels d + 1\<rparr>)"

inductive deadline_step :: "deadline \<Rightarrow> deadline \<Rightarrow> bool" where
  evaluates: "watchdog d = Evaluating \<Longrightarrow> deadline_step d (evaluate d)"
| wakes: "watchdog d = Sleeping \<Longrightarrow> deadline_step d (d\<lparr>watchdog := Evaluating\<rparr>)"
| expires: "watchdog d = Sleeping \<Longrightarrow> deadline_step d (expire d)"
| marks: "caller d = InCall \<Longrightarrow> deadline_step d (d\<lparr>finished := True, caller := Marked\<rparr>)"
| notifies: "caller d = Marked \<Longrightarrow> deadline_step d
    (d\<lparr>caller := Joins, watchdog := (if watchdog d = Sleeping then Evaluating else watchdog d)\<rparr>)"
| releases: "caller d = Joins \<Longrightarrow> watchdog d = Over \<Longrightarrow>
    deadline_step d (d\<lparr>caller := Released, references := references d - 1\<rparr>)"

inductive deadline_reachable :: "deadline \<Rightarrow> bool" where
  start: "deadline_reachable Deadline0"
| step: "deadline_reachable d \<Longrightarrow> deadline_step d d' \<Longrightarrow> deadline_reachable d'"

inductive_cases deadline_stepE: "deadline_step d d'"

text \<open>The object is marked once the destructor runs; asleep after the mark, the thread is still to be notified; it was
  cancelled at most once, and only by a thread that is over; it is released once, after the thread.\<close>

definition deadline_inv :: "deadline \<Rightarrow> bool" where
  "deadline_inv d \<longleftrightarrow> (finished d \<longleftrightarrow> caller d \<noteq> InCall)
     \<and> (finished d \<and> watchdog d = Sleeping \<longrightarrow> caller d = Marked)
     \<and> cancels d \<le> (if watchdog d = Over then 1 else 0)
     \<and> (caller d = Released \<longrightarrow> watchdog d = Over)
     \<and> references d = (if caller d = Released then 0 else 1)"

lemma deadline_step_inv: "deadline_step d d' \<Longrightarrow> deadline_inv d \<Longrightarrow> deadline_inv d'"
  by (erule deadline_stepE) (auto simp: deadline_inv_def evaluate_def expire_def split: if_splits)

lemma Deadline0_inv: "deadline_inv Deadline0"
  by (simp add: deadline_inv_def Deadline0_def)

lemma deadline_reachable_inv: "deadline_reachable d \<Longrightarrow> deadline_inv d"
  by (induction rule: deadline_reachable.induct) (rule Deadline0_inv, rule deadline_step_inv)

lemma deadline_counts:
  assumes "deadline_inv d"
  shows "cancels d \<le> 1" and "references d = 0 \<longleftrightarrow> caller d = Released"
proof -
  from assms have "cancels d \<le> (if watchdog d = Over then 1 else 0)"
    and "references d = (if caller d = Released then 0 else 1)"
    unfolding deadline_inv_def by blast+
  then show "cancels d \<le> 1" and "references d = 0 \<longleftrightarrow> caller d = Released"
    by (simp_all split: if_splits)
qed

lemma released_end:
  assumes "deadline_inv d" and "caller d = Released"
  shows "\<not> deadline_step d d'"
proof
  assume "deadline_step d d'"
  then show False using assms by cases (simp_all add: deadline_inv_def)
qed


section \<open>The destructor ends\<close>

fun caller_place :: "caller \<Rightarrow> nat" where
  "caller_place InCall = 3"
| "caller_place Marked = 2"
| "caller_place Joins = 1"
| "caller_place Released = 0"

fun watchdog_place :: "watchdog \<Rightarrow> nat" where
  "watchdog_place Sleeping = 2"
| "watchdog_place Evaluating = 1"
| "watchdog_place Over = 0"

text \<open>Once the destructor has marked the object, every step brings the pair of threads closer to the end.\<close>

lemma closing_wf: "wf {(d', d). finished d \<and> deadline_step d d'}"
proof (rule wf_subset)
  show "wf (measures [\<lambda>d. caller_place (caller d), \<lambda>d. watchdog_place (watchdog d)])" by simp
  show "{(d', d). finished d \<and> deadline_step d d'}
      \<subseteq> measures [\<lambda>d. caller_place (caller d), \<lambda>d. watchdog_place (watchdog d)]"
    by (auto simp: evaluate_def expire_def elim!: deadline_stepE)
qed

lemma closing_possible:
  assumes "deadline_inv d" and "finished d" and "caller d \<noteq> Released"
  shows "\<exists>d'. deadline_step d d'"
proof (cases "caller d")
  case InCall
  with assms show ?thesis by (simp add: deadline_inv_def)
next
  case Marked
  then show ?thesis by (blast intro: notifies)
next
  case Joins
  with assms have "watchdog d = Over \<or> watchdog d = Evaluating"
    by (cases "watchdog d") (auto simp: deadline_inv_def)
  with Joins show ?thesis by (blast intro: releases evaluates)
qed (use assms(3) in simp)


section \<open>Properties\<close>



end
