(* ===== verification/Hooks.thy ===== *)
theory Hooks
  imports Prelude
begin

text \<open>
  The base of the event contracts (\<open>hooks/ext_hooks.hpp\<close>, without \<open>Delivery\<close>, which has its own theory):
  metric rows and their keys, counters, gauges, the registry's stamp and its list of sinks. Every operation
  runs under its object's lock, so it is one step on the object's value.

  The operations of \<open>Counters\<close> are stated once over the key of an entry: \<open>contracts/acl_audit.hpp\<close> has the
  same class over another key.
\<close>

type_synonym attributes = "(string \<times> string) list"

record Metric =
  metric_name :: string
  metric_kind :: string
  metric_attributes :: attributes
  metric_value :: int
  metric_unit :: string
  metric_description :: string

definition counted :: "string \<Rightarrow> string" where
  "counted s = to_string (int (length s)) @ '':'' @ s"

fun AttributesKey :: "attributes \<Rightarrow> string" where
  "AttributesKey [] = []"
| "AttributesKey ((name, v) # attributes) = counted name @ counted v @ AttributesKey attributes"


section \<open>Counters\<close>

text \<open>\<open>counts\<close> is the member \<open>values\<close>, \<open>named\<close> the member \<open>keys\<close>. Values are the sums \<open>Add\<close> made;
  the code keeps them in an \<open>int64_t\<close>, the overflow of which is undefined.\<close>

record Counters =
  counts :: "(string \<times> int) list"
  named :: "(string \<times> string \<times> attributes) list"

definition Counters0 :: Counters where
  "Counters0 = \<lparr>counts = [], named = []\<rparr>"

definition counter_add :: "string \<Rightarrow> string \<Rightarrow> attributes \<Rightarrow> int \<Rightarrow> Counters \<Rightarrow> Counters" where
  "counter_add key name attributes delta c = (case map_of (counts c) key of
     None \<Rightarrow> c\<lparr>counts := map_put key delta (counts c), named := map_put key (name, attributes) (named c)\<rparr>
   | Some v \<Rightarrow> c\<lparr>counts := map_put key (v + delta) (counts c)\<rparr>)"

definition counter_get :: "string \<Rightarrow> Counters \<Rightarrow> int" where
  "counter_get key c = (case map_of (counts c) key of None \<Rightarrow> 0 | Some v \<Rightarrow> v)"

definition counter_row :: "string \<Rightarrow> attributes \<Rightarrow> int \<Rightarrow> Metric" where
  "counter_row name attributes v = \<lparr>metric_name = name, metric_kind = ''counter'',
     metric_attributes = attributes, metric_value = v, metric_unit = ''1'', metric_description = []\<rparr>"

text \<open>\<open>keys.at(key)\<close> throws when the key is not there.\<close>

fun counter_rows :: "(string \<times> int) list \<Rightarrow> (string \<times> string \<times> attributes) list \<Rightarrow> Metric list outcome" where
  "counter_rows [] keys = Returns []"
| "counter_rows ((key, v) # entries) keys = (case map_of keys key of
     None \<Rightarrow> Throws
   | Some (name, attributes) \<Rightarrow> map_outcome (Cons (counter_row name attributes v)) (counter_rows entries keys))"

definition Counters_Snapshot :: "Counters \<Rightarrow> Metric list outcome" where
  "Counters_Snapshot c = counter_rows (counts c) (named c)"

definition counter_key :: "string \<Rightarrow> attributes \<Rightarrow> string" where
  "counter_key name attributes = AttributesKey [(name, [])] @ AttributesKey attributes"

definition Counters_Add :: "string \<Rightarrow> attributes \<Rightarrow> int \<Rightarrow> Counters \<Rightarrow> Counters" where
  "Counters_Add name attributes delta c = counter_add (counter_key name attributes) name attributes delta c"

definition Counters_Get :: "string \<Rightarrow> attributes \<Rightarrow> Counters \<Rightarrow> int" where
  "Counters_Get name attributes c = counter_get (counter_key name attributes) c"


section \<open>Gauges\<close>

text \<open>A reader looks at the state of its owner (\<open>'w\<close>) and may throw.\<close>

type_synonym 'w reader = "'w \<Rightarrow> int outcome"

record 'w gauge =
  gauge_name :: string
  gauge_attributes :: attributes
  gauge_unit :: string
  gauge_description :: string
  gauge_reader :: "'w reader"

fun Gauges_Register :: "string \<Rightarrow> attributes \<Rightarrow> string \<Rightarrow> string \<Rightarrow> 'w reader \<Rightarrow> 'w gauge list \<Rightarrow> 'w gauge list" where
  "Gauges_Register name attributes unit description reader [] =
     [\<lparr>gauge_name = name, gauge_attributes = attributes, gauge_unit = unit,
       gauge_description = description, gauge_reader = reader\<rparr>]"
| "Gauges_Register name attributes unit description reader (entry # entries) =
     (if gauge_name entry = name \<and> gauge_attributes entry = attributes
      then entry\<lparr>gauge_unit := unit, gauge_description := description, gauge_reader := reader\<rparr> # entries
      else entry # Gauges_Register name attributes unit description reader entries)"

definition Gauges_Remove :: "string \<Rightarrow> attributes \<Rightarrow> 'w gauge list \<Rightarrow> 'w gauge list" where
  "Gauges_Remove name attributes entries =
     filter (\<lambda>entry. \<not> (gauge_name entry = name \<and> gauge_attributes entry = attributes)) entries"

definition gauge_row :: "'w gauge \<Rightarrow> int \<Rightarrow> Metric" where
  "gauge_row entry v = \<lparr>metric_name = gauge_name entry, metric_kind = ''gauge'',
     metric_attributes = gauge_attributes entry, metric_value = v,
     metric_unit = gauge_unit entry, metric_description = gauge_description entry\<rparr>"

fun Gauges_Snapshot :: "'w gauge list \<Rightarrow> 'w \<Rightarrow> Metric list outcome" where
  "Gauges_Snapshot [] w = Returns []"
| "Gauges_Snapshot (entry # entries) w = (case gauge_reader entry w of
     Throws \<Rightarrow> Gauges_Snapshot entries w
   | Hangs \<Rightarrow> Hangs
   | Returns v \<Rightarrow> map_outcome (Cons (gauge_row entry v)) (Gauges_Snapshot entries w))"


section \<open>The registry: stamp and sinks\<close>

definition EXT_HOOKS_VERSION :: int where
  "EXT_HOOKS_VERSION = 1"

record stamp =
  contract_magic :: int
  contract_version :: int

record hooks_stamp = stamp +
  hooks_version :: int

definition Registry_stamp :: "int \<Rightarrow> int \<Rightarrow> hooks_stamp" where
  "Registry_stamp MAGIC VERSION =
     \<lparr>contract_magic = MAGIC, contract_version = VERSION, hooks_version = EXT_HOOKS_VERSION\<rparr>"

text \<open>
  DuckDB's \<open>ObjectCache\<close> is a parameter: \<open>GetOrCreate\<close> of a type and key takes the instance to a pointer
  (null when the object under the key is of another type) and the instance afterwards, and \<open>stamp_of\<close> reads
  the stamp of an object. The result is the pointer handed out, or none with the reason.
\<close>

type_synonym ('i, 'p) get_or_create = "string \<Rightarrow> 'i \<Rightarrow> 'p option \<times> 'i"

definition key_quoted :: "string \<Rightarrow> string" where
  "key_quoted s = CHR 0x27 # s @ [CHR 0x27]"

definition held_otherwise :: "string \<Rightarrow> string" where
  "held_otherwise key = ''the object cache holds something else under '' @ key_quoted key"

definition another_stamp :: "string \<Rightarrow> string" where
  "another_stamp key = ''the registry under '' @ key_quoted key @ '' carries another contract'' @ [CHR 0x27] @ ''s stamp''"

definition another_version :: "string \<Rightarrow> int \<Rightarrow> int \<Rightarrow> string" where
  "another_version key stamped VERSION = ''the registry under '' @ key_quoted key @ '' is stamped with contract version ''
     @ to_string stamped @ '', this build speaks '' @ to_string VERSION
     @ '' - the two sides were built from different revisions of the contract''"

definition another_base :: "string \<Rightarrow> int \<Rightarrow> string" where
  "another_base key stamped = ''the registry under '' @ key_quoted key @ '' is built on hooks base version ''
     @ to_string stamped @ '', this build on '' @ to_string EXT_HOOKS_VERSION
     @ '' - the two sides were built from different revisions of duckdb-ext-common''"

definition ReachAs :: "int \<Rightarrow> int \<Rightarrow> string \<Rightarrow> ('i, 'p) get_or_create \<Rightarrow> ('p \<Rightarrow> 'i \<Rightarrow> hooks_stamp)
    \<Rightarrow> 'i \<Rightarrow> ('p option \<times> string) \<times> 'i" where
  "ReachAs MAGIC VERSION key GetOrCreate stamp_of i = (case GetOrCreate key i of
     (None, i) \<Rightarrow> ((None, held_otherwise key), i)
   | (Some registry, i) \<Rightarrow>
       let s = stamp_of registry i in
       if contract_magic s \<noteq> MAGIC then ((None, another_stamp key), i)
       else if contract_version s \<noteq> VERSION then ((None, another_version key (contract_version s) VERSION), i)
       else if hooks_version s \<noteq> EXT_HOOKS_VERSION then ((None, another_base key (hooks_version s)), i)
       else ((Some registry, []), i))"

text \<open>A registry: its stamp, the sinks by pointer, the counters and the gauges. \<open>erase_first\<close> is the loop that
  erases the first element equal to a pointer; every registry of the contracts has it.\<close>

record ('s, 'w) registry = hooks_stamp +
  sinks :: "'s list"
  registry_counters :: Counters
  registry_gauges :: "'w gauge list"

definition Registry0 :: "int \<Rightarrow> int \<Rightarrow> ('s, 'w) registry" where
  "Registry0 MAGIC VERSION = hooks_stamp.extend (Registry_stamp MAGIC VERSION)
     \<lparr>sinks = [], registry_counters = Counters0, registry_gauges = []\<rparr>"

fun erase_first :: "'s \<Rightarrow> 's list \<Rightarrow> 's list" where
  "erase_first x [] = []"
| "erase_first x (y # ys) = (if y = x then ys else y # erase_first x ys)"

definition AddSink :: "'s \<Rightarrow> ('s, 'w) registry \<Rightarrow> ('s, 'w) registry" where
  "AddSink sink r = r\<lparr>sinks := sinks r @ [sink]\<rparr>"

definition RemoveSink :: "'s \<Rightarrow> ('s, 'w) registry \<Rightarrow> ('s, 'w) registry" where
  "RemoveSink sink r = r\<lparr>sinks := erase_first sink (sinks r)\<rparr>"

definition HasSinks :: "('s, 'w) registry \<Rightarrow> bool" where
  "HasSinks r \<longleftrightarrow> sinks r \<noteq> []"


section \<open>Keys tell attribute tuples apart\<close>

lemma counted_inject [simp]: "counted s @ r = counted t @ q \<longleftrightarrow> s = t \<and> r = q"
proof
  assume "counted s @ r = counted t @ q"
  then have "dec (length s) @ CHR '':'' # (s @ r) = dec (length t) @ CHR '':'' # (t @ q)"
    by (simp add: counted_def to_string_def)
  moreover have "CHR '':'' \<notin> set (dec n)" for n
    using dec_digits [of "CHR '':''" n] by (auto simp: isdigit_def code_of_def)
  ultimately have "length s = length t \<and> s @ r = t @ q"
    by (simp add: separator_inject)
  then show "s = t \<and> r = q" by (metis append_eq_append_conv)
qed simp

lemma counted_nonempty [simp]: "counted s \<noteq> []"
  by (simp add: counted_def)

lemma AttributesKey_inject [simp]: "AttributesKey xs = AttributesKey ys \<longleftrightarrow> xs = ys"
proof (induction xs arbitrary: ys rule: AttributesKey.induct)
  case 1
  show ?case by (cases ys rule: AttributesKey.cases) simp_all
next
  case (2 name v attributes)
  then show ?case by (cases ys rule: AttributesKey.cases) simp_all
qed

lemma counter_key_inject [simp]:
  "counter_key n xs = counter_key m ys \<longleftrightarrow> n = m \<and> xs = ys"
  by (auto simp: counter_key_def)


section \<open>What counters keep\<close>

text \<open>A call of \<open>Add\<close>: the name, the attributes and the delta.\<close>

type_synonym addition = "string \<times> attributes \<times> int"

definition count_all :: "(string \<Rightarrow> attributes \<Rightarrow> string) \<Rightarrow> addition list \<Rightarrow> Counters \<Rightarrow> Counters" where
  "count_all key adds c = fold (\<lambda>(n, xs, d). counter_add (key n xs) n xs d) adds c"

definition total :: "addition list \<Rightarrow> string \<Rightarrow> attributes \<Rightarrow> int" where
  "total adds n xs = sum_list (map (snd \<circ> snd) (filter (\<lambda>(m, ys, d). m = n \<and> ys = xs) adds))"

definition added :: "addition list \<Rightarrow> (string \<times> attributes) set" where
  "added adds = (\<lambda>(n, xs, d). (n, xs)) ` set adds"

text \<open>Both maps have the same keys, those of the tuples added, and an entry's tuple has the entry's key.\<close>

definition counters_ok :: "(string \<Rightarrow> attributes \<Rightarrow> string) \<Rightarrow> (string \<times> attributes) set \<Rightarrow> Counters \<Rightarrow> bool" where
  "counters_ok key S c \<longleftrightarrow> sorted_map (counts c) \<and> dom (map_of (counts c)) = case_prod key ` S
     \<and> dom (map_of (named c)) = case_prod key ` S
     \<and> (\<forall>k n xs. map_of (named c) k = Some (n, xs) \<longrightarrow> (n, xs) \<in> S \<and> key n xs = k)"

lemma count_all_snoc [simp]:
  "count_all key (adds @ [(n, xs, d)]) c = counter_add (key n xs) n xs d (count_all key adds c)"
  by (simp add: count_all_def)

lemma total_snoc [simp]:
  "total (adds @ [(m, ys, d)]) n xs = total adds n xs + (if m = n \<and> ys = xs then d else 0)"
  by (auto simp: total_def)

lemma added_snoc [simp]: "added (adds @ [(n, xs, d)]) = insert (n, xs) (added adds)"
  by (auto simp: added_def)

lemma counter_get_add [simp]:
  "counter_get k (counter_add k' n xs d c) = counter_get k c + (if k = k' then d else 0)"
  by (auto simp: counter_get_def counter_add_def split: option.splits)

lemma counter_get_0 [simp]: "counter_get k Counters0 = 0"
  by (simp add: counter_get_def Counters0_def)

lemma counters_ok_add:
  assumes "counters_ok key S c"
  shows "counters_ok key (insert (n, xs) S) (counter_add (key n xs) n xs d c)"
proof (cases "map_of (counts c) (key n xs)")
  case None
  with assms show ?thesis by (auto simp: counters_ok_def counter_add_def)
next
  case (Some v)
  then have "key n xs \<in> dom (map_of (counts c))" by blast
  with assms Some show ?thesis by (auto simp: counters_ok_def counter_add_def insert_absorb)
qed

lemma counters_ok_all: "counters_ok key (added adds) (count_all key adds Counters0)"
proof (induction adds rule: rev_induct)
  case Nil
  show ?case by (simp add: counters_ok_def count_all_def Counters0_def added_def sorted_map_def)
next
  case (snoc a adds)
  obtain n xs d where "a = (n, xs, d)" by (cases a) auto
  with counters_ok_add [OF snoc.IH] show ?case by simp
qed

definition row_of :: "Counters \<Rightarrow> string \<times> int \<Rightarrow> Metric" where
  "row_of c = (\<lambda>(k, v). case the (map_of (named c) k) of (n, xs) \<Rightarrow> counter_row n xs v)"

lemma counter_rows_known:
  "fst ` set entries \<subseteq> dom (map_of (named c)) \<Longrightarrow> counter_rows entries (named c) = Returns (map (row_of c) entries)"
  by (induction entries "named c" rule: counter_rows.induct) (auto simp: row_of_def split: prod.splits)

lemma counters_okD:
  assumes "counters_ok key S c"
  shows "distinct (map fst (counts c))" and "dom (map_of (counts c)) = dom (map_of (named c))"
    and "dom (map_of (named c)) = case_prod key ` S"
    and "map_of (named c) k = Some (n, xs) \<Longrightarrow> (n, xs) \<in> S \<and> key n xs = k"
  using assms by (auto simp: counters_ok_def dest: sorted_map_distinct)

lemma Snapshot_returns:
  assumes "counters_ok key S c"
  shows "Counters_Snapshot c = Returns (map (row_of c) (counts c))"
proof -
  have "fst ` set (counts c) \<subseteq> dom (map_of (named c))"
    by (metis counters_okD(2) [OF assms] dom_map_of_conv_image_fst order_refl)
  then show ?thesis by (simp add: Counters_Snapshot_def counter_rows_known)
qed

definition tuple_of :: "Metric \<Rightarrow> string \<times> attributes" where
  "tuple_of m = (metric_name m, metric_attributes m)"

lemma tuple_of_row:
  assumes "counters_ok key S c" and "e \<in> set (counts c)"
  shows "tuple_of (row_of c e) \<in> S" and "case_prod key (tuple_of (row_of c e)) = fst e"
    and "map_of (counts c) (fst e) = Some (metric_value (row_of c e))"
proof -
  obtain k v where e: "e = (k, v)" by (cases e)
  from assms(2) e have v: "map_of (counts c) k = Some v"
    by (simp add: counters_okD(1) [OF assms(1)])
  then have "k \<in> dom (map_of (named c))" using counters_okD(2) [OF assms(1)] by blast
  then obtain n xs where nm: "map_of (named c) k = Some (n, xs)" by auto
  note counters_okD(4) [OF assms(1) nm]
  with e v nm show "tuple_of (row_of c e) \<in> S" and "case_prod key (tuple_of (row_of c e)) = fst e"
    and "map_of (counts c) (fst e) = Some (metric_value (row_of c e))"
    by (simp_all add: row_of_def tuple_of_def counter_row_def)
qed

lemma rows_distinct:
  assumes "counters_ok key S c"
  shows "distinct (map tuple_of (map (row_of c) (counts c)))"
proof -
  have "distinct (map fst (counts c))"
    by (rule counters_okD(1) [OF assms])
  then have "distinct (map (case_prod key) (map tuple_of (map (row_of c) (counts c))))"
    using tuple_of_row(2) [OF assms] by (simp cong: map_cong add: comp_def)
  then show ?thesis by (auto simp: distinct_map intro: inj_on_imageI2)
qed


lemma row_value:
  "counters_ok key S c \<Longrightarrow> e \<in> set (counts c) \<Longrightarrow>
     metric_value (row_of c e) = counter_get (case_prod key (tuple_of (row_of c e))) c"
  by (simp add: counter_get_def tuple_of_row(2) tuple_of_row(3))

lemma rows_cover: "counters_ok key S c \<Longrightarrow> case_prod key ` tuple_of ` row_of c ` set (counts c) = case_prod key ` S"
  using counters_okD(2,3) [of key S c] tuple_of_row(2) [of key S c]
  by (simp add: image_image dom_map_of_conv_image_fst cong: image_cong)


text \<open>Where the keys tell the tuples in use apart, a counter is the sum of what was added under its tuple.\<close>

locale counter_store =
  fixes key :: "string \<Rightarrow> attributes \<Rightarrow> string"
    and legal :: "string \<Rightarrow> attributes \<Rightarrow> bool"
  assumes key_inject: "legal n xs \<Longrightarrow> legal m ys \<Longrightarrow> key n xs = key m ys \<longleftrightarrow> n = m \<and> xs = ys"
begin

lemma get_total:
  assumes "added adds \<subseteq> Collect (case_prod legal)" and "legal n xs"
  shows "counter_get (key n xs) (count_all key adds Counters0) = total adds n xs"
  using assms(1)
proof (induction adds rule: rev_induct)
  case Nil
  show ?case by (simp add: count_all_def total_def)
next
  case (snoc a adds)
  obtain m ys d where "a = (m, ys, d)" by (cases a) auto
  with snoc assms(2) key_inject [of n xs m ys] show ?case by auto
qed

lemma snapshot_totals:
  assumes "added adds \<subseteq> Collect (case_prod legal)"
  shows "\<exists>rows. Counters_Snapshot (count_all key adds Counters0) = Returns rows \<and> distinct (map tuple_of rows)
    \<and> (\<lambda>m. (tuple_of m, metric_value m)) ` set rows = (\<lambda>t. (t, case_prod (total adds) t)) ` added adds"
proof (intro exI conjI)
  let ?c = "count_all key adds Counters0" and ?S = "added adds"
  let ?rows = "map (row_of ?c) (counts ?c)"
  note ok = counters_ok_all [of key adds]
  show "Counters_Snapshot ?c = Returns ?rows" by (rule Snapshot_returns [OF ok])
  show "distinct (map tuple_of ?rows)" by (rule rows_distinct [OF ok])
  have sub: "tuple_of ` set ?rows \<subseteq> ?S"
    using tuple_of_row(1) [OF ok] by auto
  have "legal n xs" if "(n, xs) \<in> ?S" for n xs
    using assms that by auto
  then have "inj_on (case_prod key) ?S"
    by (auto simp: inj_on_def key_inject)
  moreover have "case_prod key ` tuple_of ` set ?rows = case_prod key ` ?S"
    using rows_cover [OF ok] by simp
  ultimately have tuples: "tuple_of ` set ?rows = ?S"
    using sub by (metis inj_on_image_eq_iff subset_refl)
  have "metric_value m = case_prod (total adds) (tuple_of m)" if m: "m \<in> set ?rows" for m
  proof -
    obtain n xs where t: "tuple_of m = (n, xs)" by (cases "tuple_of m")
    with m sub have "(n, xs) \<in> ?S" by (metis image_eqI subset_iff)
    with assms have "legal n xs" by auto
    from get_total [OF assms this] m t row_value [OF ok] show ?thesis by auto
  qed
  then have "(\<lambda>m. (tuple_of m, metric_value m)) ` set ?rows
      = (\<lambda>t. (t, case_prod (total adds) t)) ` tuple_of ` set ?rows"
    by (auto simp: image_image intro!: image_cong)
  with tuples show "(\<lambda>m. (tuple_of m, metric_value m)) ` set ?rows = (\<lambda>t. (t, case_prod (total adds) t)) ` ?S"
    by simp
qed

end

interpretation hooks_counters: counter_store counter_key "\<lambda>n xs. True"
  by unfold_locales simp


section \<open>What gauges keep\<close>

text \<open>The owners' calls, and the promise: a map from a name and attributes to the last registration.\<close>

datatype 'w gauge_call =
    RegisterCall string attributes string string "'w reader"
  | RemoveCall string attributes

fun gauge_step :: "'w gauge_call \<Rightarrow> 'w gauge list \<Rightarrow> 'w gauge list" where
  "gauge_step (RegisterCall name attributes unit description reader) gs =
     Gauges_Register name attributes unit description reader gs"
| "gauge_step (RemoveCall name attributes) gs = Gauges_Remove name attributes gs"

type_synonym 'w gauge_map = "string \<times> attributes \<rightharpoonup> string \<times> string \<times> 'w reader"

fun gauge_promise :: "'w gauge_call \<Rightarrow> 'w gauge_map \<Rightarrow> 'w gauge_map" where
  "gauge_promise (RegisterCall name attributes unit description reader) m =
     m((name, attributes) \<mapsto> (unit, description, reader))"
| "gauge_promise (RemoveCall name attributes) m = m((name, attributes) := None)"

definition gauge_id :: "'w gauge \<Rightarrow> string \<times> attributes" where
  "gauge_id g = (gauge_name g, gauge_attributes g)"

definition gauge_pair :: "'w gauge \<Rightarrow> (string \<times> attributes) \<times> string \<times> string \<times> 'w reader" where
  "gauge_pair g = (gauge_id g, gauge_unit g, gauge_description g, gauge_reader g)"

definition gauges_as :: "'w gauge list \<Rightarrow> 'w gauge_map" where
  "gauges_as gs = map_of (map gauge_pair gs)"

lemma gauge_id_eq [simp]: "gauge_id g = (n, xs) \<longleftrightarrow> gauge_name g = n \<and> gauge_attributes g = xs"
  by (simp add: gauge_id_def)

lemma ids_Register: "gauge_id ` set (Gauges_Register n xs u d r gs) = insert (n, xs) (gauge_id ` set gs)"
  by (induction gs) (auto simp: gauge_id_def)

lemma distinct_Register:
  "distinct (map gauge_id gs) \<Longrightarrow> distinct (map gauge_id (Gauges_Register n xs u d r gs))"
  by (induction gs) (simp_all add: ids_Register, auto simp: gauge_id_def)

lemma as_Register: "gauges_as (Gauges_Register n xs u d r gs) = (gauges_as gs)((n, xs) \<mapsto> (u, d, r))"
  by (induction gs) (auto simp: gauges_as_def gauge_pair_def gauge_id_def fun_eq_iff)

lemma as_Remove: "gauges_as (Gauges_Remove n xs gs) = (gauges_as gs)((n, xs) := None)"
  by (induction gs) (auto simp: gauges_as_def gauge_pair_def gauge_id_def Gauges_Remove_def fun_eq_iff)

lemma gauge_step_as: "gauges_as (gauge_step call gs) = gauge_promise call (gauges_as gs)"
  by (cases call) (simp_all add: as_Register as_Remove)

lemma gauge_step_distinct: "distinct (map gauge_id gs) \<Longrightarrow> distinct (map gauge_id (gauge_step call gs))"
  by (cases call) (simp_all add: distinct_Register Gauges_Remove_def distinct_map_filter)

lemma gauges_fold:
  "distinct (map gauge_id gs) \<Longrightarrow>
     distinct (map gauge_id (fold gauge_step calls gs))
     \<and> gauges_as (fold gauge_step calls gs) = fold gauge_promise calls (gauges_as gs)"
  by (induction calls arbitrary: gs) (simp_all add: gauge_step_as gauge_step_distinct)


lemma gauges_as_mem:
  "distinct (map gauge_id gs) \<Longrightarrow> gauges_as gs k = Some e \<longleftrightarrow> (k, e) \<in> gauge_pair ` set gs"
  using map_of_eq_Some_iff [of "map gauge_pair gs" k e]
  by (simp add: gauges_as_def gauge_pair_def comp_def)

lemma Snapshot_rows:
  "\<forall>g \<in> set gs. gauge_reader g w \<noteq> Hangs \<Longrightarrow>
     Gauges_Snapshot gs w = Returns (concat (map (\<lambda>g. case gauge_reader g w of
       Returns v \<Rightarrow> [gauge_row g v] | _ \<Rightarrow> []) gs))"
  by (induction gs) (auto split: outcome.splits)

definition promised_row :: "(string \<times> attributes) \<Rightarrow> string \<Rightarrow> string \<Rightarrow> int \<Rightarrow> Metric" where
  "promised_row k unit description v = \<lparr>metric_name = fst k, metric_kind = ''gauge'',
     metric_attributes = snd k, metric_value = v, metric_unit = unit, metric_description = description\<rparr>"

lemma gauge_row_promised:
  "gauge_row g v = promised_row (gauge_id g) (gauge_unit g) (gauge_description g) v"
  by (simp add: gauge_row_def promised_row_def gauge_id_def)

lemma tuple_of_gauge_row [simp]: "tuple_of (gauge_row g v) = gauge_id g"
  by (simp add: gauge_row_def tuple_of_def gauge_id_def)

lemma Snapshot_promised:
  assumes "distinct (map gauge_id gs)" and "\<forall>k u d r. gauges_as gs k = Some (u, d, r) \<longrightarrow> r w \<noteq> Hangs"
  shows "\<exists>rows. Gauges_Snapshot gs w = Returns rows \<and> distinct (map tuple_of rows)
    \<and> set rows = {promised_row k u d v |k u d v. \<exists>r. gauges_as gs k = Some (u, d, r) \<and> r w = Returns v}"
proof (intro exI conjI)
  let ?row = "\<lambda>g. case gauge_reader g w of Returns v \<Rightarrow> [gauge_row g v] | _ \<Rightarrow> []"
  have pairs: "gauges_as gs (gauge_id g) = Some (gauge_unit g, gauge_description g, gauge_reader g)" if "g \<in> set gs" for g
    unfolding gauges_as_mem [OF assms(1)] using that by (force simp: gauge_pair_def)
  from this assms(2) show "Gauges_Snapshot gs w = Returns (concat (map ?row gs))"
    by (intro Snapshot_rows) metis
  show "distinct (map tuple_of (concat (map ?row gs)))"
    using assms(1) by (induction gs) (auto split: outcome.splits)
  have "m \<in> set (?row g) \<longleftrightarrow> (\<exists>v. gauge_reader g w = Returns v \<and> m = gauge_row g v)" for m g
    by (cases "gauge_reader g w") auto
  then have rows: "m \<in> set (concat (map ?row gs)) \<longleftrightarrow> (\<exists>g\<in>set gs. \<exists>v. gauge_reader g w = Returns v \<and> m = gauge_row g v)" for m
    by simp
  show "set (concat (map ?row gs))
      = {promised_row k u d v |k u d v. \<exists>r. gauges_as gs k = Some (u, d, r) \<and> r w = Returns v}" (is "?L = ?R")
  proof (intro subset_antisym subsetI)
    fix m assume "m \<in> ?L"
    then obtain g v where "g \<in> set gs" and v: "gauge_reader g w = Returns v" and m: "m = gauge_row g v"
      unfolding rows by blast
    from pairs [OF this(1)] v m show "m \<in> ?R" unfolding gauge_row_promised by blast
  next
    fix m assume "m \<in> ?R"
    then obtain k u d v r where m: "m = promised_row k u d v" and r: "gauges_as gs k = Some (u, d, r)" "r w = Returns v"
      by blast
    from r(1) obtain g where "g \<in> set gs" and "gauge_pair g = (k, u, d, r)"
      unfolding gauges_as_mem [OF assms(1)] by (metis imageE)
    with m r(2) show "m \<in> ?L"
      unfolding rows by (auto simp: gauge_pair_def gauge_row_promised intro!: bexI [of _ g])
  qed
qed


section \<open>Lists of listeners\<close>

text \<open>What the registries of the contracts share: a list of pointers that is added to at the end and from which
  one registration is removed.\<close>

datatype 'l listen_call = AddListener 'l | RemoveListener 'l

fun listen :: "('l \<Rightarrow> 'r \<Rightarrow> 'r) \<Rightarrow> ('l \<Rightarrow> 'r \<Rightarrow> 'r) \<Rightarrow> 'l listen_call \<Rightarrow> 'r \<Rightarrow> 'r" where
  "listen add remove (AddListener l) r = add l r"
| "listen add remove (RemoveListener l) r = remove l r"

lemma erase_first_remove1 [simp]: "erase_first x xs = remove1 x xs"
  by (induction xs) auto

locale listeners =
  fixes add :: "'l \<Rightarrow> 'r \<Rightarrow> 'r" and remove :: "'l \<Rightarrow> 'r \<Rightarrow> 'r" and current :: "'r \<Rightarrow> 'l list"
  assumes current_add [simp]: "current (add l r) = current r @ [l]"
    and current_remove [simp]: "current (remove l r) = remove1 l (current r)"
begin

text \<open>A listener that nobody removes keeps its registrations, in the order they were made; every removal takes one.\<close>

lemma registrations_kept:
  assumes "RemoveListener l \<notin> set calls"
  shows "count_list (current (fold (listen add remove) calls r)) l
    = count_list (current r) l + count_list calls (AddListener l)"
  using assms
proof (induction calls arbitrary: r)
  case (Cons call calls)
  then show ?case by (cases call) (auto simp: count_list_append)
qed simp

lemma kept_order:
  assumes "\<And>l. P l \<Longrightarrow> RemoveListener l \<notin> set calls"
  shows "filter P (current (fold (listen add remove) calls r))
    = filter P (current r) @ filter P (concat (map (\<lambda>c. case c of AddListener l \<Rightarrow> [l] | RemoveListener l \<Rightarrow> []) calls))"
  using assms
proof (induction calls arbitrary: r)
  case (Cons call calls)
  have "filter P (remove1 l xs) = filter P xs" if "\<not> P l" for l xs
    using that by (induction xs) auto
  with Cons show ?case by (cases call) fastforce+
qed simp

lemma registration_gone:
  "distinct (current r) \<Longrightarrow> l \<notin> set (current (remove l r))"
  by simp

end

interpretation registry_sinks: listeners AddSink RemoveSink sinks
  by unfold_locales (simp_all add: AddSink_def RemoveSink_def)


section \<open>The gate of a contract\<close>

text \<open>
  Every contract hands out its shared object through a \<open>Reach\<close>: the object under the contract's key when its
  stamp is the one this build speaks, and no object but a reason otherwise.
\<close>

locale contract_gate =
  fixes reach :: "('i, 'p) get_or_create \<Rightarrow> ('p \<Rightarrow> 'i \<Rightarrow> 's) \<Rightarrow> 'i \<Rightarrow> ('p option \<times> string) \<times> 'i"
    and key :: string and spoken :: "'s \<Rightarrow> bool"
  assumes reach_spoken: "goc key i = (Some p, i') \<Longrightarrow> spoken (stamp_of p i') \<Longrightarrow> reach goc stamp_of i = ((Some p, []), i')"
    and reach_unspoken: "goc key i = (Some p, i') \<Longrightarrow> \<not> spoken (stamp_of p i') \<Longrightarrow>
      \<exists>why. why \<noteq> [] \<and> reach goc stamp_of i = ((None, why), i')"
    and reach_absent: "goc key i = (None, i') \<Longrightarrow> \<exists>why. why \<noteq> [] \<and> reach goc stamp_of i = ((None, why), i')"
begin

lemma reach_cases:
  obtains (handed) p i' where "goc key i = (Some p, i')" "spoken (stamp_of p i')" "reach goc stamp_of i = ((Some p, []), i')"
  | (refused) why i' where "why \<noteq> []" "reach goc stamp_of i = ((None, why), i')"
      "\<And>p. goc key i = (Some p, i') \<Longrightarrow> \<not> spoken (stamp_of p i')"
proof -
  obtain q i' where g: "goc key i = (q, i')" by (cases "goc key i")
  show ?thesis
  proof (cases q)
    case None
    with g reach_absent [of goc i i' stamp_of] obtain why where
        "why \<noteq> []" and "reach goc stamp_of i = ((None, why), i')" by blast
    with g None show ?thesis by (intro refused [of why i']) simp_all
  next
    case (Some p)
    show ?thesis
    proof (cases "spoken (stamp_of p i')")
      case True
      with g Some reach_spoken [of goc i p i' stamp_of] show ?thesis by (intro handed [of p i']) simp_all
    next
      case False
      with g Some reach_unspoken [of goc i p i' stamp_of] obtain why where
          "why \<noteq> []" and "reach goc stamp_of i = ((None, why), i')" by blast
      with g Some False show ?thesis by (intro refused [of why i']) simp_all
    qed
  qed
qed

lemma reach_sound:
  "reach goc stamp_of i = ((Some p, why), i') \<Longrightarrow> goc key i = (Some p, i') \<and> spoken (stamp_of p i') \<and> why = []"
  by (rule reach_cases [of goc i stamp_of]) auto

lemma reach_iff:
  "reach goc stamp_of i = ((Some p, why), i') \<longleftrightarrow> goc key i = (Some p, i') \<and> spoken (stamp_of p i') \<and> why = []"
  using reach_sound [of goc stamp_of i p why i'] reach_spoken [of goc i p i' stamp_of] by auto

lemma reach_reason: "fst (fst (reach goc stamp_of i)) = None \<longleftrightarrow> snd (fst (reach goc stamp_of i)) \<noteq> []"
  by (rule reach_cases [of goc i stamp_of]) auto

end

lemma reasons_nonempty [simp]:
  "held_otherwise key \<noteq> []" "another_stamp key \<noteq> []" "another_version key v V \<noteq> []" "another_base key v \<noteq> []"
  by (simp_all add: held_otherwise_def another_stamp_def another_version_def another_base_def)

lemma is_Registry_stamp:
  "s = Registry_stamp M V \<longleftrightarrow> contract_magic s = M \<and> contract_version s = V \<and> hooks_version s = EXT_HOOKS_VERSION"
  for s :: hooks_stamp
  by (cases s) (simp add: Registry_stamp_def)

interpretation registry_gate: contract_gate "ReachAs M V k" k "\<lambda>s. s = Registry_stamp M V" for M V k
  by unfold_locales (auto simp: ReachAs_def is_Registry_stamp Let_def)


section \<open>Properties\<close>

lemma Counters_all: "fold (\<lambda>(n, xs, d). Counters_Add n xs d) adds Counters0 = count_all counter_key adds Counters0"
  by (simp add: count_all_def Counters_Add_def [abs_def])

text \<open>C26: Counters are sums by tuple: after any sequence of \<open>Add\<close>, \<open>Get\<close> gives the sum of the deltas added under
  exactly that name and attribute list, and the snapshot does not throw and has one counter row for each pair of a
  name and an attribute list added, with its sum, and no other row.\<close>

theorem Counters_sums:
  fixes adds :: "addition list"
  defines "c \<equiv> fold (\<lambda>(n, xs, d). Counters_Add n xs d) adds Counters0"
  shows "Counters_Get n xs c = total adds n xs \<and>
    (\<exists>rows. Counters_Snapshot c = Returns rows \<and> distinct (map tuple_of rows)
      \<and> (\<lambda>m. (tuple_of m, metric_value m)) ` set rows = (\<lambda>t. (t, case_prod (total adds) t)) ` added adds)"
  unfolding c_def Counters_all Counters_Get_def
  using hooks_counters.get_total [of adds n xs] hooks_counters.snapshot_totals [of adds] by simp

text \<open>C27: Gauges show the last registration: after any sequence of \<open>Register\<close> and \<open>Remove\<close>, the snapshot has exactly
  one row for each name and attribute list registered last and not removed since, with the unit and description of
  that registration and the value its reader gives; a reader that throws leaves its row out, and a replaced or removed
  reader is never asked.\<close>

theorem Gauges_last_registration:
  assumes "\<forall>k u d r. fold gauge_promise calls Map.empty k = Some (u, d, r) \<longrightarrow> r w \<noteq> Hangs"
  shows "\<exists>rows. Gauges_Snapshot (fold gauge_step calls []) w = Returns rows \<and> distinct (map tuple_of rows)
    \<and> set rows = {promised_row k u d v |k u d v.
        \<exists>r. fold gauge_promise calls Map.empty k = Some (u, d, r) \<and> r w = Returns v}"
proof -
  have empty: "distinct (map gauge_id [])" by simp
  have none: "gauges_as [] = Map.empty" by (simp add: gauges_as_def)
  from gauges_fold [OF empty, of calls] have "distinct (map gauge_id (fold gauge_step calls []))"
    and as: "gauges_as (fold gauge_step calls []) = fold gauge_promise calls Map.empty"
    unfolding none by blast+
  from Snapshot_promised [OF this(1)] assms show ?thesis unfolding as by blast
qed

lemma two_gauges_promise:
  "fold gauge_promise
     [RegisterCall ''queue.size'' [] ''1'' ''queued'' (\<lambda>n. Returns n),
      RegisterCall ''age'' [] ''s'' ''age'' (\<lambda>n. Hangs), RemoveCall ''age'' [],
      RegisterCall ''queue.size'' [] ''1'' ''queued'' (\<lambda>n. Returns (n + 1)),
      RegisterCall ''broken'' [] ''1'' ''throws'' (\<lambda>n. Throws)] Map.empty
   = [(''broken'', []) \<mapsto> (''1'', ''throws'', \<lambda>n. Throws),
      (''queue.size'', []) \<mapsto> (''1'', ''queued'', \<lambda>n. Returns (n + 1))]"
  by (simp add: fun_eq_iff)

theorem Gauges_last_registration_witness:
  "\<exists>rows. Gauges_Snapshot (fold gauge_step
     [RegisterCall ''queue.size'' [] ''1'' ''queued'' (\<lambda>n. Returns n),
      RegisterCall ''age'' [] ''s'' ''age'' (\<lambda>n. Hangs), RemoveCall ''age'' [],
      RegisterCall ''queue.size'' [] ''1'' ''queued'' (\<lambda>n. Returns (n + 1)),
      RegisterCall ''broken'' [] ''1'' ''throws'' (\<lambda>n. Throws)] []) (4 :: int) = Returns rows
    \<and> promised_row (''queue.size'', []) ''1'' ''queued'' 5 \<in> set rows"
proof -
  let ?calls = "[RegisterCall ''queue.size'' [] ''1'' ''queued'' (\<lambda>n. Returns n),
      RegisterCall ''age'' [] ''s'' ''age'' (\<lambda>n. Hangs), RemoveCall ''age'' [],
      RegisterCall ''queue.size'' [] ''1'' ''queued'' (\<lambda>n. Returns (n + 1)),
      RegisterCall ''broken'' [] ''1'' ''throws'' (\<lambda>n. Throws)]"
  have "\<forall>k u d r. fold gauge_promise ?calls Map.empty k = Some (u, d, r) \<longrightarrow> r 4 \<noteq> Hangs"
    unfolding two_gauges_promise by (auto split: if_splits)
  from Gauges_last_registration [OF this] obtain rows where
      r: "Gauges_Snapshot (fold gauge_step ?calls []) 4 = Returns rows"
    and "set rows = {promised_row k u d v |k u d v.
        \<exists>r. fold gauge_promise ?calls Map.empty k = Some (u, d, r) \<and> r 4 = Returns v}" by blast
  note rows = this(2) [unfolded two_gauges_promise]
  have "promised_row (''queue.size'', []) ''1'' ''queued'' 5 \<in> set rows"
    unfolding rows
    by (rule CollectI, intro exI, rule conjI [OF refl], rule exI [of _ "\<lambda>n. Returns (n + 1)"]) simp
  with r show ?thesis by blast
qed

text \<open>C24: A contract's registry is shared by equal builds only: when one side was handed the registry, any other side
  that reaches for the same key later, on an object cache that keeps the object and its stamp, is handed the same
  registry without a reason when it was built with the same contract magic and version, and otherwise no registry and
  a reason.\<close>

theorem ReachAs_one_revision:
  assumes "\<And>i p i' j. goc key i = (Some p, i') \<Longrightarrow> later i' j \<Longrightarrow> goc key j = (Some p, j) \<and> stamp_of p j = stamp_of p i'"
    and "ReachAs M V key goc stamp_of i = ((Some p, why), i')" and "later i' j"
  shows "\<exists>why'. ReachAs M' V' key goc stamp_of j = ((if M' = M \<and> V' = V then Some p else None, why'), j)
    \<and> (why' = [] \<longleftrightarrow> M' = M \<and> V' = V)"
proof -
  note handed = registry_gate.reach_sound [OF assms(2)]
  then have again: "goc key j = (Some p, j)" and "stamp_of p j = Registry_stamp M V"
    using assms(1) [of i p i' j] assms(3) by simp_all
  then have "stamp_of p j = Registry_stamp M' V' \<longleftrightarrow> M' = M \<and> V' = V"
    by (auto simp: Registry_stamp_def)
  with again registry_gate.reach_spoken [of goc key j p j stamp_of M' V']
    registry_gate.reach_unspoken [of goc key j p j stamp_of M' V'] show ?thesis by auto
qed

theorem ReachAs_one_revision_witness:
  "\<exists>why'. ReachAs 7 2 ''hooks'' (\<lambda>k i. (Some (), i)) (\<lambda>p i. Registry_stamp 7 1) (0 :: nat)
     = ((if (7 :: int) = 7 \<and> (2 :: int) = 1 then Some () else None, why'), 0) \<and> (why' = [] \<longleftrightarrow> (7 :: int) = 7 \<and> (2 :: int) = 1)"
  by (rule ReachAs_one_revision [where later = "(=)" and M = 7 and V = 1 and i = 0 and i' = 0])
    (simp_all add: ReachAs_def Registry_stamp_def)

text \<open>A registration is kept: whatever is added to and removed from a registry, a sink nobody removes stays
  registered as often as it was added, and the sinks nobody removes are handed out in the order of their
  registrations.\<close>

theorem Registry_keeps_sinks:
  assumes "\<And>s. P s \<Longrightarrow> RemoveListener s \<notin> set calls"
  shows "filter P (sinks (fold (listen AddSink RemoveSink) calls r))
    = filter P (sinks r) @ filter P (concat (map (\<lambda>c. case c of AddListener s \<Rightarrow> [s] | RemoveListener s \<Rightarrow> []) calls))"
  by (rule registry_sinks.kept_order) (rule assms)

theorem Registry_keeps_sinks_witness:
  "filter (\<lambda>s. s \<noteq> 2) (sinks (fold (listen AddSink RemoveSink)
     [AddListener 1, AddListener 2, AddListener 3, RemoveListener 2, AddListener 1] (Registry0 7 1))) = [1, 3, 1 :: nat]"
  by (subst Registry_keeps_sinks) (auto simp: Registry0_def hooks_stamp.defs registry.defs)

end
