(* ===== verification/AclAudit.thy ===== *)
theory AclAudit
  imports Hooks "HOL-Library.Product_Lexorder" "HOL-Library.Multiset"
begin

text \<open>
  The audit contract (\<open>contracts/acl_audit.hpp\<close>): the levels and their names, counters keyed by a joined
  string, gauges with readers of one value or of a changing set of rows, the registry, and the rendering of all
  of it for a scrape. What the contract only lays out (events, sinks, policies) has no operation here; a sink
  and a policy are pointers.
\<close>

section \<open>Levels\<close>

datatype ProfileLevel = ProfileOff | ProfileSampled | ProfileAll

datatype AuditLevel = AuditOff | AuditDenied | AuditDecisions | AuditAll

fun audit_value :: "AuditLevel \<Rightarrow> nat" where
  "audit_value AuditOff = 0"
| "audit_value AuditDenied = 1"
| "audit_value AuditDecisions = 2"
| "audit_value AuditAll = 3"

lemma audit_value_inject [simp]: "audit_value a = audit_value b \<longleftrightarrow> a = b"
  by (cases a; cases b) simp_all

instantiation AuditLevel :: linorder
begin

definition less_eq_AuditLevel :: "AuditLevel \<Rightarrow> AuditLevel \<Rightarrow> bool" where
  "less_eq_AuditLevel a b \<longleftrightarrow> audit_value a \<le> audit_value b"

definition less_AuditLevel :: "AuditLevel \<Rightarrow> AuditLevel \<Rightarrow> bool" where
  "less_AuditLevel a b \<longleftrightarrow> audit_value a < audit_value b"

instance
  by standard (auto simp: less_eq_AuditLevel_def less_AuditLevel_def)

end

fun ProfileLevelName :: "ProfileLevel \<Rightarrow> string" where
  "ProfileLevelName ProfileOff = ''off''"
| "ProfileLevelName ProfileSampled = ''sampled''"
| "ProfileLevelName ProfileAll = ''all''"

fun AuditLevelName :: "AuditLevel \<Rightarrow> string" where
  "AuditLevelName AuditOff = ''off''"
| "AuditLevelName AuditDenied = ''denied''"
| "AuditLevelName AuditDecisions = ''decisions''"
| "AuditLevelName AuditAll = ''all''"

text \<open>Both parsers drop blanks, tabs and line ends wherever they stand and lower the ASCII letters.\<close>

definition blank :: "char \<Rightarrow> bool" where
  "blank c \<longleftrightarrow> code_of c \<in> {32, 9, 10, 13}"

definition lowered :: "string \<Rightarrow> string" where
  "lowered s = map tolower (filter (\<lambda>c. \<not> blank c) s)"

definition ParseProfileLevel :: "string \<Rightarrow> ProfileLevel option" where
  "ParseProfileLevel s = (let l = lowered s in
     if l = ''off'' then Some ProfileOff
     else if l = ''sampled'' then Some ProfileSampled
     else if l = ''all'' then Some ProfileAll
     else None)"

definition ParseAuditLevel :: "string \<Rightarrow> AuditLevel option" where
  "ParseAuditLevel s = (let l = lowered s in
     if l = ''off'' then Some AuditOff
     else if l = ''denied'' then Some AuditDenied
     else if l = ''decisions'' then Some AuditDecisions
     else if l = ''all'' then Some AuditAll
     else None)"


section \<open>Counters\<close>

text \<open>The class is \<open>ext_common::Counters\<close> over another key: names and values joined by \<open>=\<close> and a separator.\<close>

type_synonym AuditMetric = Metric
type_synonym AuditCounters = Counters

definition US :: char where
  "US = CHR 0x1F"

fun AuditAttributesKey :: "attributes \<Rightarrow> string" where
  "AuditAttributesKey [] = []"
| "AuditAttributesKey ((name, v) # attributes) = name @ ''='' @ v @ [US] @ AuditAttributesKey attributes"

definition audit_key :: "string \<Rightarrow> attributes \<Rightarrow> string" where
  "audit_key name attributes = name @ [US] @ AuditAttributesKey attributes"

definition AuditCounters_Add :: "string \<Rightarrow> attributes \<Rightarrow> int \<Rightarrow> AuditCounters \<Rightarrow> AuditCounters" where
  "AuditCounters_Add name attributes delta c = counter_add (audit_key name attributes) name attributes delta c"

definition AuditCounters_Get :: "string \<Rightarrow> attributes \<Rightarrow> AuditCounters \<Rightarrow> int" where
  "AuditCounters_Get name attributes c = counter_get (audit_key name attributes) c"

definition AuditCounters_Snapshot :: "AuditCounters \<Rightarrow> AuditMetric list outcome" where
  "AuditCounters_Snapshot c = counter_rows (counts c) (named c)"


section \<open>Gauges\<close>

type_synonym 'w dynamic_reader = "'w \<Rightarrow> (attributes \<times> int) list outcome"

record 'w dynamic =
  dynamic_name :: string
  dynamic_unit :: string
  dynamic_description :: string
  dynamic_reader :: "'w dynamic_reader"

record 'w AuditGauges =
  entries :: "'w gauge list"
  dynamics :: "'w dynamic list"

definition AuditGauges0 :: "'w AuditGauges" where
  "AuditGauges0 = \<lparr>entries = [], dynamics = []\<rparr>"

definition AuditGauges_Register ::
  "string \<Rightarrow> attributes \<Rightarrow> string \<Rightarrow> string \<Rightarrow> 'w reader \<Rightarrow> 'w AuditGauges \<Rightarrow> 'w AuditGauges" where
  "AuditGauges_Register name attributes unit description reader g =
     g\<lparr>entries := entries g @ [\<lparr>gauge_name = name, gauge_attributes = attributes, gauge_unit = unit,
       gauge_description = description, gauge_reader = reader\<rparr>]\<rparr>"

definition RegisterDynamic ::
  "string \<Rightarrow> string \<Rightarrow> string \<Rightarrow> 'w dynamic_reader \<Rightarrow> 'w AuditGauges \<Rightarrow> 'w AuditGauges" where
  "RegisterDynamic name unit description reader g =
     g\<lparr>dynamics := dynamics g @ [\<lparr>dynamic_name = name, dynamic_unit = unit,
       dynamic_description = description, dynamic_reader = reader\<rparr>]\<rparr>"

definition AuditGauges_Remove :: "string \<Rightarrow> 'w AuditGauges \<Rightarrow> 'w AuditGauges" where
  "AuditGauges_Remove name g = g\<lparr>entries := filter (\<lambda>e. gauge_name e \<noteq> name) (entries g),
     dynamics := filter (\<lambda>e. dynamic_name e \<noteq> name) (dynamics g)\<rparr>"

text \<open>Readers run one after the other; the first that throws leaves the snapshot.\<close>

fun fixed_rows :: "'w gauge list \<Rightarrow> 'w \<Rightarrow> AuditMetric list outcome" where
  "fixed_rows [] w = Returns []"
| "fixed_rows (entry # es) w = (case gauge_reader entry w of
     Returns v \<Rightarrow> map_outcome (Cons (gauge_row entry v)) (fixed_rows es w)
   | Throws \<Rightarrow> Throws
   | Hangs \<Rightarrow> Hangs)"

definition dynamic_row :: "'w dynamic \<Rightarrow> attributes \<times> int \<Rightarrow> AuditMetric" where
  "dynamic_row entry row = \<lparr>metric_name = dynamic_name entry, metric_kind = ''gauge'',
     metric_attributes = fst row, metric_value = snd row,
     metric_unit = dynamic_unit entry, metric_description = dynamic_description entry\<rparr>"

fun dynamic_rows :: "'w dynamic list \<Rightarrow> 'w \<Rightarrow> AuditMetric list outcome" where
  "dynamic_rows [] w = Returns []"
| "dynamic_rows (entry # es) w = (case dynamic_reader entry w of
     Returns rows \<Rightarrow> map_outcome (append (map (dynamic_row entry) rows)) (dynamic_rows es w)
   | Throws \<Rightarrow> Throws
   | Hangs \<Rightarrow> Hangs)"

definition AuditGauges_Snapshot :: "'w AuditGauges \<Rightarrow> 'w \<Rightarrow> AuditMetric list outcome" where
  "AuditGauges_Snapshot g w = (case fixed_rows (entries g) w of
     Returns rows \<Rightarrow> map_outcome (append rows) (dynamic_rows (dynamics g) w)
   | Throws \<Rightarrow> Throws
   | Hangs \<Rightarrow> Hangs)"


section \<open>The registry\<close>

definition AUDIT_MAGIC :: int where
  "AUDIT_MAGIC = 0x41434C41"

definition AUDIT_VERSION :: int where
  "AUDIT_VERSION = 3"

record ('s, 'q, 'w) AuditHooks = stamp +
  audit_sinks :: "'s list"
  policy :: "'q option"
  audit_counters :: AuditCounters
  audit_gauges :: "'w AuditGauges"

definition AuditHooks_ObjectType :: string where
  "AuditHooks_ObjectType = ''acl_audit_hooks''"

definition AuditHooks0 :: "('s, 'q, 'w) AuditHooks" where
  "AuditHooks0 = \<lparr>contract_magic = AUDIT_MAGIC, contract_version = AUDIT_VERSION, audit_sinks = [],
     policy = None, audit_counters = Counters0, audit_gauges = AuditGauges0\<rparr>"

definition no_audit_stamp :: string where
  "no_audit_stamp = ''the audit registry carries no contract stamp - created by an extension built from an acl_audit.hpp ''
     @ ''older than the stamp; this build speaks contract version '' @ to_string AUDIT_VERSION"

definition other_audit_version :: "int \<Rightarrow> string" where
  "other_audit_version v = ''the audit registry is stamped with contract version '' @ to_string v
     @ '', this build speaks '' @ to_string AUDIT_VERSION
     @ '' - acl and its extension were built from different revisions of acl_audit.hpp''"

definition AuditHooks_Reach ::
  "('i, 'p) get_or_create \<Rightarrow> ('p \<Rightarrow> 'i \<Rightarrow> stamp) \<Rightarrow> 'i \<Rightarrow> ('p option \<times> string) \<times> 'i" where
  "AuditHooks_Reach GetOrCreate stamp_of i = (case GetOrCreate AuditHooks_ObjectType i of
     (None, i) \<Rightarrow> ((None, held_otherwise AuditHooks_ObjectType), i)
   | (Some hooks, i) \<Rightarrow>
       let s = stamp_of hooks i in
       if contract_magic s \<noteq> AUDIT_MAGIC then ((None, no_audit_stamp), i)
       else if contract_version s \<noteq> AUDIT_VERSION then ((None, other_audit_version (contract_version s)), i)
       else ((Some hooks, []), i))"

definition StampOf :: "('i, 'p) get_or_create \<Rightarrow> ('p \<Rightarrow> 'i \<Rightarrow> stamp) \<Rightarrow> 'i \<Rightarrow> int \<times> 'i" where
  "StampOf GetOrCreate stamp_of i = (case GetOrCreate AuditHooks_ObjectType i of
     (Some hooks, i) \<Rightarrow>
       (if contract_magic (stamp_of hooks i) = AUDIT_MAGIC then contract_version (stamp_of hooks i) else 0, i)
   | (None, i) \<Rightarrow> (0, i))"

definition AuditHooks_AddSink :: "'s \<Rightarrow> ('s, 'q, 'w) AuditHooks \<Rightarrow> ('s, 'q, 'w) AuditHooks" where
  "AuditHooks_AddSink sink h = h\<lparr>audit_sinks := audit_sinks h @ [sink]\<rparr>"

definition AuditHooks_RemoveSink :: "'s \<Rightarrow> ('s, 'q, 'w) AuditHooks \<Rightarrow> ('s, 'q, 'w) AuditHooks" where
  "AuditHooks_RemoveSink sink h = h\<lparr>audit_sinks := erase_first sink (audit_sinks h)\<rparr>"

definition SetSessionPolicy :: "'q option \<Rightarrow> ('s, 'q, 'w) AuditHooks \<Rightarrow> ('s, 'q, 'w) AuditHooks" where
  "SetSessionPolicy policy_p h = h\<lparr>policy := policy_p\<rparr>"

interpretation audit_sink_list: listeners AuditHooks_AddSink AuditHooks_RemoveSink audit_sinks
  by unfold_locales (simp_all add: AuditHooks_AddSink_def AuditHooks_RemoveSink_def)


lemma audit_reasons_nonempty [simp]: "no_audit_stamp \<noteq> []" "other_audit_version v \<noteq> []"
  by (simp_all add: no_audit_stamp_def other_audit_version_def)

definition audit_spoken :: "stamp \<Rightarrow> bool" where
  "audit_spoken s \<longleftrightarrow> contract_magic s = AUDIT_MAGIC \<and> contract_version s = AUDIT_VERSION"

interpretation audit_gate: contract_gate AuditHooks_Reach AuditHooks_ObjectType audit_spoken
  by unfold_locales (auto simp: AuditHooks_Reach_def audit_spoken_def Let_def)


section \<open>The rendering for a scrape\<close>

definition quote_char :: "char \<Rightarrow> string" where
  "quote_char c = (if c = CHR 0x22 \<or> c = CHR 0x5C then [CHR 0x5C, c]
     else if c = CHR 0x0A then [CHR 0x5C, CHR ''n''] else [c])"

definition label_quote :: "string \<Rightarrow> string" where
  "label_quote v = CHR 0x22 # concat (map quote_char v) @ [CHR 0x22]"

definition underscored :: "string \<Rightarrow> string" where
  "underscored name = map (\<lambda>c. if c = CHR ''.'' then CHR ''_'' else c) name"

definition add_label :: "string \<Rightarrow> string \<times> string \<Rightarrow> string" where
  "add_label ls = (\<lambda>(name, v). (if ls = [] then ls else ls @ '','') @ name @ ''='' @ label_quote v)"

definition labels :: "attributes \<Rightarrow> string" where
  "labels attributes = foldl add_label [] attributes"

definition metric_head :: "AuditMetric \<Rightarrow> string" where
  "metric_head m = (if metric_description m = [] then []
      else ''# HELP '' @ underscored (metric_name m) @ '' '' @ metric_description m @ [CHR 0x0A])
    @ ''# TYPE '' @ underscored (metric_name m) @ '' '' @ metric_kind m @ [CHR 0x0A]"

definition metric_sample :: "AuditMetric \<Rightarrow> string" where
  "metric_sample m = underscored (metric_name m)
     @ (let ls = labels (metric_attributes m) in if ls = [] then [] else ''{'' @ ls @ ''}'')
     @ '' '' @ to_string (metric_value m) @ [CHR 0x0A]"

text \<open>\<open>render\<close>, over the text so far and the name rendered last.\<close>

definition render_metric :: "AuditMetric \<Rightarrow> string \<times> string \<Rightarrow> string \<times> string" where
  "render_metric m = (\<lambda>(out, last).
     if metric_name m \<noteq> last then (out @ metric_head m @ metric_sample m, metric_name m)
     else (out @ metric_sample m, last))"

text \<open>\<open>by_name\<close> compares names, then keys. \<open>std::sort\<close> leaves the order of equal rows open; here it is the
  order they came in.\<close>

definition by_name :: "AuditMetric \<Rightarrow> string \<times> string" where
  "by_name m = (metric_name m, AuditAttributesKey (metric_attributes m))"

definition RenderPrometheus :: "('s, 'q, 'w) AuditHooks \<Rightarrow> 'w \<Rightarrow> string outcome" where
  "RenderPrometheus hooks w = (case AuditCounters_Snapshot (audit_counters hooks) of
     Returns counters \<Rightarrow>
       let rendered = fold render_metric (sort_key by_name counters) ([], []) in
       map_outcome (\<lambda>gauges. fst (fold render_metric (sort_key by_name gauges) rendered))
         (AuditGauges_Snapshot (audit_gauges hooks) w)
   | Throws \<Rightarrow> Throws
   | Hangs \<Rightarrow> Hangs)"


section \<open>Labels can be read back\<close>

text \<open>A reader of a label value, after its opening quote: the value and what follows the closing quote.\<close>

fun read_value :: "string \<Rightarrow> (string \<times> string) option" where
  "read_value [] = None"
| "read_value (c # cs) =
     (if c = CHR 0x22 then Some ([], cs)
      else if c = CHR 0x5C then (case cs of
          [] \<Rightarrow> None
        | d # ds \<Rightarrow> map_option (apfst (Cons (if d = CHR ''n'' then CHR 0x0A else d))) (read_value ds))
      else map_option (apfst (Cons c)) (read_value cs))"

lemma read_value_quoted [simp]: "read_value (concat (map quote_char v) @ CHR 0x22 # rest) = Some (v, rest)"
  by (induction v) (auto simp: quote_char_def)

lemma read_value_shorter: "read_value s = Some (v, rest) \<Longrightarrow> length rest < length s"
proof (induction s arbitrary: v rule: read_value.induct)
  case (2 c cs)
  then show ?case by (fastforce split: if_splits list.splits)
qed simp

lemma read_labels_shorter:
  "dropWhile P s = e # q # t \<Longrightarrow> read_value t = Some (v, c # rest) \<Longrightarrow> length rest < length s"
  using read_value_shorter [of t v "c # rest"] length_dropWhile_le [of P s] by simp

text \<open>A reader of labels: each a name up to \<open>=\<close>, a quoted value, and a comma before the next one.\<close>

function read_labels :: "string \<Rightarrow> attributes option" where
  "read_labels s = (case dropWhile (\<lambda>c. c \<noteq> CHR ''='') s of
     _ # q # more_text \<Rightarrow>
       if q \<noteq> CHR 0x22 then None
       else (case read_value more_text of
         None \<Rightarrow> None
       | Some (v, []) \<Rightarrow> Some [(takeWhile (\<lambda>c. c \<noteq> CHR ''='') s, v)]
       | Some (v, c # rest) \<Rightarrow>
           if c = CHR '','' then map_option (Cons (takeWhile (\<lambda>c. c \<noteq> CHR ''='') s, v)) (read_labels rest) else None)
   | _ \<Rightarrow> None)"
  by pat_completeness auto

termination
  by (relation "measure length") (auto dest: read_labels_shorter)

declare read_labels.simps [simp del]

lemma add_label_more: "acc \<noteq> [] \<Longrightarrow> add_label acc a = acc @ CHR '','' # add_label [] a"
  by (cases a) (simp add: add_label_def)

lemma add_label_nonempty [simp]: "add_label acc a \<noteq> []"
  by (cases a) (simp add: add_label_def)

lemma foldl_add_label:
  "acc \<noteq> [] \<Longrightarrow> foldl add_label acc attributes = acc @ concat (map (\<lambda>a. CHR '','' # add_label [] a) attributes)"
  by (induction attributes arbitrary: acc) (simp_all add: add_label_more)

lemma labels_Cons:
  "labels (a # attributes) = add_label [] a @ (if attributes = [] then [] else CHR '','' # labels attributes)"
  by (cases attributes) (simp_all add: labels_def foldl_add_label add_label_more)

lemma read_labels_labels:
  "attributes \<noteq> [] \<Longrightarrow> \<forall>a \<in> set attributes. CHR ''='' \<notin> set (fst a) \<Longrightarrow>
     read_labels (labels attributes) = Some attributes"
proof (induction attributes)
  case (Cons a attributes)
  obtain name v where a: "a = (name, v)" by (cases a)
  with Cons.prems(2) have n: "\<forall>c \<in> set name. c \<noteq> CHR ''=''" by auto
  then have "dropWhile (\<lambda>c. c \<noteq> CHR ''='') (name @ CHR ''='' # r) = CHR ''='' # r"
      and "takeWhile (\<lambda>c. c \<noteq> CHR ''='') (name @ CHR ''='' # r) = name" for r
    by (simp_all add: dropWhile_append takeWhile_append)
  with Cons a show ?case
    by (subst read_labels.simps) (cases "attributes = []"; simp add: labels_Cons add_label_def label_quote_def)
qed simp

lemma quote_char_line: "CHR 0x0A \<notin> set (quote_char c)"
  by (simp add: quote_char_def)

lemma labels_line:
  "\<forall>a \<in> set attributes. CHR 0x0A \<notin> set (fst a) \<Longrightarrow> CHR 0x0A \<notin> set (labels attributes)"
proof (induction attributes)
  case (Cons a attributes)
  then show ?case
    by (cases a) (auto simp: labels_Cons add_label_def label_quote_def quote_char_line)
qed (simp add: labels_def)


section \<open>The rendering groups rows by name\<close>

definition group_name :: "AuditMetric list \<Rightarrow> string" where
  "group_name g = metric_name (hd g)"

lemma group_name_Cons [simp]: "group_name (m # g) = metric_name m"
  by (simp add: group_name_def)

fun runs :: "AuditMetric list \<Rightarrow> AuditMetric list list" where
  "runs [] = []"
| "runs (m # ms) = (case runs ms of
     [] \<Rightarrow> [[m]]
   | g # gs \<Rightarrow> if group_name g = metric_name m then (m # g) # gs else [m] # g # gs)"

definition render_group :: "AuditMetric list \<Rightarrow> string" where
  "render_group g = metric_head (hd g) @ concat (map metric_sample g)"

definition one_name :: "AuditMetric list \<Rightarrow> bool" where
  "one_name g \<longleftrightarrow> g \<noteq> [] \<and> (\<forall>m \<in> set g. metric_name m = group_name g)"

lemma runs_Nil [simp]: "runs ms = [] \<longleftrightarrow> ms = []"
  by (cases ms) (auto split: list.splits)

lemma concat_runs [simp]: "concat (runs ms) = ms"
  by (induction ms) (auto split: list.splits)

lemma runs_one_name: "\<forall>g \<in> set (runs ms). one_name g"
proof (induction ms)
  case (Cons m ms)
  then show ?case by (cases "runs ms") (simp_all add: one_name_def)
qed simp

lemma group_names: "group_name ` set (runs ms) = metric_name ` set ms"
proof (induction ms)
  case (Cons m ms)
  have "group_name ` set (runs (m # ms)) = insert (metric_name m) (group_name ` set (runs ms))"
    by (cases "runs ms") auto
  with Cons show ?case by simp
qed simp

lemma hd_runs: "ms \<noteq> [] \<Longrightarrow> hd (hd (runs ms)) = hd ms"
  by (cases ms) (auto split: list.splits)

lemma sorted_runs:
  "sorted (map metric_name ms) \<Longrightarrow> sorted_wrt (<) (map group_name (runs ms))"
proof (induction ms)
  case (Cons m ms)
  then have ih: "sorted_wrt (<) (map group_name (runs ms))" by simp
  show ?case
  proof (cases "ms = []")
    case False
    then obtain g gs where g: "runs ms = g # gs" by (cases "runs ms") auto
    have "group_name g \<in> metric_name ` set ms"
      using g group_names [of ms] by (metis image_eqI list.set_intros(1))
    with Cons.prems have "metric_name m \<le> group_name g" by auto
    with g ih show ?thesis
      by (cases "group_name g = metric_name m") (auto simp: order_le_less intro: less_trans)
  qed simp
qed simp

text \<open>What \<open>render\<close> appends, given the name rendered last.\<close>

lemma render_runs:
  assumes "ms \<noteq> []"
  shows "fold render_metric ms (out, prev)
    = (out @ (if group_name (hd (runs ms)) \<noteq> prev then metric_head (hd ms) else [])
         @ concat (map metric_sample (hd (runs ms))) @ concat (map render_group (tl (runs ms))),
       metric_name (last ms))"
  using assms
proof (induction ms arbitrary: out prev)
  case (Cons m ms)
  show ?case
  proof (cases "ms = []")
    case True
    then show ?thesis by (simp add: render_metric_def)
  next
    case False
    then obtain g gs where g: "runs ms = g # gs" by (cases "runs ms") auto
    with hd_runs [OF False] have h: "hd g = hd ms" by simp
    show ?thesis
      using False g h Cons.IH [OF False, of "out @ (if metric_name m \<noteq> prev then metric_head m else []) @ metric_sample m" "metric_name m"]
      by (auto simp: render_metric_def render_group_def)
  qed
qed simp

lemma render_groups:
  assumes "prev \<notin> metric_name ` set ms"
  shows "fst (fold render_metric ms (out, prev)) = out @ concat (map render_group (runs ms))"
proof (cases "ms = []")
  case False
  then obtain g gs where g: "runs ms = g # gs" by (cases "runs ms") auto
  then have "group_name g \<in> metric_name ` set ms"
    using group_names [of ms] by (metis image_eqI list.set_intros(1))
  with assms g hd_runs [OF False] render_runs [OF False, of out prev] show ?thesis
    by (auto simp: render_group_def)
qed simp

lemma sort_by_name_sorted: "sorted (map metric_name (sort_key by_name ms))"
proof -
  have "sorted (map by_name (sort_key by_name ms))" by simp
  moreover have "by_name a \<le> by_name b \<Longrightarrow> metric_name a \<le> metric_name b" for a b
    by (auto simp: by_name_def less_eq_prod_def order_le_less)
  ultimately show ?thesis by (simp add: sorted_map sorted_wrt_mono_rel [rotated])
qed

lemma distinct_groups: "distinct (map group_name (runs (sort_key by_name ms)))"
  using sorted_runs [OF sort_by_name_sorted] by (simp add: strict_sorted_iff)


section \<open>Keys in use\<close>

text \<open>Tuples the joined key tells apart: no separator anywhere and no \<open>=\<close> in a name.\<close>

definition legal_tuple :: "string \<Rightarrow> attributes \<Rightarrow> bool" where
  "legal_tuple n xs \<longleftrightarrow> US \<notin> set n
     \<and> list_all (\<lambda>(name, v). US \<notin> set name \<and> CHR ''='' \<notin> set name \<and> US \<notin> set v) xs"

lemma US_sign [simp]: "US \<noteq> CHR ''=''" "CHR ''='' \<noteq> US"
  by (simp_all add: US_def)

lemma AuditAttributesKey_inject:
  "legal_tuple n xs \<Longrightarrow> legal_tuple m ys \<Longrightarrow> AuditAttributesKey xs = AuditAttributesKey ys \<longleftrightarrow> xs = ys"
proof (induction xs arbitrary: ys rule: AuditAttributesKey.induct)
  case 1
  show ?case by (cases ys rule: AuditAttributesKey.cases) simp_all
next
  case (2 name v attributes)
  then show ?case
    by (cases ys rule: AuditAttributesKey.cases) (simp_all add: separator_inject legal_tuple_def)
qed

lemma audit_key_inject:
  "legal_tuple n xs \<Longrightarrow> legal_tuple m ys \<Longrightarrow> audit_key n xs = audit_key m ys \<longleftrightarrow> n = m \<and> xs = ys"
  using AuditAttributesKey_inject [of n xs m ys]
  by (simp add: audit_key_def separator_inject legal_tuple_def)

interpretation audit_store: counter_store audit_key legal_tuple
  by unfold_locales (rule audit_key_inject)

lemma AuditCounters_all: "fold (\<lambda>(n, xs, d). AuditCounters_Add n xs d) adds Counters0 = count_all audit_key adds Counters0"
  by (simp add: count_all_def AuditCounters_Add_def [abs_def])

lemma AuditCounters_Snapshot_eq: "AuditCounters_Snapshot = Counters_Snapshot"
  by (rule ext) (simp add: AuditCounters_Snapshot_def Counters_Snapshot_def)


lemma fixed_names: "fixed_rows es w = Returns rows \<Longrightarrow> metric_name ` set rows \<subseteq> gauge_name ` set es"
proof (induction es arbitrary: rows)
  case (Cons e es)
  then obtain v rest where "fixed_rows es w = Returns rest" and "rows = gauge_row e v # rest"
    by (auto simp: map_outcome_Returns split: outcome.splits)
  with Cons.IH [of rest] show ?case by (auto simp: gauge_row_def)
qed simp

lemma dynamic_names: "dynamic_rows es w = Returns rows \<Longrightarrow> metric_name ` set rows \<subseteq> dynamic_name ` set es"
proof (induction es arbitrary: rows)
  case (Cons e es)
  then obtain vs rest where "dynamic_rows es w = Returns rest" and "rows = map (dynamic_row e) vs @ rest"
    by (auto simp: map_outcome_Returns split: outcome.splits)
  with Cons.IH [of rest] show ?case by (auto simp: dynamic_row_def)
qed simp


lemma lowered_names:
  "lowered ''off'' = ''off''" "lowered ''denied'' = ''denied''" "lowered ''decisions'' = ''decisions''"
  "lowered ''all'' = ''all''" "lowered ''sampled'' = ''sampled''"
  by code_simp+


section \<open>Properties\<close>

text \<open>Audit counters are sums by tuple, as long as no name or value holds the separator byte and no attribute name
  holds \<open>=\<close>: \<open>Get\<close> gives the sum added under exactly that name and attribute list, and the snapshot does not throw
  and has one row for each tuple added, with its sum.\<close>

theorem AuditCounters_sums:
  fixes adds :: "addition list"
  defines "c \<equiv> fold (\<lambda>(n, xs, d). AuditCounters_Add n xs d) adds Counters0"
  assumes "added adds \<subseteq> Collect (case_prod legal_tuple)" and "legal_tuple n xs"
  shows "AuditCounters_Get n xs c = total adds n xs \<and>
    (\<exists>rows. AuditCounters_Snapshot c = Returns rows \<and> distinct (map tuple_of rows)
      \<and> (\<lambda>m. (tuple_of m, metric_value m)) ` set rows = (\<lambda>t. (t, case_prod (total adds) t)) ` added adds)"
  unfolding c_def AuditCounters_all AuditCounters_Get_def AuditCounters_Snapshot_eq
  using audit_store.get_total [OF assms(2,3)] audit_store.snapshot_totals [OF assms(2)] by simp

theorem AuditCounters_sums_witness:
  "AuditCounters_Get ''acl.statements'' [(''door'', ''quack'')]
     (fold (\<lambda>(n, xs, d). AuditCounters_Add n xs d)
       [(''acl.statements'', [(''door'', ''quack'')], 2), (''acl.statements'', [(''door'', ''flight'')], 5),
        (''acl.statements'', [(''door'', ''quack'')], 1)] Counters0) = 3"
  using AuditCounters_sums [of "[(''acl.statements'', [(''door'', ''quack'')], 2),
      (''acl.statements'', [(''door'', ''flight'')], 5), (''acl.statements'', [(''door'', ''quack'')], 1)]"
      "''acl.statements''" "[(''door'', ''quack'')]"]
  by (simp add: added_def legal_tuple_def total_def US_def)

text \<open>Without that condition audit counters mix tuples: two attribute lists that differ only in where a name ends
  share one counter, and the snapshot shows the sum of both under the tuple added first.\<close>

theorem AuditCounters_mix:
  fixes k k' v :: string
  defines "one \<equiv> [(k, k' @ ''='' @ v)]" and "other \<equiv> [(k @ ''='' @ k', v)]"
  shows "one \<noteq> other \<and> AuditCounters_Snapshot (AuditCounters_Add n other e (AuditCounters_Add n one d Counters0))
    = Returns [counter_row n one (d + e)]"
  by (simp add: one_def other_def AuditCounters_Add_def audit_key_def counter_add_def Counters0_def
      AuditCounters_Snapshot_def)

text \<open>After \<open>Remove\<close> no reader of that name runs: the snapshot is the same whatever the removed readers would have
  done, throwing included, and it has no row of that name.\<close>

theorem AuditGauges_removed:
  "AuditGauges_Snapshot (AuditGauges_Remove name g) w
     = AuditGauges_Snapshot (AuditGauges_Remove name
         (g\<lparr>entries := map (\<lambda>e. if gauge_name e = name then e\<lparr>gauge_reader := r\<rparr> else e) (entries g),
            dynamics := map (\<lambda>e. if dynamic_name e = name then e\<lparr>dynamic_reader := r'\<rparr> else e) (dynamics g)\<rparr>)) w
   \<and> (case AuditGauges_Snapshot (AuditGauges_Remove name g) w of
        Returns rows \<Rightarrow> name \<notin> metric_name ` set rows | _ \<Rightarrow> True)"
proof
  have "filter (\<lambda>e. gauge_name e \<noteq> name) (map (\<lambda>e. if gauge_name e = name then e\<lparr>gauge_reader := r\<rparr> else e) es)
      = filter (\<lambda>e. gauge_name e \<noteq> name) es" for es :: "'a gauge list"
    by (induction es) simp_all
  moreover have "filter (\<lambda>e. dynamic_name e \<noteq> name) (map (\<lambda>e. if dynamic_name e = name then e\<lparr>dynamic_reader := r'\<rparr> else e) es)
      = filter (\<lambda>e. dynamic_name e \<noteq> name) es" for es :: "'a dynamic list"
    by (induction es) simp_all
  ultimately show "AuditGauges_Snapshot (AuditGauges_Remove name g) w = AuditGauges_Snapshot (AuditGauges_Remove name
      (g\<lparr>entries := map (\<lambda>e. if gauge_name e = name then e\<lparr>gauge_reader := r\<rparr> else e) (entries g),
         dynamics := map (\<lambda>e. if dynamic_name e = name then e\<lparr>dynamic_reader := r'\<rparr> else e) (dynamics g)\<rparr>)) w"
    by (simp add: AuditGauges_Remove_def)
  show "case AuditGauges_Snapshot (AuditGauges_Remove name g) w of
      Returns rows \<Rightarrow> name \<notin> metric_name ` set rows | _ \<Rightarrow> True"
    using fixed_names [of "filter (\<lambda>e. gauge_name e \<noteq> name) (entries g)" w]
      dynamic_names [of "filter (\<lambda>e. dynamic_name e \<noteq> name) (dynamics g)" w]
    by (fastforce simp: AuditGauges_Snapshot_def AuditGauges_Remove_def map_outcome_Returns split: outcome.splits)
qed


text \<open>C37: The labels of a rendered row can be read back: for attribute names without \<open>=\<close> and line ends, the label
  text is one line from which a reader that undoes the escapes gives the attribute list, whatever bytes the values
  hold (quotes, backslashes, commas, braces, line ends).\<close>

theorem labels_roundtrip:
  assumes "attributes \<noteq> []" and "\<forall>a \<in> set attributes. CHR ''='' \<notin> set (fst a) \<and> CHR 0x0A \<notin> set (fst a)"
  shows "read_labels (labels attributes) = Some attributes \<and> CHR 0x0A \<notin> set (labels attributes)"
  using assms by (simp add: read_labels_labels labels_line)

theorem labels_roundtrip_witness:
  "read_labels (labels [(''door'', ''a,b}'' @ [CHR 0x22, CHR 0x0A, CHR 0x5C]), (''kind'', [])])
    = Some [(''door'', ''a,b}'' @ [CHR 0x22, CHR 0x0A, CHR 0x5C]), (''kind'', [])]"
  by (rule labels_roundtrip [THEN conjunct1]) simp_all


definition sample_hooks :: "(nat, nat, int) AuditHooks" where
  "sample_hooks = AuditHooks0\<lparr>
     audit_counters := AuditCounters_Add ''acl.denied'' [(''door'', ''quack'')] 2
       (AuditCounters_Add ''acl.denied'' [] 1 Counters0),
     audit_gauges := AuditGauges_Register ''acl.sessions'' [] ''1'' ''open'' (\<lambda>n. Returns n) AuditGauges0\<rparr>"


text \<open>The level parsers accept exactly the names: a text gives a level when its letters, lowered and without blanks,
  tabs and line ends wherever those stand, spell the level's name; the name of every level gives it back.\<close>

theorem ParseLevel_names:
  "(ParseAuditLevel s = Some l \<longleftrightarrow> lowered s = AuditLevelName l) \<and> ParseAuditLevel (AuditLevelName l) = Some l
   \<and> (ParseProfileLevel s = Some p \<longleftrightarrow> lowered s = ProfileLevelName p) \<and> ParseProfileLevel (ProfileLevelName p) = Some p"
proof -
  have "ParseAuditLevel s = Some l \<longleftrightarrow> lowered s = AuditLevelName l" for s
    by (cases l) (auto simp: ParseAuditLevel_def Let_def)
  moreover have "ParseProfileLevel s = Some p \<longleftrightarrow> lowered s = ProfileLevelName p" for s
    by (cases p) (auto simp: ParseProfileLevel_def Let_def)
  moreover have "lowered (AuditLevelName l) = AuditLevelName l" and "lowered (ProfileLevelName p) = ProfileLevelName p"
    by (cases l; simp add: lowered_names) (cases p; simp add: lowered_names)
  ultimately show ?thesis by simp
qed

text \<open>Blanks inside a word are dropped as well.\<close>

lemma ParseAuditLevel_inner_blanks: "ParseAuditLevel ''d e n i e d'' = Some AuditDenied"
  by code_simp

text \<open>The stamp read for a gauge agrees with the gate: \<open>StampOf\<close> gives the version this build speaks exactly when
  \<open>Reach\<close> hands the registry out.\<close>

theorem StampOf_agrees:
  "fst (StampOf goc stamp_of i) = AUDIT_VERSION \<longleftrightarrow> fst (fst (AuditHooks_Reach goc stamp_of i)) \<noteq> None"
  by (auto simp: StampOf_def AuditHooks_Reach_def AUDIT_VERSION_def Let_def split: prod.splits option.splits)


text \<open>C39: Audit counters are well formed whatever is counted: even for tuples whose joined keys collide, both maps of
  the counters have the same keys after any sequence of \<open>Add\<close>, so the snapshot's \<open>keys.at\<close> never throws; its rows
  are distinct tuples that were added.\<close>

theorem AuditCounters_typed:
  "\<exists>rows. AuditCounters_Snapshot (fold (\<lambda>(n, xs, d). AuditCounters_Add n xs d) adds Counters0) = Returns rows
    \<and> distinct (map tuple_of rows) \<and> tuple_of ` set rows \<subseteq> added adds"
proof (intro exI conjI)
  let ?c = "fold (\<lambda>(n, xs, d). AuditCounters_Add n xs d) adds Counters0"
  have ok: "counters_ok audit_key (added adds) ?c"
    unfolding AuditCounters_all by (rule counters_ok_all)
  show "AuditCounters_Snapshot ?c = Returns (map (row_of ?c) (counts ?c))"
    unfolding AuditCounters_Snapshot_eq by (rule Snapshot_returns [OF ok])
  show "distinct (map tuple_of (map (row_of ?c) (counts ?c)))" by (rule rows_distinct [OF ok])
  show "tuple_of ` set (map (row_of ?c) (counts ?c)) \<subseteq> added adds"
    using tuple_of_row(1) [OF ok] by auto
qed

end
