(* ===== verification/Connection.thy ===== *)
theory Connection
  imports Hooks
begin

text \<open>
  Whose session a statement runs under (\<open>contracts/acl_connection.hpp\<close>, \<open>contracts/acl_principal.hpp\<close>): the state
  of a connection, which acl writes and everyone else reads, and the registry of the observers of session opens
  and closes. Every operation runs under its object's lock.
\<close>

section \<open>Principals and views\<close>

text \<open>The claims are a map whose keys are compared without case.\<close>

record Principal =
  subject :: string
  principal_issuer :: string
  roles :: "string list"
  claims :: "string \<rightharpoonup> string"
  ingest_stream :: string
  arrow_ingest :: bool
  session_connection :: bool
  principal_session :: string

definition Principal0 :: Principal where
  "Principal0 = \<lparr>subject = [], principal_issuer = [], roles = [], claims = Map.empty, ingest_stream = [],
     arrow_ingest = False, session_connection = False, principal_session = []\<rparr>"

record AclSessionView =
  session_id :: string
  principal :: Principal
  door :: string
  opened_at :: int
  session_expires_at :: int
  correlation_id :: string
  traceparent :: string

definition AclSessionView0 :: AclSessionView where
  "AclSessionView0 = \<lparr>session_id = [], principal = Principal0, door = [], opened_at = 0, session_expires_at = 0,
     correlation_id = [], traceparent = []\<rparr>"

definition ACL_CONNECTION_MAGIC :: int where
  "ACL_CONNECTION_MAGIC = 0x41434C43"

definition ACL_CONNECTION_VERSION :: int where
  "ACL_CONNECTION_VERSION = 2"


section \<open>The state of a connection\<close>

record AclConnection = stamp +
  active :: bool
  view :: AclSessionView

definition AclConnection0 :: AclConnection where
  "AclConnection0 = \<lparr>contract_magic = ACL_CONNECTION_MAGIC, contract_version = ACL_CONNECTION_VERSION,
     active = False, view = AclSessionView0\<rparr>"

definition StateKey :: string where
  "StateKey = ''acl_connection''"

definition another_connection_contract :: "string \<Rightarrow> int \<Rightarrow> string" where
  "another_connection_contract what v = what @ '' stamped with another acl_connection contract ('' @ to_string v
     @ ''); this build speaks '' @ to_string ACL_CONNECTION_VERSION"

definition connection_spoken :: "stamp \<Rightarrow> bool" where
  "connection_spoken s \<longleftrightarrow> \<not> (contract_magic s \<noteq> ACL_CONNECTION_MAGIC \<or> contract_version s \<noteq> ACL_CONNECTION_VERSION)"

definition AclConnection_Reach ::
  "('i, 'p) get_or_create \<Rightarrow> ('p \<Rightarrow> 'i \<Rightarrow> stamp) \<Rightarrow> 'i \<Rightarrow> ('p option \<times> string) \<times> 'i" where
  "AclConnection_Reach GetOrCreate stamp_of i = (case GetOrCreate StateKey i of
     (None, i) \<Rightarrow> ((None, ''no connection state under '' @ key_quoted StateKey), i)
   | (Some state, i) \<Rightarrow>
       if \<not> connection_spoken (stamp_of state i)
       then ((None, another_connection_contract (''the connection state under '' @ key_quoted StateKey @ '' is'')
              (contract_version (stamp_of state i))), i)
       else ((Some state, []), i))"

text \<open>\<open>Current\<close> fills its argument and is true, or leaves it and is false.\<close>

definition AclConnection_Current :: "AclConnection \<Rightarrow> AclSessionView option" where
  "AclConnection_Current c = (if \<not> active c then None else Some (view c))"

definition Publish :: "AclSessionView \<Rightarrow> AclConnection \<Rightarrow> AclConnection" where
  "Publish session c = c\<lparr>view := session, active := True\<rparr>"

definition Withdraw :: "AclConnection \<Rightarrow> AclConnection" where
  "Withdraw c = c\<lparr>view := AclSessionView0, active := False\<rparr>"

interpretation connection_gate: contract_gate AclConnection_Reach StateKey connection_spoken
  by unfold_locales (auto simp: AclConnection_Reach_def another_connection_contract_def)


section \<open>Observers of sessions\<close>

record SessionOpenInfo =
  info_session_id :: string
  info_principal :: Principal
  info_door :: string
  token_issuer :: string
  info_opened_at :: int
  info_expires_at :: int

record 'o AclSessionHooks = stamp +
  observers :: "'o list"
  publisher :: string

definition AclSessionHooks0 :: "'o AclSessionHooks" where
  "AclSessionHooks0 = \<lparr>contract_magic = ACL_CONNECTION_MAGIC, contract_version = ACL_CONNECTION_VERSION,
     observers = [], publisher = []\<rparr>"

definition AclSessionHooks_ObjectType :: string where
  "AclSessionHooks_ObjectType = ''acl_session_hooks''"

definition AclSessionHooks_Reach ::
  "('i, 'p) get_or_create \<Rightarrow> ('p \<Rightarrow> 'i \<Rightarrow> stamp) \<Rightarrow> 'i \<Rightarrow> ('p option \<times> string) \<times> 'i" where
  "AclSessionHooks_Reach GetOrCreate stamp_of i = (case GetOrCreate AclSessionHooks_ObjectType i of
     (None, i) \<Rightarrow> ((None, held_otherwise AclSessionHooks_ObjectType), i)
   | (Some hooks, i) \<Rightarrow>
       if \<not> connection_spoken (stamp_of hooks i)
       then ((None, another_connection_contract ''the session hooks are'' (contract_version (stamp_of hooks i))), i)
       else ((Some hooks, []), i))"

definition AddObserver :: "'o \<Rightarrow> 'o AclSessionHooks \<Rightarrow> 'o AclSessionHooks" where
  "AddObserver observer h = h\<lparr>observers := observers h @ [observer]\<rparr>"

definition RemoveObserver :: "'o \<Rightarrow> 'o AclSessionHooks \<Rightarrow> 'o AclSessionHooks" where
  "RemoveObserver observer h = h\<lparr>observers := erase_first observer (observers h)\<rparr>"

definition MarkPublisher :: "string \<Rightarrow> 'o AclSessionHooks \<Rightarrow> 'o AclSessionHooks" where
  "MarkPublisher who h = h\<lparr>publisher := who\<rparr>"

definition Publisher :: "'o AclSessionHooks \<Rightarrow> bool \<times> string" where
  "Publisher h = (publisher h \<noteq> [], publisher h)"

interpretation session_gate: contract_gate AclSessionHooks_Reach AclSessionHooks_ObjectType connection_spoken
  by unfold_locales (auto simp: AclSessionHooks_Reach_def another_connection_contract_def)

interpretation session_observers: listeners AddObserver RemoveObserver observers
  by unfold_locales (simp_all add: AddObserver_def RemoveObserver_def)


section \<open>What a connection shows\<close>

text \<open>acl's calls on a connection, and the view they leave: the one published last, unless withdrawn since.\<close>

datatype connection_call = PublishCall AclSessionView | WithdrawCall

fun connection_step :: "connection_call \<Rightarrow> AclConnection \<Rightarrow> AclConnection" where
  "connection_step (PublishCall v) c = Publish v c"
| "connection_step WithdrawCall c = Withdraw c"

fun left_view :: "connection_call list \<Rightarrow> AclSessionView option" where
  "left_view [] = None"
| "left_view (PublishCall v # earlier) = Some v"
| "left_view (WithdrawCall # earlier) = None"

text \<open>A connection shows the session of the running statement and keeps no other: after any calls of acl,
  \<open>Current\<close> gives the view published last unless it was withdrawn, and the whole object is the fresh one but for
  that view, so nothing of an earlier principal stays behind a withdrawal or a second publication.\<close>

theorem connection_keeps_one_view:
  defines "shown calls \<equiv> fold connection_step calls AclConnection0"
  shows "AclConnection_Current (shown calls) = left_view (rev calls)
    \<and> shown calls = (case left_view (rev calls) of
        None \<Rightarrow> AclConnection0
      | Some v \<Rightarrow> AclConnection0\<lparr>active := True, view := v\<rparr>)"
proof -
  have "shown calls = (case left_view (rev calls) of
        None \<Rightarrow> AclConnection0
      | Some v \<Rightarrow> AclConnection0\<lparr>active := True, view := v\<rparr>)"
  proof (induction calls rule: rev_induct)
    case (snoc call calls)
    have "shown (calls @ [call]) = connection_step call (shown calls)" by (simp add: shown_def)
    with snoc show ?case
      by (cases call) (auto simp: AclConnection0_def Publish_def Withdraw_def split: option.splits)
  qed (simp add: shown_def)
  then show ?thesis by (auto simp: AclConnection_Current_def AclConnection0_def split: option.splits)
qed

end
