(* ===== verification/Delivery.thy ===== *)
theory Delivery
  imports Hooks
begin

text \<open>
  The producer's side of delivery (\<open>Delivery\<close> of \<open>hooks/ext_hooks.hpp\<close>): a bounded queue and one thread that
  hands each event to the sinks. The members of \<open>State\<close> are a record, with where the delivery thread is and the
  notifications its callers still owe: \<open>Push\<close> and \<open>Stop\<close> notify after they release the lock, so other steps may
  come between. Every critical section is one step; steps of producers, of the thread that stops and of the
  delivery thread interleave as they like, and a step carries as its label what can be seen of it.

  A sink is a pointer. What the functions the producer gave answer is part of a step, thrown exceptions
  included; one that does not come back leaves the thread where it is. \<open>Tally\<close> calls the count function outside
  the lock and swallows what it throws: the labels say where it is called. The thread is joinable whenever \<open>Stop\<close>
  gets past its first check, since only \<open>Stop\<close> joins or detaches it and gets past that check once.
\<close>

datatype ('e, 's) thread_phase =
    Checking                 \<comment> \<open>about to evaluate the predicate of the wait, under the lock\<close>
  | Asleep                   \<comment> \<open>blocked in the wait\<close>
  | Fetching 'e              \<comment> \<open>an event taken, the sinks not asked for yet\<close>
  | Handing 'e "'s list"     \<comment> \<open>the sinks the event still goes to\<close>
  | Finishing                \<comment> \<open>the loop is left\<close>
  | Flushing "'s list"       \<comment> \<open>the sinks still to flush\<close>
  | Ended

record ('e, 's) delivery =
  capacity :: nat
  queue :: "'e list"
  stopping :: bool
  worker :: "('e, 's) thread_phase"
  owed :: nat

definition Delivery0 :: "nat \<Rightarrow> ('e, 's) delivery" where
  "Delivery0 size_limit = \<lparr>capacity = size_limit, queue = [], stopping = False, worker = Checking, owed = 0\<rparr>"


section \<open>The critical sections\<close>

definition Push :: "'e \<Rightarrow> ('e, 's) delivery \<Rightarrow> bool \<times> ('e, 's) delivery" where
  "Push event d = (if \<not> stopping d \<and> length (queue d) < capacity d
     then (True, d\<lparr>queue := queue d @ [event], owed := owed d + 1\<rparr>)
     else (False, d))"

text \<open>\<open>notify_one\<close> and \<open>notify_all\<close>: only the delivery thread waits. A notification finds it asleep or is lost.\<close>

definition notify :: "('e, 's) delivery \<Rightarrow> ('e, 's) delivery" where
  "notify d = d\<lparr>owed := owed d - 1, worker := (if worker d = Asleep then Checking else worker d)\<rparr>"

text \<open>How \<open>Stop\<close> ends: at once when delivery was stopped before or on the delivery thread, which it lets go, and
  otherwise by waiting for that thread.\<close>

datatype stopped = AlreadyStopped | Detached | Joining

definition Stop :: "bool \<Rightarrow> ('e, 's) delivery \<Rightarrow> stopped \<times> ('e, 's) delivery" where
  "Stop on_worker d = (if stopping d then (AlreadyStopped, d)
     else (if on_worker then Detached else Joining, d\<lparr>stopping := True, owed := owed d + 1\<rparr>))"

text \<open>The predicate of the wait, and what the thread does when it holds.\<close>

definition check_queue :: "('e, 's) delivery \<Rightarrow> ('e, 's) delivery" where
  "check_queue d = (if \<not> (stopping d \<or> queue d \<noteq> []) then d\<lparr>worker := Asleep\<rparr>
     else case queue d of
       [] \<Rightarrow> d\<lparr>worker := Finishing\<rparr>
     | event # events \<Rightarrow> d\<lparr>worker := Fetching event, queue := events\<rparr>)"

text \<open>The sinks there are now: none without a function or when it throws.\<close>

definition Current :: "'s list outcome option \<Rightarrow> 's list" where
  "Current answer = (case answer of Some (Returns ss) \<Rightarrow> ss | _ \<Rightarrow> [])"


section \<open>Steps\<close>

datatype ('e, 's) act =
    Pushed 'e bool            \<comment> \<open>a \<open>Push\<close> and its answer; refused, it tallies \<open>dropped\<close>\<close>
  | Stopped bool stopped
  | Notified
  | Woke                      \<comment> \<open>a spurious wake-up\<close>
  | Checked
  | Asked 'e "'s list"        \<comment> \<open>the sinks an event goes to\<close>
  | OnEvent 's 'e bool        \<comment> \<open>a sink's call, and whether it threw: then it tallies \<open>sink_failed\<close>\<close>
  | Handed
  | AskedLast "'s list"
  | Flush 's
  | Finished

definition in_callback :: "('e, 's) thread_phase \<Rightarrow> bool" where
  "in_callback p \<longleftrightarrow> (case p of Checking \<Rightarrow> False | Asleep \<Rightarrow> False | Ended \<Rightarrow> False | _ \<Rightarrow> True)"

inductive delivery_step :: "('e, 's) act \<Rightarrow> ('e, 's) delivery \<Rightarrow> ('e, 's) delivery \<Rightarrow> bool" where
  push: "Push event d = (accepted, d') \<Longrightarrow> delivery_step (Pushed event accepted) d d'"
| stop: "Stop on_worker d = (how, d') \<Longrightarrow> (on_worker \<Longrightarrow> in_callback (worker d)) \<Longrightarrow>
    delivery_step (Stopped on_worker how) d d'"
| notified: "owed d > 0 \<Longrightarrow> delivery_step Notified d (notify d)"
| woke: "worker d = Asleep \<Longrightarrow> delivery_step Woke d (d\<lparr>worker := Checking\<rparr>)"
| checked: "worker d = Checking \<Longrightarrow> delivery_step Checked d (check_queue d)"
| asked: "worker d = Fetching event \<Longrightarrow> answer \<noteq> Some Hangs \<Longrightarrow>
    delivery_step (Asked event (Current answer)) d (d\<lparr>worker := Handing event (Current answer)\<rparr>)"
| on_event: "worker d = Handing event (sink # rest) \<Longrightarrow>
    delivery_step (OnEvent sink event threw) d (d\<lparr>worker := Handing event rest\<rparr>)"
| handed: "worker d = Handing event [] \<Longrightarrow> delivery_step Handed d (d\<lparr>worker := Checking\<rparr>)"
| asked_last: "worker d = Finishing \<Longrightarrow> answer \<noteq> Some Hangs \<Longrightarrow>
    delivery_step (AskedLast (Current answer)) d (d\<lparr>worker := Flushing (Current answer)\<rparr>)"
| flush: "worker d = Flushing (sink # rest) \<Longrightarrow> delivery_step (Flush sink) d (d\<lparr>worker := Flushing rest\<rparr>)"
| finished: "worker d = Flushing [] \<Longrightarrow> delivery_step Finished d (d\<lparr>worker := Ended\<rparr>)"

inductive_cases PushedE: "delivery_step (Pushed event accepted) d d'"

inductive_simps delivery_step_simps:
  "delivery_step (Pushed event accepted) d d'" "delivery_step (Stopped on_worker how) d d'"
  "delivery_step Notified d d'" "delivery_step Woke d d'" "delivery_step Checked d d'"
  "delivery_step (Asked event ss) d d'" "delivery_step (OnEvent sink event threw) d d'"
  "delivery_step Handed d d'" "delivery_step (AskedLast ss) d d'" "delivery_step (Flush sink) d d'"
  "delivery_step Finished d d'"

text \<open>A run of a delivery: the steps since its construction, in order.\<close>

inductive delivery_run :: "nat \<Rightarrow> ('e, 's) act list \<Rightarrow> ('e, 's) delivery \<Rightarrow> bool" for limit where
  start: "delivery_run limit [] (Delivery0 limit)"
| next_step: "delivery_run limit acts d \<Longrightarrow> delivery_step a d d' \<Longrightarrow> delivery_run limit (acts @ [a]) d'"


section \<open>What a run has shown\<close>

definition accepted :: "('e, 's) act list \<Rightarrow> 'e list" where
  "accepted acts = concat (map (\<lambda>a. case a of Pushed event True \<Rightarrow> [event] | _ \<Rightarrow> []) acts)"

definition rounds :: "('e, 's) act list \<Rightarrow> ('e \<times> 's list) list" where
  "rounds acts = concat (map (\<lambda>a. case a of Asked event ss \<Rightarrow> [(event, ss)] | _ \<Rightarrow> []) acts)"

definition last_round :: "('e, 's) act list \<Rightarrow> 's list" where
  "last_round acts = concat (map (\<lambda>a. case a of AskedLast ss \<Rightarrow> ss | _ \<Rightarrow> []) acts)"

text \<open>The calls the sinks saw: an event's call or (\<open>None\<close>) the flush.\<close>

definition calls :: "('e, 's) act list \<Rightarrow> ('s \<times> 'e option) list" where
  "calls acts = concat (map (\<lambda>a. case a of
     OnEvent s event threw \<Rightarrow> [(s, Some event)] | Flush s \<Rightarrow> [(s, None)] | _ \<Rightarrow> []) acts)"

definition round_calls :: "'e \<times> 's list \<Rightarrow> ('s \<times> 'e option) list" where
  "round_calls = (\<lambda>(event, ss). map (\<lambda>s. (s, Some event)) ss)"

lemmas shown_defs = accepted_def rounds_def last_round_def calls_def

lemma shown_Nil [simp]: "accepted [] = []" "rounds [] = []" "last_round [] = []" "calls [] = []"
  by (simp_all add: shown_defs)

lemma shown_snoc:
  "accepted (acts @ [a]) = accepted acts @ (case a of Pushed event True \<Rightarrow> [event] | _ \<Rightarrow> [])"
  "rounds (acts @ [a]) = rounds acts @ (case a of Asked event ss \<Rightarrow> [(event, ss)] | _ \<Rightarrow> [])"
  "last_round (acts @ [a]) = last_round acts @ (case a of AskedLast ss \<Rightarrow> ss | _ \<Rightarrow> [])"
  "calls (acts @ [a]) = calls acts @ (case a of
     OnEvent s event threw \<Rightarrow> [(s, Some event)] | Flush s \<Rightarrow> [(s, None)] | _ \<Rightarrow> [])"
  by (simp_all add: shown_defs)


section \<open>The invariant of a run\<close>

fun in_flight :: "('e, 's) thread_phase \<Rightarrow> 'e list" where
  "in_flight (Fetching event) = [event]"
| "in_flight _ = []"

fun to_call :: "('e, 's) thread_phase \<Rightarrow> ('s \<times> 'e option) list" where
  "to_call (Handing event ss) = map (\<lambda>s. (s, Some event)) ss"
| "to_call (Flushing ss) = map (\<lambda>s. (s, None)) ss"
| "to_call _ = []"

definition leaving :: "('e, 's) thread_phase \<Rightarrow> bool" where
  "leaving p \<longleftrightarrow> p = Finishing \<or> p = Ended \<or> (\<exists>ss. p = Flushing ss)"

text \<open>The queue keeps its bound; the thread leaves only when stopped and drained; asleep with work to do, it is
  owed a notification; every accepted event is in a round, in the thread's hand or in the queue, in the order of
  the pushes; and the sinks were called as the rounds say, but for the calls still to make.\<close>

definition delivery_inv :: "nat \<Rightarrow> ('e, 's) act list \<Rightarrow> ('e, 's) delivery \<Rightarrow> bool" where
  "delivery_inv limit acts d \<longleftrightarrow> capacity d = limit \<and> length (queue d) \<le> limit
     \<and> (leaving (worker d) \<longrightarrow> stopping d \<and> queue d = [])
     \<and> (worker d = Asleep \<longrightarrow> stopping d \<or> queue d \<noteq> [] \<longrightarrow> 0 < owed d)
     \<and> accepted acts = map fst (rounds acts) @ in_flight (worker d) @ queue d
     \<and> calls acts @ to_call (worker d) = concat (map round_calls (rounds acts)) @ map (\<lambda>s. (s, None)) (last_round acts)
     \<and> (last_round acts \<noteq> [] \<longrightarrow> worker d = Ended \<or> (\<exists>ss. worker d = Flushing ss))"

lemma delivery_inv_start: "delivery_inv limit [] (Delivery0 limit)"
  by (simp add: delivery_inv_def Delivery0_def leaving_def)

lemma delivery_inv_step:
  assumes "delivery_step a d d'" and "delivery_inv limit acts d"
  shows "delivery_inv limit (acts @ [a]) d'"
  using assms
proof cases
  case (push event accepted)
  show ?thesis
  proof (cases accepted)
    case True
    with push(2) have "d' = d\<lparr>queue := queue d @ [event], owed := owed d + 1\<rparr>" and "\<not> stopping d"
      and "length (queue d) < capacity d"
      by (simp_all add: Push_def split: if_splits)
    with push(1) True assms(2) show ?thesis
      unfolding delivery_inv_def by (simp add: shown_snoc)
  next
    case False
    with push assms(2) show ?thesis
      by (simp add: Push_def delivery_inv_def shown_snoc split: if_splits)
  qed
next
  case (stop on_worker how)
  with assms(2) show ?thesis
    by (cases "stopping d") (auto simp: Stop_def delivery_inv_def shown_snoc)
next
  case notified
  with assms(2) show ?thesis
    by (cases "worker d = Asleep") (auto simp: notify_def delivery_inv_def shown_snoc leaving_def)
next
  case checked
  with assms(2) show ?thesis
    by (cases "queue d") (auto simp: check_queue_def delivery_inv_def shown_snoc leaving_def)
qed (use assms(2) in \<open>auto simp: delivery_inv_def shown_snoc leaving_def round_calls_def\<close>)

lemma delivery_run_inv: "delivery_run limit acts d \<Longrightarrow> delivery_inv limit acts d"
  by (induction rule: delivery_run.induct) (auto intro: delivery_inv_start delivery_inv_step)


section \<open>Running labels\<close>

text \<open>The label and the state before determine the state after, so runs can be computed.\<close>

fun perform :: "('e, 's) act \<Rightarrow> ('e, 's) delivery \<Rightarrow> ('e, 's) delivery option" where
  "perform (Pushed event answer) d = (if fst (Push event d) = answer then Some (snd (Push event d)) else None)"
| "perform (Stopped on_worker how) d =
     (if fst (Stop on_worker d) = how \<and> (on_worker \<longrightarrow> in_callback (worker d)) then Some (snd (Stop on_worker d)) else None)"
| "perform Notified d = (if 0 < owed d then Some (notify d) else None)"
| "perform Woke d = (if worker d = Asleep then Some (d\<lparr>worker := Checking\<rparr>) else None)"
| "perform Checked d = (if worker d = Checking then Some (check_queue d) else None)"
| "perform (Asked event ss) d =
     (if worker d = Fetching event then Some (d\<lparr>worker := Handing event ss\<rparr>) else None)"
| "perform (OnEvent sink event threw) d = (case worker d of
     Handing e (s # rest) \<Rightarrow> if e = event \<and> s = sink then Some (d\<lparr>worker := Handing event rest\<rparr>) else None
   | _ \<Rightarrow> None)"
| "perform Handed d = (case worker d of Handing e [] \<Rightarrow> Some (d\<lparr>worker := Checking\<rparr>) | _ \<Rightarrow> None)"
| "perform (AskedLast ss) d = (if worker d = Finishing then Some (d\<lparr>worker := Flushing ss\<rparr>) else None)"
| "perform (Flush sink) d = (case worker d of
     Flushing (s # rest) \<Rightarrow> if s = sink then Some (d\<lparr>worker := Flushing rest\<rparr>) else None
   | _ \<Rightarrow> None)"
| "perform Finished d = (if worker d = Flushing [] then Some (d\<lparr>worker := Ended\<rparr>) else None)"

fun performs :: "('e, 's) act list \<Rightarrow> ('e, 's) delivery \<Rightarrow> ('e, 's) delivery option" where
  "performs [] d = Some d"
| "performs (a # acts) d = Option.bind (perform a d) (performs acts)"

lemma Current_Returns [simp]: "Current (Some (Returns ss)) = ss"
  by (simp add: Current_def)

lemma delivery_step_perform: "delivery_step a d d' \<longleftrightarrow> perform a d = Some d'"
proof (cases a)
  case (Pushed event answer)
  then show ?thesis by (cases "Push event d") (auto simp: delivery_step_simps)
next
  case (Stopped on_worker how)
  then show ?thesis by (cases "Stop on_worker d") (auto simp: delivery_step_simps)
next
  case (Asked event ss)
  have "\<exists>answer. ss = Current answer \<and> answer \<noteq> Some Hangs"
    by (rule exI [of _ "Some (Returns ss)"]) simp
  with Asked show ?thesis by (auto simp: delivery_step_simps)
next
  case (AskedLast ss)
  have "\<exists>answer. ss = Current answer \<and> answer \<noteq> Some Hangs"
    by (rule exI [of _ "Some (Returns ss)"]) simp
  with AskedLast show ?thesis by (auto simp: delivery_step_simps)
qed (auto simp: delivery_step_simps split: thread_phase.splits list.splits)

lemma performs_run: "delivery_run limit acts d \<Longrightarrow> performs more_acts d = Some d' \<Longrightarrow> delivery_run limit (acts @ more_acts) d'"
proof (induction more_acts arbitrary: acts d)
  case (Cons a more_acts)
  from Cons.prems(2) obtain e where "delivery_step a d e" and "performs more_acts e = Some d'"
    by (auto simp: delivery_step_perform bind_eq_Some_conv)
  with Cons.IH [OF next_step [OF Cons.prems(1)], of a e] show ?case by simp
qed simp

lemma run_from_start: "performs acts (Delivery0 limit) = Some d \<Longrightarrow> delivery_run limit acts d"
  using performs_run [OF start] by fastforce


section \<open>Once stopping, the thread ends\<close>

text \<open>The steps of the delivery thread and the notifications owed to it, without spurious wake-ups.\<close>

definition inner :: "('e, 's) act \<Rightarrow> bool" where
  "inner a \<longleftrightarrow> (case a of Pushed _ _ \<Rightarrow> False | Stopped _ _ \<Rightarrow> False | Woke \<Rightarrow> False | _ \<Rightarrow> True)"

fun place :: "('e, 's) thread_phase \<Rightarrow> nat" where
  "place (Fetching event) = 6"
| "place (Handing event ss) = 5"
| "place Asleep = 4"
| "place Checking = 3"
| "place Finishing = 2"
| "place (Flushing ss) = 1"
| "place Ended = 0"

definition inner_steps :: "(('e, 's) delivery \<times> ('e, 's) delivery) set" where
  "inner_steps = {(d', d). stopping d \<and> (\<exists>a. inner a \<and> delivery_step a d d')}"

lemma inner_steps_wf: "wf inner_steps"
proof (rule wf_subset)
  let ?m = "[\<lambda>d. length (queue d), place \<circ> worker, \<lambda>d. length (to_call (worker d)), owed]"
  show "wf (measures ?m)" by simp
  show "inner_steps \<subseteq> measures ?m"
  proof clarify
    fix d' d :: "('e, 's) delivery"
    assume "(d', d) \<in> inner_steps"
    then obtain a where "stopping d" and "inner a" and "delivery_step a d d'" by (auto simp: inner_steps_def)
    from this(3) this(1,2) show "(d', d) \<in> measures ?m"
    proof cases
      case checked
      with \<open>stopping d\<close> show ?thesis by (cases "queue d") (simp_all add: check_queue_def)
    qed (auto simp: inner_def notify_def)
  qed
qed

lemma inner_steps_possible:
  assumes "delivery_inv limit acts d" and "stopping d" and "worker d \<noteq> Ended"
  shows "\<exists>a d'. inner a \<and> delivery_step a d d'"
proof -
  have "\<exists>a. inner a \<and> perform a d \<noteq> None"
  proof (cases "worker d")
    case Checking
    then show ?thesis by (intro exI [of _ Checked]) (simp add: inner_def)
  next
    case Asleep
    with assms(1,2) have "0 < owed d" by (simp add: delivery_inv_def)
    then show ?thesis by (intro exI [of _ Notified]) (simp add: inner_def)
  next
    case (Fetching event)
    then show ?thesis by (intro exI [of _ "Asked event []"]) (simp add: inner_def)
  next
    case (Handing event ss)
    then show ?thesis
      by (cases ss; intro exI [of _ "case ss of [] \<Rightarrow> Handed | s # rest \<Rightarrow> OnEvent s event False"]) (simp_all add: inner_def)
  next
    case Finishing
    then show ?thesis by (intro exI [of _ "AskedLast []"]) (simp add: inner_def)
  next
    case (Flushing ss)
    then show ?thesis
      by (cases ss; intro exI [of _ "case ss of [] \<Rightarrow> Finished | s # rest \<Rightarrow> Flush s"]) (simp_all add: inner_def)
  qed (use assms(3) in simp)
  then show ?thesis by (auto simp: delivery_step_perform)
qed


section \<open>The events one sink sees\<close>

definition events_to :: "'s \<Rightarrow> ('s \<times> 'e option) list \<Rightarrow> 'e list" where
  "events_to s cs = concat (map (\<lambda>(s', e). if s' = s then (case e of Some event \<Rightarrow> [event] | None \<Rightarrow> []) else []) cs)"

lemma events_to_Nil [simp]: "events_to s [] = []"
  by (simp add: events_to_def)

lemma events_to_Cons [simp]:
  "events_to s ((s', e) # cs) = (if s' = s then (case e of Some event \<Rightarrow> [event] | None \<Rightarrow> []) else []) @ events_to s cs"
  by (simp add: events_to_def)

lemma events_to_append [simp]: "events_to s (cs @ ds) = events_to s cs @ events_to s ds"
  by (simp add: events_to_def)

lemma events_to_flushes [simp]: "events_to s (map (\<lambda>s. (s, None)) ss) = []"
  by (induction ss) simp_all

lemma round_calls_simps [simp]:
  "round_calls (event, []) = []" "round_calls (event, s # ss) = (s, Some event) # round_calls (event, ss)"
  by (simp_all add: round_calls_def)

lemma events_to_round: "distinct ss \<Longrightarrow> events_to s (round_calls (event, ss)) = (if s \<in> set ss then [event] else [])"
  by (induction ss) auto

lemma events_to_rounds:
  "\<forall>r \<in> set rs. distinct (snd r) \<Longrightarrow> subseq (events_to s (concat (map round_calls rs))) (map fst rs)"
proof (induction rs)
  case (Cons r rs)
  obtain event ss where "r = (event, ss)" by (cases r)
  with Cons show ?case by (auto simp: events_to_round)
qed (simp add: events_to_def)

text \<open>At every moment of a run a sink has seen some of the accepted events, each at most once, in their order.\<close>

lemma sink_sees_subseq:
  assumes "delivery_run limit acts d" and "\<forall>r \<in> set (rounds acts). distinct (snd r)"
  shows "subseq (events_to s (calls acts)) (accepted acts)"
proof -
  note inv = delivery_run_inv [OF assms(1), unfolded delivery_inv_def]
  then have "calls acts @ to_call (worker d) = concat (map round_calls (rounds acts)) @ map (\<lambda>s. (s, None)) (last_round acts)"
    by blast
  then have "events_to s (calls acts) @ events_to s (to_call (worker d)) = events_to s (concat (map round_calls (rounds acts)))"
    by (metis append_Nil2 events_to_append events_to_flushes)
  then have "subseq (events_to s (calls acts)) (events_to s (concat (map round_calls (rounds acts))))"
    by (metis prefixI prefix_imp_subseq)
  also have "subseq \<dots> (map fst (rounds acts))" by (rule events_to_rounds [OF assms(2)])
  also have "subseq \<dots> (accepted acts)"
    using inv by (metis prefixI prefix_imp_subseq)
  finally show ?thesis .
qed

lemma sorted_wrt_subseq: "subseq xs ys \<Longrightarrow> sorted_wrt P ys \<Longrightarrow> sorted_wrt P xs"
proof (induction rule: list_emb.induct)
  case (list_emb_Cons2 x y xs ys)
  then show ?case by (auto dest: list_emb_set)
qed auto


section \<open>Properties\<close>

text \<open>C6: When the delivery thread has ended, every accepted event was delivered: the rounds of the thread are exactly
  the events the accepted pushes gave, in the order of the pushes; each sink registered for a round was called once
  with its event, in the order of the registrations, whether or not sinks threw; and the flushes came after the last
  event. Pushes refused, made by any thread and at any moment, change nothing of it.\<close>

theorem Delivery_delivers:
  assumes "delivery_run limit acts d" and "worker d = Ended"
  shows "map fst (rounds acts) = accepted acts
    \<and> calls acts = concat (map round_calls (rounds acts)) @ map (\<lambda>s. (s, None)) (last_round acts)"
  using delivery_run_inv [OF assms(1)] assms(2) by (simp add: delivery_inv_def leaving_def)

definition sample_run :: "(nat, nat) act list" where
  "sample_run = [Checked, Pushed 1 True, Pushed 2 False, Notified, Checked, Asked 1 [8, 9], OnEvent 8 1 True,
     Pushed 3 True, OnEvent 9 1 False, Stopped False Joining, Pushed 4 False, Handed, Checked, Asked 3 [9],
     OnEvent 9 3 False, Handed, Notified, Checked, AskedLast [9], Flush 9, Finished]"

definition sample_end :: "(nat, nat) delivery" where
  "sample_end = \<lparr>capacity = 1, queue = [], stopping = True, worker = Ended, owed = 1\<rparr>"

lemma sample_performs: "performs sample_run (Delivery0 1) = Some sample_end"
  by (simp add: sample_run_def sample_end_def Delivery0_def check_queue_def Push_def Stop_def notify_def)

theorem Delivery_delivers_witness:
  "map fst (rounds sample_run) = [1, 3]
    \<and> calls sample_run = [(8, Some 1), (9, Some 1), (9, Some 3), (9, None)]"
  using Delivery_delivers [OF run_from_start [OF sample_performs]]
  by (simp add: sample_end_def) (simp add: sample_run_def shown_defs)

text \<open>C31: Delivery is bounded and in order at every moment: the queue never holds more events than the capacity, and
  the accepted events are those handed out, the one in the thread's hand and those queued, in the order of the
  pushes, so at most the capacity and one accepted events are not handed out yet.\<close>

theorem Delivery_bounded:
  assumes "delivery_run limit acts d"
  shows "length (queue d) \<le> limit \<and> accepted acts = map fst (rounds acts) @ in_flight (worker d) @ queue d
    \<and> length (accepted acts) \<le> length (rounds acts) + 1 + limit"
proof -
  have "length (in_flight (worker d)) \<le> 1" by (cases "worker d") simp_all
  with delivery_run_inv [OF assms] show ?thesis by (simp add: delivery_inv_def)
qed

theorem Delivery_bounded_witness: "length (accepted sample_run) \<le> length (rounds sample_run) + 1 + 1"
  using Delivery_bounded [OF run_from_start [OF sample_performs]] by blast

text \<open>C13: Stopping ends: once delivery is stopping, the delivery thread has ended or can go on by itself or by a
  notification it is owed (no wake-up is lost), and it cannot go on forever, however many sinks the rounds have.\<close>

theorem Delivery_stops:
  fixes d :: "('e, 's) delivery"
  assumes "delivery_run limit acts d" and "stopping d"
  shows "wf (inner_steps :: (('e, 's) delivery \<times> ('e, 's) delivery) set)
    \<and> (worker d = Ended \<or> (\<exists>d'. (d', d) \<in> inner_steps))"
  using inner_steps_wf inner_steps_possible [OF delivery_run_inv [OF assms(1)] assms(2)] assms(2)
  by (auto simp: inner_steps_def)

theorem Delivery_stops_witness:
  "\<exists>d'. (d', \<lparr>capacity = 1, queue = [5], stopping = True, worker = Asleep, owed = 2\<rparr> :: (nat, nat) delivery) \<in> inner_steps"
proof -
  have "performs [Checked, Pushed 5 True, Stopped False Joining] (Delivery0 1)
      = Some (\<lparr>capacity = 1, queue = [5], stopping = True, worker = Asleep, owed = 2\<rparr> :: (nat, nat) delivery)"
    by (simp add: Delivery0_def check_queue_def Push_def Stop_def)
  from Delivery_stops [OF run_from_start [OF this]] show ?thesis by simp
qed

end
