(* ===== verification/Events.thy ===== *)
theory Events
  imports AclAudit Connection Delivery
begin

text \<open>
  The events of the contracts as they are laid out: those of \<open>contracts/acl_audit.hpp\<close> with the plan, the sources and
  the lineage they carry, and those of \<open>contracts/tresor_audit.hpp\<close> with its registry. The producers that fill
  them are other repositories; what is stated here of an event is the order in which a sink sees it.
\<close>

section \<open>acl's audit events\<close>

record AuditObject =
  object_name :: string
  capability :: string

record AuditSource =
  source :: string
  source_kind :: string
  scans :: int
  source_rows :: int
  source_rows_scanned :: int
  source_timing_us :: int
  source_bytes :: int
  source_filters :: int
  source_projections :: int
  source_dynamic_filters :: bool

definition AuditSource0 :: AuditSource where
  "AuditSource0 = \<lparr>source = [], source_kind = [], scans = 0, source_rows = 0, source_rows_scanned = 0,
     source_timing_us = 0, source_bytes = 0, source_filters = 0, source_projections = 0,
     source_dynamic_filters = False\<rparr>"

record AuditPlanNode =
  node_id :: int
  parent_id :: int
  depth :: int
  node_type :: string
  node_kind :: string
  node_source :: string
  node_rows :: int
  node_rows_scanned :: int
  node_timing_us :: int
  node_bytes :: int
  peak_memory_observed :: int
  node_filters :: int
  node_projections :: int
  node_dynamic_filters :: bool

definition AuditPlanNode0 :: AuditPlanNode where
  "AuditPlanNode0 = \<lparr>node_id = 0, parent_id = -1, depth = 0, node_type = [], node_kind = [], node_source = [],
     node_rows = 0, node_rows_scanned = 0, node_timing_us = 0, node_bytes = 0, peak_memory_observed = 0,
     node_filters = 0, node_projections = 0, node_dynamic_filters = False\<rparr>"

datatype AuditLineageField =
  LineageField (field_name: string) (field_type: string) (field_fields: "AuditLineageField list")

record AuditLineageSymlink =
  symlink_ns :: string
  symlink_name :: string
  symlink_type :: string

record AuditLineageTag =
  tag_key :: string
  tag_value :: string
  tag_field :: string

record AuditLineageDataset =
  dataset_ns :: string
  lineage_name :: string
  dataset_type :: string
  physical :: bool
  lifecycle :: string
  lineage_schema :: "AuditLineageField list"
  symlinks :: "AuditLineageSymlink list"
  dataset_tags :: "AuditLineageTag list"

record AuditLineageEdge =
  target :: int
  target_field :: string
  edge_source :: int
  source_field :: string
  edge_type :: string
  subtype :: string
  masking :: bool

definition AuditLineageEdge0 :: AuditLineageEdge where
  "AuditLineageEdge0 = \<lparr>target = -1, target_field = [], edge_source = -1, source_field = [], edge_type = [],
     subtype = [], masking = False\<rparr>"

record AuditLineageRunRef =
  run_ns :: string
  run_job :: string
  ref_run_id :: string

definition AuditLineageRunRef_Empty :: "AuditLineageRunRef \<Rightarrow> bool" where
  "AuditLineageRunRef_Empty r \<longleftrightarrow> ref_run_id r = []"

record AuditLineage =
  event_type :: string
  run_id :: string
  job_ns :: string
  job_name :: string
  parent_run :: AuditLineageRunRef
  root_parent :: AuditLineageRunRef
  datasets :: "AuditLineageDataset list"
  input_datasets :: "int list"
  output_datasets :: "int list"
  edges :: "AuditLineageEdge list"
  sql :: string
  dialect :: string
  lineage_client :: string
  lineage_issuer :: string
  lineage_roles :: "string list"
  lineage_subject :: string
  node_group :: string
  approximate :: bool
  lineage_truncated :: bool
  lineage_dropped :: int

record AuditEvent =
  ts_us :: int
  seq :: int
  event_node :: string
  event_level :: AuditLevel
  event_door :: string
  event_session :: string
  event_principal :: Principal
  event_kind :: string
  statement :: string
  objects :: "AuditObject list"
  allowed :: bool
  reason_code :: string
  reason :: string
  event_correlation_id :: string
  event_traceparent :: string
  rewrite_us :: int
  event_rows :: int
  duration_us :: int
  detail :: string
  decision_seq :: int
  event_error :: bool
  exec_us :: int
  cpu_us :: int
  rows_scanned :: int
  rows_out :: int
  bytes_read :: int
  bytes_written :: int
  peak_memory :: int
  memory_allocated :: int
  blocked_us :: int
  event_truncated :: bool
  event_sources :: "AuditSource list"
  event_plan :: "AuditPlanNode list"
  lineage :: "AuditLineage option"
  recorded :: bool

definition AuditEvent0 :: AuditEvent where
  "AuditEvent0 = \<lparr>ts_us = 0, seq = 0, event_node = [], event_level = AuditDecisions, event_door = [],
     event_session = [], event_principal = Principal0, event_kind = [], statement = [], objects = [],
     allowed = True, reason_code = [], reason = [], event_correlation_id = [], event_traceparent = [],
     rewrite_us = -1, event_rows = -1, duration_us = -1, detail = [], decision_seq = -1, event_error = False,
     exec_us = -1, cpu_us = -1, rows_scanned = -1, rows_out = -1, bytes_read = -1, bytes_written = -1,
     peak_memory = -1, memory_allocated = -1, blocked_us = -1, event_truncated = False, event_sources = [],
     event_plan = [], lineage = None, recorded = True\<rparr>"


section \<open>tresor's audit events and registry\<close>

record TresorAuditEvent =
  tresor_ts_us :: int
  tresor_seq :: int
  tresor_kind :: string
  tresor_outcome :: string
  tresor_reason_code :: string
  tresor_reason :: string
  tresor_service :: string
  tresor_host :: string
  tresor_login :: string
  tresor_principal :: string
  tresor_user :: string
  acl_session :: string
  tresor_correlation_id :: string
  tresor_traceparent :: string
  secret_name :: string
  secret_type :: string
  cached_answer :: bool
  dynamic_secret :: bool
  tresor_target :: string
  tresor_duration_us :: int
  tresor_detail :: string

definition TresorAuditEvent0 :: TresorAuditEvent where
  "TresorAuditEvent0 = \<lparr>tresor_ts_us = 0, tresor_seq = 0, tresor_kind = [], tresor_outcome = [],
     tresor_reason_code = [], tresor_reason = [], tresor_service = [], tresor_host = [], tresor_login = [],
     tresor_principal = [], tresor_user = [], acl_session = [], tresor_correlation_id = [],
     tresor_traceparent = [], secret_name = [], secret_type = [], cached_answer = False,
     dynamic_secret = False, tresor_target = [], tresor_duration_us = -1, tresor_detail = []\<rparr>"

definition TresorAuditHooks0 :: "('s, 'w) registry" where
  "TresorAuditHooks0 = Registry0 0x54525341 1"

definition TresorAuditHooks_ObjectType :: string where
  "TresorAuditHooks_ObjectType = ''tresor_audit_hooks''"

definition TresorAuditHooks_Reach ::
  "('i, 'p) get_or_create \<Rightarrow> ('p \<Rightarrow> 'i \<Rightarrow> hooks_stamp) \<Rightarrow> 'i \<Rightarrow> ('p option \<times> string) \<times> 'i" where
  "TresorAuditHooks_Reach = ReachAs 0x54525341 1 TresorAuditHooks_ObjectType"


section \<open>Properties\<close>

text \<open>C29: A sink sees tresor's events in sequence: when the accepted events carry increasing sequence numbers (tresor
  stamps them under its own lock around \<open>Push\<close>) and no sink is registered twice, every sink is called with some of
  the accepted events, each at most once, in increasing order of their numbers, whatever else happens in between.\<close>

theorem sink_sees_in_sequence:
  fixes acts :: "(TresorAuditEvent, 's) act list"
  assumes "delivery_run limit acts d" and "sorted_wrt (<) (map tresor_seq (accepted acts))"
    and "\<forall>r \<in> set (rounds acts). distinct (snd r)"
  shows "subseq (events_to s (calls acts)) (accepted acts)
    \<and> sorted_wrt (<) (map tresor_seq (events_to s (calls acts)))"
  using sink_sees_subseq [OF assms(1,3)] sorted_wrt_subseq [OF sink_sees_subseq [OF assms(1,3)]] assms(2)
  by (simp add: sorted_wrt_map)

definition tresor_event :: "int \<Rightarrow> TresorAuditEvent" where
  "tresor_event n = TresorAuditEvent0\<lparr>tresor_seq := n, tresor_kind := ''lookup'', tresor_outcome := ''ok''\<rparr>"

definition tresor_run :: "(TresorAuditEvent, nat) act list" where
  "tresor_run = [Pushed (tresor_event 1) True, Pushed (tresor_event 2) True, Checked, Asked (tresor_event 1) [4, 5],
     OnEvent 4 (tresor_event 1) True, OnEvent 5 (tresor_event 1) False, Handed, Checked, Asked (tresor_event 2) [5],
     OnEvent 5 (tresor_event 2) False]"

theorem sink_sees_in_sequence_witness:
  "events_to 5 (calls tresor_run) = [tresor_event 1, tresor_event 2]
    \<and> sorted_wrt (<) (map tresor_seq (events_to 5 (calls tresor_run)))"
proof -
  have "performs tresor_run (Delivery0 9)
      = Some \<lparr>capacity = 9, queue = [], stopping = False, worker = Handing (tresor_event 2) [], owed = 2\<rparr>"
    by (simp add: tresor_run_def Delivery0_def Push_def check_queue_def)
  from sink_sees_in_sequence [OF run_from_start [OF this], of 5]
  show ?thesis by (simp add: tresor_run_def shown_defs tresor_event_def)
qed

end
