(* ===== verification/Pipeline.thy ===== *)
theory Pipeline
  imports Events
begin

text \<open>
  A producer's delivery over the contract's registry (\<open>hooks/ext_hooks.hpp\<close>): the sinks function of \<open>Delivery\<close> is the
  registry's \<open>Sinks()\<close>, consumers add and remove sinks while the delivery thread runs. What is added to the two
  components here is the way the header says they are used; the steps are theirs.
\<close>

datatype ('e, 's) pipe_act = Deliver "('e, 's) act" | Listen "'s listen_call"

text \<open>The sinks the delivery thread gets are those registered at that moment.\<close>

definition asks_registry :: "('e, 's) act \<Rightarrow> ('s, 'w) registry \<Rightarrow> bool" where
  "asks_registry a r \<longleftrightarrow> (case a of Asked event ss \<Rightarrow> ss = sinks r | AskedLast ss \<Rightarrow> ss = sinks r | _ \<Rightarrow> True)"

inductive pipe_run :: "nat \<Rightarrow> ('s, 'w) registry \<Rightarrow> ('e, 's) pipe_act list \<Rightarrow> ('e, 's) delivery \<Rightarrow> ('s, 'w) registry \<Rightarrow> bool"
  for limit r0 where
  start: "pipe_run limit r0 [] (Delivery0 limit) r0"
| deliver: "pipe_run limit r0 acts d r \<Longrightarrow> delivery_step a d d' \<Longrightarrow> asks_registry a r \<Longrightarrow>
    pipe_run limit r0 (acts @ [Deliver a]) d' r"
| register: "pipe_run limit r0 acts d r \<Longrightarrow>
    pipe_run limit r0 (acts @ [Listen c]) d (listen AddSink RemoveSink c r)"

definition delivery_acts :: "('e, 's) pipe_act list \<Rightarrow> ('e, 's) act list" where
  "delivery_acts acts = concat (map (\<lambda>a. case a of Deliver a \<Rightarrow> [a] | Listen c \<Rightarrow> []) acts)"

definition listen_calls :: "('e, 's) pipe_act list \<Rightarrow> 's listen_call list" where
  "listen_calls acts = concat (map (\<lambda>a. case a of Deliver a \<Rightarrow> [] | Listen c \<Rightarrow> [c]) acts)"

lemma pipe_snoc [simp]:
  "delivery_acts [] = []" "listen_calls [] = []"
  "delivery_acts (acts @ [Deliver a]) = delivery_acts acts @ [a]" "delivery_acts (acts @ [Listen c]) = delivery_acts acts"
  "listen_calls (acts @ [Deliver a]) = listen_calls acts" "listen_calls (acts @ [Listen c]) = listen_calls acts @ [c]"
  by (simp_all add: delivery_acts_def listen_calls_def)

text \<open>Each component sees a run of its own.\<close>

lemma pipe_run_parts:
  "pipe_run limit r0 acts d r \<Longrightarrow>
     delivery_run limit (delivery_acts acts) d \<and> r = fold (listen AddSink RemoveSink) (listen_calls acts) r0"
  by (induction rule: pipe_run.induct) (auto intro: delivery_run.intros)

text \<open>A sink registered once, and left alone, is in every list the delivery thread gets, once.\<close>

definition undisturbed :: "'s \<Rightarrow> ('e, 's) pipe_act list \<Rightarrow> bool" where
  "undisturbed s acts \<longleftrightarrow> AddListener s \<notin> set (listen_calls acts) \<and> RemoveListener s \<notin> set (listen_calls acts)"

lemma pipe_asks:
  "pipe_run limit r0 acts d r \<Longrightarrow> undisturbed s acts \<Longrightarrow> count_list (sinks r0) s = 1 \<Longrightarrow>
     count_list (sinks r) s = 1 \<and> (\<forall>a \<in> set (delivery_acts acts).
       case a of Asked event ss \<Rightarrow> count_list ss s = 1 | AskedLast ss \<Rightarrow> count_list ss s = 1 | _ \<Rightarrow> True)"
proof (induction rule: pipe_run.induct)
  case start
  then show ?case by simp
next
  case (deliver acts d r a d')
  then show ?case by (auto simp: undisturbed_def asks_registry_def split: act.splits)
next
  case (register acts d r c)
  then have "AddListener s \<noteq> c" and "RemoveListener s \<noteq> c" and "undisturbed s acts" by (auto simp: undisturbed_def)
  with register show ?case
    by (cases c) (auto simp: registry_sinks.current_add registry_sinks.current_remove)
qed

lemma rounds_count:
  "\<forall>a \<in> set acts. case a of Asked event ss \<Rightarrow> count_list ss s = 1 | _ \<Rightarrow> True \<Longrightarrow>
     \<forall>r \<in> set (rounds acts). count_list (snd r) s = 1"
  by (auto simp: rounds_def split: act.splits)


lemma events_to_round_once:
  "count_list (snd q) s = 1 \<Longrightarrow> events_to s (round_calls q) = [fst q]"
proof -
  obtain event ss where q: "q = (event, ss)" by (cases q)
  have "events_to s (round_calls (event, ss)) = replicate (count_list ss s) event"
    by (induction ss) simp_all
  then show "count_list (snd q) s = 1 \<Longrightarrow> events_to s (round_calls q) = [fst q]"
    by (simp add: q)
qed

lemma events_to_rounds_once:
  "\<forall>q \<in> set rs. count_list (snd q) s = 1 \<Longrightarrow> events_to s (concat (map round_calls rs)) = map fst rs"
  by (induction rs) (simp_all add: events_to_round_once)

text \<open>The flush happens once.\<close>

fun is_last :: "('e, 's) act \<Rightarrow> bool" where
  "is_last (AskedLast ss) = True"
| "is_last _ = False"

lemma asked_last_once:
  "delivery_run limit acts d \<Longrightarrow>
     length (filter is_last acts) = (if worker d = Ended \<or> (\<exists>ss. worker d = Flushing ss) then 1 else 0)"
proof (induction rule: delivery_run.induct)
  case start
  show ?case by (simp add: Delivery0_def)
next
  case (next_step acts d a d')
  from next_step(2) next_step.IH show ?case
  proof cases
    case (push event answer)
    with next_step.IH show ?thesis by (auto simp: Push_def split: if_splits)
  next
    case (stop on_worker how)
    with next_step.IH show ?thesis by (auto simp: Stop_def split: if_splits)
  next
    case checked
    with next_step.IH show ?thesis by (auto simp: check_queue_def split: list.splits)
  qed (auto simp: notify_def)
qed

lemma no_flush_in_round: "(s, None) \<notin> set (round_calls q)"
  by (cases q) (auto simp: round_calls_def)

lemma no_flush_in_rounds: "count_list (concat (map round_calls rs)) (s, None) = 0"
  by (simp add: count_list_0_iff no_flush_in_round)

lemma count_flushes: "count_list (map (\<lambda>s. (s, None)) ss) (s, None) = count_list ss s"
  by (induction ss) simp_all

lemma last_round_one:
  assumes "length (filter is_last acts) = 1"
    and "\<forall>a \<in> set acts. case a of AskedLast ss \<Rightarrow> count_list ss s = 1 | _ \<Rightarrow> True"
  shows "count_list (last_round acts) s = 1"
proof -
  obtain xs a ys where acts: "acts = xs @ a # ys" and a: "is_last a"
    using assms(1) by (metis filter_empty_conv in_set_conv_decomp length_0_conv zero_neq_one)
  with assms(1) have rest: "\<forall>b \<in> set xs \<union> set ys. \<not> is_last b" by (auto simp: filter_empty_conv)
  have none: "last_round zs = []" if "\<forall>b \<in> set zs. \<not> is_last b" for zs :: "('a, 'b) act list"
    using that by (induction zs) (auto simp: last_round_def split: act.splits)
  obtain ss where ss: "a = AskedLast ss" using a by (cases a) simp_all
  have "last_round (xs @ a # ys) = last_round xs @ ss @ last_round ys"
    by (simp add: last_round_def ss)
  with none [of xs] none [of ys] rest acts have "last_round acts = ss" by simp
  with assms(2) acts ss show ?thesis by auto
qed


section \<open>Properties\<close>

text \<open>C5: A registered sink misses nothing: when the delivery thread over a registry has ended, a sink that was registered
  once before the first event and neither added nor removed since was called with every accepted event, once each
  and in the order of the pushes, and then flushed once, whatever the other consumers registered and removed, the
  producers pushed, and the sinks threw in between.\<close>

theorem pipeline_misses_nothing:
  assumes "pipe_run limit r0 acts d r" and "worker d = Ended"
    and "count_list (sinks r0) s = 1" and "undisturbed s acts"
  shows "events_to s (calls (delivery_acts acts)) = accepted (delivery_acts acts)
    \<and> count_list (calls (delivery_acts acts)) (s, None) = 1"
proof -
  let ?A = "delivery_acts acts"
  from pipe_run_parts [OF assms(1)] have run: "delivery_run limit ?A d" by blast
  note inv = delivery_run_inv [OF run]
  then have calls: "calls ?A = concat (map round_calls (rounds ?A)) @ map (\<lambda>s. (s, None)) (last_round ?A)"
    and accepted: "accepted ?A = map fst (rounds ?A)"
    using assms(2) by (simp_all add: delivery_inv_def leaving_def)
  from pipe_asks [OF assms(1,4,3)] have asks: "\<forall>a \<in> set ?A. case a of
      Asked event ss \<Rightarrow> count_list ss s = 1 | AskedLast ss \<Rightarrow> count_list ss s = 1 | _ \<Rightarrow> True" by blast
  then have "\<forall>q \<in> set (rounds ?A). count_list (snd q) s = 1"
    by (intro rounds_count) (auto split: act.splits)
  from events_to_rounds_once [OF this] have events: "events_to s (calls ?A) = accepted ?A"
    by (simp add: calls accepted)
  have "count_list (last_round ?A) s = 1"
    using asks asked_last_once [OF run] assms(2) by (intro last_round_one) (auto split: act.splits)
  with events show ?thesis
    by (simp add: calls no_flush_in_rounds count_flushes)
qed


text \<open>Runs of the pipeline can be computed, as those of a delivery.\<close>

fun pipe_performs :: "('e, 's) pipe_act list \<Rightarrow> ('e, 's) delivery \<times> ('s, 'w) registry
    \<Rightarrow> (('e, 's) delivery \<times> ('s, 'w) registry) option" where
  "pipe_performs [] s = Some s"
| "pipe_performs (Deliver a # acts) (d, r) =
     (if asks_registry a r then Option.bind (perform a d) (\<lambda>d. pipe_performs acts (d, r)) else None)"
| "pipe_performs (Listen c # acts) (d, r) = pipe_performs acts (d, listen AddSink RemoveSink c r)"

lemma pipe_performs_run:
  "pipe_run limit r0 acts d r \<Longrightarrow> pipe_performs more_acts (d, r) = Some (d', r') \<Longrightarrow>
     pipe_run limit r0 (acts @ more_acts) d' r'"
proof (induction more_acts "(d, r)" arbitrary: acts d r rule: pipe_performs.induct)
  case (2 a more_acts d r)
  from "2.prems"(2) obtain e where asks: "asks_registry a r" and p: "perform a d = Some e"
    and rest: "pipe_performs more_acts (e, r) = Some (d', r')"
    by (auto simp: bind_eq_Some_conv split: if_splits)
  then have "delivery_step a d e" by (simp add: delivery_step_perform)
  from "2.hyps" [OF asks p deliver [OF "2.prems"(1) this asks] rest] show ?case by simp
next
  case (3 c more_acts d r)
  from "3.prems"(2) have "pipe_performs more_acts (d, listen AddSink RemoveSink c r) = Some (d', r')" by simp
  from "3.hyps" [OF register [OF "3.prems"(1)] this] show ?case by simp
qed simp

definition sample_registry :: "(nat, unit) registry" where
  "sample_registry = AddSink 8 (Registry0 7 1)"

definition sample_pipe :: "(nat, nat) pipe_act list" where
  "sample_pipe = [Deliver (Pushed 1 True), Listen (AddListener 9), Deliver Checked, Deliver (Asked 1 [8, 9]),
     Deliver (OnEvent 8 1 True), Listen (RemoveListener 9), Deliver (Pushed 2 True), Deliver (OnEvent 9 1 False),
     Deliver (Stopped False Joining), Deliver Handed, Deliver Checked, Deliver (Asked 2 [8]), Deliver (OnEvent 8 2 False),
     Deliver Handed, Deliver Checked, Deliver (AskedLast [8]), Deliver (Flush 8), Deliver Finished]"

theorem pipeline_misses_nothing_witness:
  "events_to 8 (calls (delivery_acts sample_pipe)) = [1, 2]
    \<and> count_list (calls (delivery_acts sample_pipe)) (8, None) = 1"
proof -
  have "pipe_performs sample_pipe (Delivery0 5, sample_registry)
      = Some (\<lparr>capacity = 5, queue = [], stopping = True, worker = Ended, owed = 3\<rparr>, sample_registry)"
    by (simp add: sample_pipe_def sample_registry_def Registry0_def registry.defs hooks_stamp.defs AddSink_def
        RemoveSink_def Delivery0_def Push_def Stop_def check_queue_def asks_registry_def)
  from pipe_performs_run [OF pipe_run.start this]
  have "pipe_run 5 sample_registry sample_pipe
      \<lparr>capacity = 5, queue = [], stopping = True, worker = Ended, owed = 3\<rparr> sample_registry" by simp
  moreover have "undisturbed 8 sample_pipe"
    by (simp add: undisturbed_def sample_pipe_def listen_calls_def)
  moreover have "accepted (delivery_acts sample_pipe) = [1, 2]"
    by (simp add: sample_pipe_def delivery_acts_def accepted_def)
  ultimately show ?thesis
    using pipeline_misses_nothing [of 5 sample_registry sample_pipe _ sample_registry 8]
    by (simp add: sample_registry_def AddSink_def Registry0_def registry.defs hooks_stamp.defs)
qed

end
