(* ===== verification/Lineage.thy ===== *)
theory Lineage
  imports Hooks
begin

text \<open>
  Who names a source in lineage (\<open>contracts/acl_lineage_sources.hpp\<close>): a registry of providers, asked in the order
  of their registration. What a provider does is a parameter.
\<close>

record LineageSourceDataset =
  catalog :: string
  catalog_type :: string
  dataset_schema :: string
  dataset_name :: string

record LineageSourceName =
  source_ns :: string
  source_name :: string

definition LINEAGE_MAGIC :: int where
  "LINEAGE_MAGIC = 0x41434C53"

definition LINEAGE_VERSION :: int where
  "LINEAGE_VERSION = 1"

text \<open>A provider's pointer may be null. \<open>failures\<close> counts the calls that threw.\<close>

record 'p AclLineageSources = stamp +
  providers :: "'p option list"
  failures :: int

definition AclLineageSources0 :: "'p AclLineageSources" where
  "AclLineageSources0 = \<lparr>contract_magic = LINEAGE_MAGIC, contract_version = LINEAGE_VERSION, providers = [], failures = 0\<rparr>"

definition AclLineageSources_ObjectType :: string where
  "AclLineageSources_ObjectType = ''acl_lineage_sources''"

definition another_lineage_contract :: "int \<Rightarrow> string" where
  "another_lineage_contract v = ''the lineage source registry is stamped with another acl_lineage_sources contract (''
     @ to_string v @ ''); this build speaks '' @ to_string LINEAGE_VERSION"

definition lineage_spoken :: "stamp \<Rightarrow> bool" where
  "lineage_spoken s \<longleftrightarrow> \<not> (contract_magic s \<noteq> LINEAGE_MAGIC \<or> contract_version s \<noteq> LINEAGE_VERSION)"

definition AclLineageSources_Reach ::
  "('i, 'p) get_or_create \<Rightarrow> ('p \<Rightarrow> 'i \<Rightarrow> stamp) \<Rightarrow> 'i \<Rightarrow> ('p option \<times> string) \<times> 'i" where
  "AclLineageSources_Reach GetOrCreate stamp_of i = (case GetOrCreate AclLineageSources_ObjectType i of
     (None, i) \<Rightarrow> ((None, held_otherwise AclLineageSources_ObjectType), i)
   | (Some sources, i) \<Rightarrow>
       if \<not> lineage_spoken (stamp_of sources i)
       then ((None, another_lineage_contract (contract_version (stamp_of sources i))), i)
       else ((Some sources, []), i))"

definition AddProvider :: "'p option \<Rightarrow> 'p AclLineageSources \<Rightarrow> 'p AclLineageSources" where
  "AddProvider provider s = s\<lparr>providers := providers s @ [provider]\<rparr>"

definition RemoveProvider :: "'p option \<Rightarrow> 'p AclLineageSources \<Rightarrow> 'p AclLineageSources" where
  "RemoveProvider provider s = s\<lparr>providers := erase_first provider (providers s)\<rparr>"

interpretation lineage_gate: contract_gate AclLineageSources_Reach AclLineageSources_ObjectType lineage_spoken
  by unfold_locales (auto simp: AclLineageSources_Reach_def another_lineage_contract_def)

interpretation lineage_providers: listeners AddProvider RemoveProvider providers
  by unfold_locales (simp_all add: AddProvider_def RemoveProvider_def)


section \<open>Asking\<close>

text \<open>\<open>answer_of p\<close> is what the provider \<open>p\<close> answers to a dataset: whether it owns the source, and the name it filled in.\<close>

type_synonym 'p answers = "'p \<Rightarrow> LineageSourceDataset \<Rightarrow> (bool \<times> LineageSourceName) outcome"

fun ask_providers :: "'p answers \<Rightarrow> LineageSourceDataset \<Rightarrow> 'p option list \<Rightarrow> int
    \<Rightarrow> LineageSourceName option outcome \<times> int" where
  "ask_providers answer_of dataset [] failed = (Returns None, failed)"
| "ask_providers answer_of dataset (None # ps) failed = ask_providers answer_of dataset ps failed"
| "ask_providers answer_of dataset (Some p # ps) failed = (case answer_of p dataset of
     Returns (owns, answer) \<Rightarrow>
       if owns \<and> source_ns answer \<noteq> [] then (Returns (Some answer), failed)
       else ask_providers answer_of dataset ps failed
   | Throws \<Rightarrow> ask_providers answer_of dataset ps (failed + 1)
   | Hangs \<Rightarrow> (Hangs, failed))"

definition AclLineageSources_Name ::
  "'p answers \<Rightarrow> LineageSourceDataset \<Rightarrow> ('p AclLineageSources, LineageSourceName option) prog" where
  "AclLineageSources_Name answer_of dataset s = (case ask_providers answer_of dataset (providers s) (failures s) of
     (result, failed) \<Rightarrow> (result, s\<lparr>failures := failed\<rparr>))"


section \<open>The first answer wins\<close>

text \<open>What one registered provider comes to: its answer when it owns the source and names a namespace.\<close>

definition answers :: "'p answers \<Rightarrow> LineageSourceDataset \<Rightarrow> 'p option \<Rightarrow> LineageSourceName option" where
  "answers answer_of dataset provider = (case provider of
     None \<Rightarrow> None
   | Some p \<Rightarrow> (case answer_of p dataset of
       Returns (True, answer) \<Rightarrow> if source_ns answer \<noteq> [] then Some answer else None
     | _ \<Rightarrow> None))"

definition fails :: "'p answers \<Rightarrow> LineageSourceDataset \<Rightarrow> 'p option \<Rightarrow> bool" where
  "fails answer_of dataset provider \<longleftrightarrow> (case provider of None \<Rightarrow> False | Some p \<Rightarrow> answer_of p dataset = Throws)"

definition hangs :: "'p answers \<Rightarrow> LineageSourceDataset \<Rightarrow> 'p option \<Rightarrow> bool" where
  "hangs answer_of dataset provider \<longleftrightarrow> (case provider of None \<Rightarrow> False | Some p \<Rightarrow> answer_of p dataset = Hangs)"

definition asked_in_vain :: "'p answers \<Rightarrow> LineageSourceDataset \<Rightarrow> 'p option list \<Rightarrow> 'p option list" where
  "asked_in_vain answer_of dataset = takeWhile (\<lambda>p. answers answer_of dataset p = None)"

definition first_answer :: "'p answers \<Rightarrow> LineageSourceDataset \<Rightarrow> 'p option list \<Rightarrow> LineageSourceName option" where
  "first_answer answer_of dataset ps = (case dropWhile (\<lambda>p. answers answer_of dataset p = None) ps of
     [] \<Rightarrow> None | p # _ \<Rightarrow> answers answer_of dataset p)"

lemmas asking_defs = answers_def fails_def hangs_def asked_in_vain_def first_answer_def

lemma ask_providers_first:
  "\<not> list_ex (hangs answer_of dataset) (asked_in_vain answer_of dataset ps) \<Longrightarrow>
     ask_providers answer_of dataset ps failed = (Returns (first_answer answer_of dataset ps),
       failed + int (length (filter (fails answer_of dataset) (asked_in_vain answer_of dataset ps))))"
proof (induction answer_of dataset ps failed rule: ask_providers.induct)
  case (3 answer_of dataset p ps failed)
  then show ?case
    by (cases "answer_of p dataset") (auto simp: asking_defs split: bool.splits)
qed (auto simp: asking_defs)

text \<open>C30: Lineage names come from the first provider that knows the source: \<open>Name\<close> gives the answer of the first
  registered provider that owns the dataset with a non-empty namespace, or none; null pointers, refusals, answers
  without a namespace and providers that throw are passed over; each that threw is counted once, the providers
  after the answer are not asked, and the registrations stay as they were.\<close>

theorem Name_first_answer:
  assumes "\<not> list_ex (hangs answer_of dataset) (asked_in_vain answer_of dataset (providers s))"
  shows "AclLineageSources_Name answer_of dataset s = (Returns (first_answer answer_of dataset (providers s)),
    s\<lparr>failures := failures s + int (length (filter (fails answer_of dataset) (asked_in_vain answer_of dataset (providers s))))\<rparr>)"
  by (simp add: AclLineageSources_Name_def ask_providers_first [OF assms])

fun sample_answers :: "nat answers" where
  "sample_answers p dataset =
     (if p = 0 then Throws
      else if p = 1 then Returns (True, \<lparr>source_ns = [], source_name = ''x''\<rparr>)
      else if p = 2 then Returns (True, \<lparr>source_ns = ''postgres://pg:5432'', source_name = dataset_name dataset\<rparr>)
      else Hangs)"

theorem Name_first_answer_witness:
  "AclLineageSources_Name sample_answers \<lparr>catalog = ''pg'', catalog_type = ''postgres'', dataset_schema = ''public'',
       dataset_name = ''orders''\<rparr> (AclLineageSources0\<lparr>providers := [Some 0, None, Some 1, Some 0, Some 2, Some 3]\<rparr>)
   = (Returns (Some \<lparr>source_ns = ''postgres://pg:5432'', source_name = ''orders''\<rparr>),
      AclLineageSources0\<lparr>providers := [Some 0, None, Some 1, Some 0, Some 2, Some 3], failures := 2\<rparr>)"
  by (subst Name_first_answer) (simp_all add: asking_defs AclLineageSources0_def)

end
